(* ===== verification/Prelude.thy ===== *)
theory Prelude
  imports Complex_Main "HOL-Library.Sublist"
begin

text \<open>
  Shared vocabulary of the development: the fact collections the component theories
  fill, JavaScript's nullish default \<open>??\<close>, bounded array tails (\<open>slice(-n)\<close>) and
  insertion-ordered sets (\<open>new Set()\<close>), each with the lemmas that carry the component
  proofs.
\<close>

named_theorems rounding_bounds "bounds that survive rounding to a double"
named_theorems handler_defs "definitions of the state-changing handlers"
named_theorems view_defs "definitions of the values a component renders"

section \<open>Nullish default\<close>

text \<open>\<open>a ?? d\<close>: \<open>undefined\<close> and \<open>null\<close> are \<open>None\<close>.\<close>

definition nullish :: "'a option \<Rightarrow> 'a \<Rightarrow> 'a" where
  "nullish a d = (case a of None \<Rightarrow> d | Some v \<Rightarrow> v)"

lemma nullish_simps [simp]: "nullish None d = d" "nullish (Some v) d = v"
  by (simp_all add: nullish_def)

section \<open>Bounded tails of arrays\<close>

text \<open>\<open>xs.slice(-n)\<close> for a positive constant \<open>n\<close>: the last \<open>n\<close> elements.\<close>

definition keep_last :: "nat \<Rightarrow> 'a list \<Rightarrow> 'a list" where
  "keep_last n xs = drop (length xs - n) xs"

lemma length_keep_last [simp]: "length (keep_last n xs) = min n (length xs)"
  by (simp add: keep_last_def)

lemma keep_last_short [simp]: "length xs \<le> n \<Longrightarrow> keep_last n xs = xs"
  by (simp add: keep_last_def)

lemma keep_last_suffix: "suffix (keep_last n xs) xs"
  by (simp add: keep_last_def suffix_drop)

lemma keep_last_Nil_iff [simp]: "keep_last n xs = [] \<longleftrightarrow> n = 0 \<or> xs = []"
  by (cases xs) (auto simp: keep_last_def)

lemma set_keep_last: "set (keep_last n xs) \<subseteq> set xs"
  by (simp add: keep_last_def set_drop_subset)

lemma last_keep_last: "xs \<noteq> [] \<Longrightarrow> 0 < n \<Longrightarrow> last (keep_last n xs) = last xs"
  unfolding keep_last_def by (rule last_drop) simp

text \<open>Trimming before an append that is trimmed again changes nothing.\<close>

lemma keep_last_push: "keep_last n (keep_last n xs @ [x]) = keep_last n (xs @ [x])"
proof (cases "length xs \<le> n")
  case False
  then have "length (drop (length xs - n) xs) = n" by simp
  with False show ?thesis by (simp add: keep_last_def Suc_diff_le)
qed simp

text \<open>A bounded copy of a growing list: a suffix that has all of its last \<open>n\<close> elements.\<close>

definition tail_of :: "nat \<Rightarrow> 'a list \<Rightarrow> 'a list \<Rightarrow> bool" where
  "tail_of n xs ys \<longleftrightarrow> suffix xs ys \<and> keep_last n xs = keep_last n ys"

lemma tail_of_refl [simp]: "tail_of n xs xs"
  by (simp add: tail_of_def)

lemma tail_of_push:
  assumes "tail_of n xs ys"
  shows "tail_of n (keep_last n (xs @ [p])) (ys @ [p])"
proof -
  have "keep_last n (xs @ [p]) = keep_last n (ys @ [p])"
    using keep_last_push [of n xs p] keep_last_push [of n ys p] assms by (simp add: tail_of_def)
  moreover have "suffix (keep_last n (ys @ [p])) (ys @ [p])" by (rule keep_last_suffix)
  ultimately show ?thesis by (simp only: tail_of_def) simp
qed

text \<open>\<open>[x, ...xs].slice(0, n)\<close>\<close>

lemma list_all_take_Cons: "P x \<Longrightarrow> list_all P xs \<Longrightarrow> list_all P (take n (x # xs))"
  by (cases n) (auto simp: list_all_iff dest: in_set_takeD)

lemma list_all_take: "list_all P xs \<Longrightarrow> list_all P (take n xs)"
  by (auto simp: list_all_iff dest: in_set_takeD)

lemma take_push: "take n (x # take n xs) = take n (x # xs)"
  by (cases n) (simp_all add: min_def)

section \<open>Insertion-ordered sets\<close>

text \<open>\<open>set.add(x)\<close>: a value already present keeps its place.\<close>

definition set_add :: "'a \<Rightarrow> 'a list \<Rightarrow> 'a list" where
  "set_add x xs = (if x \<in> set xs then xs else xs @ [x])"

definition set_adds :: "'a list \<Rightarrow> 'a list \<Rightarrow> 'a list" where
  "set_adds ys xs = fold set_add ys xs"

lemma set_set_add [simp]: "set (set_add x xs) = insert x (set xs)"
  by (auto simp: set_add_def)

lemma distinct_set_add [simp]: "distinct (set_add x xs) = distinct xs"
  by (simp add: set_add_def)

lemma set_set_adds [simp]: "set (set_adds ys xs) = set ys \<union> set xs"
  unfolding set_adds_def by (induction ys arbitrary: xs) auto

lemma distinct_set_adds [simp]: "distinct (set_adds ys xs) = distinct xs"
  unfolding set_adds_def by (induction ys arbitrary: xs) auto

lemma set_adds_simps [simp]:
  "set_adds [] xs = xs" "set_adds (y # ys) xs = set_adds ys (set_add y xs)"
  by (simp_all add: set_adds_def)

lemma set_adds_append: "set_adds (ys @ zs) xs = set_adds zs (set_adds ys xs)"
  by (simp add: set_adds_def)

lemma length_set_adds: "length (set_adds ys []) = card (set ys)"
  by (metis distinct.simps(1) distinct_card distinct_set_adds list.set(1) set_set_adds sup_bot_right)

section \<open>Counting with a filter\<close>

lemma length_filter_pos: "0 < length (filter P xs) \<longleftrightarrow> (\<exists>x \<in> set xs. P x)"
  by (simp add: filter_empty_conv)

lemma length_filter_mono: "(\<And>x. x \<in> set xs \<Longrightarrow> P x \<Longrightarrow> Q x) \<Longrightarrow>
    length (filter P xs) \<le> length (filter Q xs)"
  by (induction xs) (auto simp: le_SucI)

lemma length_filter_update: "i < length xs \<Longrightarrow>
    length (filter P (xs[i := y])) + (if P (xs ! i) then 1 else 0) =
    length (filter P xs) + (if P y then 1 else 0)"
proof (induction xs arbitrary: i)
  case (Cons x xs)
  then show ?case by (cases i) auto
qed simp

end
