(* ===== verification/JsNumber.thy ===== *)
theory JsNumber
  imports Prelude
begin

text \<open>
  The numbers of the program. A JavaScript \<open>number\<close> is an IEEE-754 double, and every
  finite double is a rational, so the carrier is \<^typ>\<open>rat\<close>; what makes it a double is
  that every arithmetic operator of the source is the exact operation followed by
  \<open>fl\<close>, the rounding to nearest with ties to even at 53 bits of precision (with the
  gradual underflow at \<open>2 powi -1074\<close>). Decimal literals such as \<open>0.18\<close> are
  \<open>fl (18/100)\<close>. Comparisons, \<open>Math.max\<close>, \<open>Math.min\<close>, \<open>Math.floor\<close>,
  \<open>Math.ceil\<close> and \<open>Math.round\<close> are exact on doubles.

  Outside the carrier: the overflow above \<open>2 powi 1024\<close>, and NaN and the infinities, which
  only a division by zero could produce here. A divisor \<open>b\<close> of \<open>fdiv a b\<close> below is a constant
  other than zero, or the code guards it, or an invariant or the browser keeps it from
  zero (the device pixel ratio, the width of the element that a wheel event was sent to);
  where none of these holds, the quotient is an extended number, \<open>xdiv a b\<close>.

  The locale \<open>rounding_mode\<close> is what the components rely on: a monotone, idempotent, odd
  map. Its interpretation on \<open>fl\<close> is \<open>f64\<close>.
\<close>

type_synonym number = rat

section \<open>Rounding to a double\<close>

text \<open>The number of binary digits, and the exponent of the leading one.\<close>

fun bits :: "nat \<Rightarrow> nat" where
  "bits n = (if n = 0 then 0 else Suc (bits (n div 2)))"

declare bits.simps [simp del]

definition flog2 :: "rat \<Rightarrow> int" where
  "flog2 x = (if 1 \<le> x then int (bits (nat \<lfloor>x\<rfloor>)) - 1
              else - int (bits (nat (\<lceil>1 / x\<rceil> - 1))))"

text \<open>Round to the nearest integer, ties to the even one.\<close>

definition round_even :: "rat \<Rightarrow> int" where
  "round_even x =
     (let f = \<lfloor>x\<rfloor>; d = x - of_int f
      in if d < 1/2 then f else if 1/2 < d then f + 1 else if even f then f else f + 1)"

text \<open>The exponent of the last place of the significand: 52 below the leading bit.\<close>

definition quantum :: "rat \<Rightarrow> int" where
  "quantum x = max (flog2 \<bar>x\<bar> - 52) (-1074)"

definition fl :: "rat \<Rightarrow> rat" where
  "fl x = (if x = 0 then 0
           else of_int (round_even (x / 2 powi quantum x)) * 2 powi quantum x)"

section \<open>The operators and the Math functions of the source\<close>

definition is_double :: "number \<Rightarrow> bool" where
  "is_double x \<longleftrightarrow> fl x = x"

definition fadd :: "number \<Rightarrow> number \<Rightarrow> number" where
  "fadd a b = fl (a + b)"

definition fsub :: "number \<Rightarrow> number \<Rightarrow> number" where
  "fsub a b = fl (a - b)"

definition fmul :: "number \<Rightarrow> number \<Rightarrow> number" where
  "fmul a b = fl (a * b)"

definition fdiv :: "number \<Rightarrow> number \<Rightarrow> number" where
  "fdiv a b = fl (a / b)"

text \<open>
  Extended numbers, for a quotient whose divisor can be zero (the zero of a length, which has no
  sign), with the operations that such a quotient goes through: the negation, the product and the sum with a
  finite number, and \<open>Math.max(lo, Math.min(hi, x))\<close> with finite limits, in which \<open>None\<close> is NaN.
\<close>

datatype xnumber = Fin number | PosInf | NegInf | NaN

definition xdiv :: "number \<Rightarrow> number \<Rightarrow> xnumber" where
  "xdiv a b = (if b \<noteq> 0 then Fin (fl (a / b)) else if a = 0 then NaN else if a > 0 then PosInf else NegInf)"

fun xneg :: "xnumber \<Rightarrow> xnumber" where
  "xneg (Fin a) = Fin (- a)"
| "xneg PosInf = NegInf"
| "xneg NegInf = PosInf"
| "xneg NaN = NaN"

fun xmul :: "xnumber \<Rightarrow> number \<Rightarrow> xnumber" where
  "xmul (Fin a) b = Fin (fl (a * b))"
| "xmul PosInf b = (if b = 0 then NaN else if b > 0 then PosInf else NegInf)"
| "xmul NegInf b = (if b = 0 then NaN else if b > 0 then NegInf else PosInf)"
| "xmul NaN b = NaN"

fun xadd :: "number \<Rightarrow> xnumber \<Rightarrow> xnumber" where
  "xadd a (Fin b) = Fin (fl (a + b))"
| "xadd a x = x"

fun xclamp :: "xnumber \<Rightarrow> number \<Rightarrow> number \<Rightarrow> number option" where
  "xclamp (Fin v) lo hi = Some (max lo (min hi v))"
| "xclamp PosInf lo hi = Some (max lo hi)"
| "xclamp NegInf lo hi = Some lo"
| "xclamp NaN lo hi = None"

text \<open>\<open>Math.round\<close> rounds to the nearest integer, ties upwards.\<close>

definition math_round :: "number \<Rightarrow> int" where
  "math_round x = \<lfloor>x + 1/2\<rfloor>"

text \<open>\<open>xs.reduce((s, v) => s + f(v), 0)\<close>: a left fold, rounding at every step.\<close>

definition fsum :: "('a \<Rightarrow> number) \<Rightarrow> 'a list \<Rightarrow> number" where
  "fsum f xs = foldl (\<lambda>s v. fadd s (f v)) 0 xs"

section \<open>Exponent and rounding lemmas\<close>

lemma bits_bounds: "0 < n \<Longrightarrow> 2 ^ (bits n - 1) \<le> n \<and> n < 2 ^ bits n"
proof (induction n rule: bits.induct)
  case (1 n)
  have e: "bits n = Suc (bits (n div 2))" using 1 by (simp add: bits.simps[of n])
  show ?case
  proof (cases "n div 2 = 0")
    case True
    hence "n = 1" using 1 by simp
    thus ?thesis by (simp add: bits.simps)
  next
    case False
    with 1 have ih: "2 ^ (bits (n div 2) - 1) \<le> n div 2" "n div 2 < 2 ^ bits (n div 2)" by auto
    have "bits (n div 2) \<noteq> 0" using False by (simp add: bits.simps[of "n div 2"])
    then obtain k where k: "bits (n div 2) = Suc k" by (cases "bits (n div 2)") auto
    show ?thesis using ih unfolding e k by (simp) linarith
  qed
qed

lemma bits_nonzero: "0 < n \<Longrightarrow> 0 < bits n"
  by (simp add: bits.simps[of n])

lemma pow2_pos [simp]: "0 < (2::rat) powi k"
  by simp

lemma pow2_mono: "a \<le> b \<Longrightarrow> (2::rat) powi a \<le> 2 powi b"
  by (rule power_int_increasing) auto

lemma pow2_less: "(2::rat) powi a < 2 powi b \<longleftrightarrow> a < b"
  by (metis linorder_not_less one_less_numeral_iff pow2_mono power_int_strict_increasing semiring_norm(76))

lemma pow2_le: "(2::rat) powi a \<le> 2 powi b \<longleftrightarrow> a \<le> b"
  by (metis linorder_not_less pow2_less)

lemma pow2_int: "0 \<le> k \<Longrightarrow> (2::rat) powi k = of_int (2 ^ nat k)"
  by (simp add: power_int_def)

lemma flog2_ge1: 
  assumes "1 \<le> x" 
  shows "2 powi flog2 x \<le> x \<and> x < 2 powi (flog2 x + 1)"
proof -
  let ?n = "nat \<lfloor>x\<rfloor>"
  have n: "0 < ?n" using assms by simp
  have fn: "of_nat ?n = (of_int \<lfloor>x\<rfloor> :: rat)" using assms by simp
  have b: "2 ^ (bits ?n - 1) \<le> ?n" "?n < 2 ^ bits ?n" using bits_bounds [OF n] by auto
  have k: "0 < bits ?n" using bits_nonzero [OF n] .
  have e: "flog2 x = int (bits ?n - 1)" "flog2 x + 1 = int (bits ?n)"
    using assms k by (simp_all add: flog2_def)
  have "(2::rat) ^ (bits ?n - 1) \<le> of_nat ?n" using b(1) by (metis of_nat_le_iff of_nat_numeral of_nat_power)
  moreover have "of_nat (?n + 1) \<le> (2::rat) ^ bits ?n" 
    using b(2) by (metis Suc_eq_plus1 Suc_leI of_nat_le_iff of_nat_numeral of_nat_power)
  moreover have "of_int \<lfloor>x\<rfloor> \<le> x" "x < of_int \<lfloor>x\<rfloor> + 1" by linarith+
  ultimately have "2 ^ (bits ?n - 1) \<le> x \<and> x < 2 ^ bits ?n"
    using fn by (simp only: of_nat_add of_nat_1) linarith
  then show ?thesis unfolding e(2) unfolding e(1) power_int_of_nat .
qed

lemma flog2_lt1: 
  assumes "0 < x" "x < 1" 
  shows "2 powi flog2 x \<le> x \<and> x < 2 powi (flog2 x + 1)"
proof -
  let ?n = "nat (\<lceil>1 / x\<rceil> - 1)"
  have inv: "1 < 1 / x" using assms by simp
  have c: "1 / x \<le> of_int \<lceil>1 / x\<rceil>" "of_int \<lceil>1 / x\<rceil> - 1 < 1 / x" by linarith+
  have two: "2 \<le> \<lceil>1 / x\<rceil>" using inv by linarith
  have n: "0 < ?n" using two by simp
  have fn: "of_nat ?n = (of_int (\<lceil>1 / x\<rceil> - 1) :: rat)" by (rule of_nat_nat) (use two in linarith)
  have b: "2 ^ (bits ?n - 1) \<le> ?n" "?n < 2 ^ bits ?n" using bits_bounds [OF n] by auto
  have k: "0 < bits ?n" using bits_nonzero [OF n] .
  have e: "flog2 x = - int (bits ?n)" "flog2 x + 1 = - int (bits ?n - 1)"
    using assms k by (simp_all add: flog2_def)
  have lo: "1 / x \<le> (2::rat) ^ bits ?n"
  proof -
    have "of_nat (?n + 1) \<le> (2::rat) ^ bits ?n" 
      using b(2) by (metis Suc_eq_plus1 Suc_leI of_nat_le_iff of_nat_numeral of_nat_power)
    moreover have "of_nat (?n + 1) = (of_int \<lceil>1 / x\<rceil> :: rat)" using fn by simp
    ultimately show ?thesis using c(1) by linarith
  qed
  have hi: "(2::rat) ^ (bits ?n - 1) < 1 / x"
  proof -
    have "(2::rat) ^ (bits ?n - 1) \<le> of_nat ?n" using b(1) by (metis of_nat_le_iff of_nat_numeral of_nat_power)
    thus ?thesis using c fn by linarith
  qed
  show ?thesis unfolding e(2) unfolding e(1) power_int_minus power_int_of_nat
    using lo hi assms by (simp add: field_simps)
qed

lemma flog2_bounds: 
  "0 < x \<Longrightarrow> 2 powi flog2 x \<le> x" 
  "0 < x \<Longrightarrow> x < 2 powi (flog2 x + 1)"
  using flog2_ge1 [of x] flog2_lt1 [of x] by (cases "1 \<le> x"; simp)+

lemma flog2_unique: "0 < x \<Longrightarrow> 2 powi e \<le> x \<Longrightarrow> x < 2 powi (e + 1) \<Longrightarrow> flog2 x = e"
  using flog2_bounds [of x] pow2_less [of e "flog2 x + 1"] pow2_less [of "flog2 x" "e + 1"] by linarith

lemma flog2_mono: "0 < x \<Longrightarrow> x \<le> y \<Longrightarrow> flog2 x \<le> flog2 y"
  using flog2_bounds [of x] flog2_bounds [of y] pow2_less [of "flog2 x" "flog2 y + 1"] by linarith

section \<open>Rounding is monotone, idempotent and odd\<close>

lemma round_even_int [simp]: "round_even (of_int n) = n"
  by (simp add: round_even_def)

lemma round_even_near: "\<bar>of_int (round_even x) - x\<bar> \<le> 1/2"
proof -
  have "(round_even x = \<lfloor>x\<rfloor> \<and> x - of_int \<lfloor>x\<rfloor> \<le> 1/2)
      \<or> (round_even x = \<lfloor>x\<rfloor> + 1 \<and> 1/2 \<le> x - of_int \<lfloor>x\<rfloor>)"
    by (simp add: round_even_def Let_def)
  moreover have "0 \<le> x - of_int \<lfloor>x\<rfloor>" "x - of_int \<lfloor>x\<rfloor> < 1" by linarith+
  ultimately show ?thesis by auto
qed

lemma round_even_cases: "round_even x = \<lfloor>x\<rfloor> \<or> round_even x = \<lfloor>x\<rfloor> + 1"
  by (simp add: round_even_def Let_def)

lemma round_even_mono:
  assumes "x \<le> y" shows "round_even x \<le> round_even y"
proof (cases "\<lfloor>x\<rfloor> = \<lfloor>y\<rfloor>")
  case True
  with assms show ?thesis by (auto simp: round_even_def Let_def)
next
  case False
  with floor_mono [OF assms] have "\<lfloor>x\<rfloor> + 1 \<le> \<lfloor>y\<rfloor>" by simp
  with round_even_cases [of x] round_even_cases [of y] show ?thesis by linarith
qed

lemma round_even_minus: "round_even (- x) = - round_even x"
proof (cases "x = of_int \<lfloor>x\<rfloor>")
  case True
  then show ?thesis by (metis of_int_minus round_even_int)
next
  case False
  have l: "of_int \<lfloor>x\<rfloor> < x" using False by linarith
  have u: "x < of_int \<lfloor>x\<rfloor> + 1" by linarith
  have "\<lfloor>- x\<rfloor> = - \<lfloor>x\<rfloor> - 1" by (rule floor_unique) (use l u in simp_all)
  then show ?thesis using l u by (auto simp: round_even_def Let_def)
qed

lemma fl_0 [simp]: "fl 0 = 0"
  by (simp add: fl_def)

lemma fl_minus: "fl (- x) = - fl x"
  by (simp add: fl_def quantum_def round_even_minus)

lemma quantum_ge: "-1074 \<le> quantum x" "flog2 \<bar>x\<bar> - 52 \<le> quantum x"
  by (simp_all add: quantum_def)

lemma fl_grid_le:
  assumes "x \<noteq> 0" "x \<le> of_int m * 2 powi k" "quantum x \<le> k"
  shows "fl x \<le> of_int m * 2 powi k"
proof -
  let ?q = "quantum x"
  have d: "(2::rat) powi k = of_int (2 ^ nat (k - ?q)) * 2 powi ?q"
    using assms(3) pow2_int [of "k - ?q"] by (simp add: power_int_diff field_simps)
  let ?n = "m * 2 ^ nat (k - ?q)"
  have "x / 2 powi ?q \<le> of_int ?n" using assms(2) by (simp add: d field_simps)
  hence "round_even (x / 2 powi ?q) \<le> ?n" by (metis round_even_int round_even_mono)
  hence "of_int (round_even (x / 2 powi ?q)) \<le> (of_int ?n :: rat)" by (simp only: of_int_le_iff)
  hence "of_int (round_even (x / 2 powi ?q)) * 2 powi ?q \<le> (of_int ?n * 2 powi ?q :: rat)"
    by (rule mult_right_mono) simp
  thus ?thesis using assms(1) by (simp add: fl_def d mult.assoc)
qed

lemma fl_grid_ge:
  assumes "x \<noteq> 0" "of_int m * 2 powi k \<le> x" "quantum x \<le> k"
  shows "of_int m * 2 powi k \<le> fl x"
  using fl_grid_le [of "- x" "- m" k] assms by (simp add: fl_minus quantum_def)

lemma fl_exact:
  assumes "\<bar>m\<bar> \<le> 2 ^ 53" "-1074 \<le> k"
  shows "fl (of_int m * 2 powi k) = of_int m * 2 powi k"
proof (cases "m = 0")
  case True
  then show ?thesis by simp
next
  case False
  let ?x = "of_int m * 2 powi k :: rat"
  let ?e = "flog2 \<bar>?x\<bar>"
  have x0: "?x \<noteq> 0" using False by simp
  have "\<bar>?x\<bar> = of_int \<bar>m\<bar> * 2 powi k" by (simp add: abs_mult)
  also have "\<dots> \<le> of_int (2 ^ 53) * 2 powi k"
    by (rule mult_right_mono) (use assms(1) in \<open>simp_all only: of_int_le_iff\<close>, simp)
  also have "\<dots> = 2 powi (k + 53)" by (simp add: power_int_add)
  finally have ub: "\<bar>?x\<bar> \<le> 2 powi (k + 53)" .
  have lb: "2 powi ?e \<le> \<bar>?x\<bar>" using flog2_bounds(1) [of "\<bar>?x\<bar>"] x0 by simp
  have e: "?e \<le> k + 53" using ub lb pow2_le by (meson order_trans)
  show ?thesis
  proof (cases "?e = k + 53")
    case True
    hence "\<bar>?x\<bar> = 2 powi (k + 53)" using ub lb by simp
    hence "?x = 2 powi (k + 53) \<or> ?x = - (2 powi (k + 53))" by linarith
    moreover have "quantum ?x \<le> k + 53" using True assms(2) by (simp add: quantum_def)
    ultimately show ?thesis
      using fl_grid_le [OF x0, of 1 "k + 53"] fl_grid_ge [OF x0, of 1 "k + 53"]
        fl_grid_le [OF x0, of "-1" "k + 53"] fl_grid_ge [OF x0, of "-1" "k + 53"] by auto
  next
    case False
    hence "quantum ?x \<le> k" using e assms(2) by (simp add: quantum_def)
    thus ?thesis using fl_grid_le [OF x0, of m k] fl_grid_ge [OF x0, of m k] by auto
  qed
qed

lemma fl_of_int: "\<bar>n\<bar> \<le> 2 ^ 53 \<Longrightarrow> fl (of_int n) = of_int n"
  using fl_exact [of n 0] by simp

lemma fl_nonneg_mono:
  assumes "0 < x" "x \<le> y" shows "fl x \<le> fl y"
proof (cases "quantum x = quantum y")
  case True
  have "x / 2 powi quantum y \<le> y / 2 powi quantum y"
    using assms(2) by (simp add: divide_right_mono)
  hence "round_even (x / 2 powi quantum y) \<le> round_even (y / 2 powi quantum y)"
    by (rule round_even_mono)
  thus ?thesis using assms True by (simp add: fl_def)
next
  case False
  have e: "flog2 x \<le> flog2 y" using assms by (rule flog2_mono)
  hence lt: "flog2 x < flog2 y" "quantum x \<le> flog2 y" "quantum y \<le> flog2 y"
    using False assms by (auto simp: quantum_def max_def split: if_splits)
  have y: "0 < y" using assms by simp
  have "x \<le> of_int 1 * 2 powi flog2 y"
    using flog2_bounds(2) [OF assms(1)] pow2_mono [of "flog2 x + 1" "flog2 y"] lt by simp
  hence "fl x \<le> of_int 1 * 2 powi flog2 y" using fl_grid_le [of x 1 "flog2 y"] assms lt by simp
  also have "\<dots> \<le> fl y" using fl_grid_ge [of y 1 "flog2 y"] flog2_bounds(1) [OF y] y lt by simp
  finally show ?thesis .
qed

lemma fl_pos_nonneg: "0 < x \<Longrightarrow> 0 \<le> fl x"
  using fl_grid_ge [of x 0 "quantum x"] by simp

lemma fl_mono: 
  assumes "x \<le> y" shows "fl x \<le> fl y"
proof -
  consider "0 < x" | "y < 0" | "x \<le> 0" "0 \<le> y" by linarith
  then show ?thesis
  proof cases
    case 1 then show ?thesis using assms by (rule fl_nonneg_mono)
  next
    case 2 then show ?thesis using fl_nonneg_mono [of "- y" "- x"] assms by (simp add: fl_minus)
  next
    case 3
    then have "fl x \<le> 0" using fl_pos_nonneg [of "- x"] by (cases "x = 0") (simp_all add: fl_minus)
    moreover have "0 \<le> fl y" using 3 fl_pos_nonneg [of y] by (cases "y = 0") simp_all
    ultimately show ?thesis by simp
  qed
qed

lemma fl_form: "\<exists>m k. fl x = of_int m * 2 powi k \<and> \<bar>m\<bar> \<le> 2 ^ 53 \<and> -1074 \<le> k"
proof (cases "x = 0")
  case True
  then show ?thesis by (intro exI [of _ 0]) auto
next
  case False
  let ?q = "quantum x"
  let ?m = "round_even (x / 2 powi ?q)"
  have "\<bar>x\<bar> \<le> 2 powi (flog2 \<bar>x\<bar> + 1)" using flog2_bounds(2) [of "\<bar>x\<bar>"] False by simp
  also have "\<dots> \<le> 2 powi (53 + ?q)" by (rule pow2_mono) (use quantum_ge(2) [of x] in simp)
  also have "\<dots> = of_int (2 ^ 53) * 2 powi ?q" by (simp add: power_int_add)
  finally have b: "\<bar>x\<bar> \<le> of_int (2 ^ 53) * 2 powi ?q" .
  have "x / 2 powi ?q \<le> of_int (2 ^ 53)" using b by (simp add: field_simps)
  hence u: "?m \<le> 2 ^ 53" by (metis round_even_int round_even_mono)
  have "of_int (- (2 ^ 53)) \<le> x / 2 powi ?q" using b by (simp add: field_simps)
  hence l: "- (2 ^ 53) \<le> ?m" by (metis round_even_int round_even_mono)
  from u l False show ?thesis
    by (intro exI [of _ ?m] exI [of _ ?q]) (auto simp: fl_def quantum_ge)
qed

lemma fl_idem [simp]: "fl (fl x) = fl x"
  using fl_form [of x] fl_exact by auto

text \<open>Two different doubles are at least the smallest positive double apart.\<close>

lemma double_grid:
  assumes "is_double a" shows "\<exists>n. a = of_int n * 2 powi (-1074)"
proof -
  obtain m k where a: "a = of_int m * 2 powi k" and k: "-1074 \<le> k"
    using fl_form [of a] assms unfolding is_double_def by auto
  have "(2::rat) powi k = 2 powi (k + 1074) * 2 powi (-1074)"
    using power_int_add [of "2::rat" "k + 1074" "-1074"] by simp
  also have "(2::rat) powi (k + 1074) = of_int (2 ^ nat (k + 1074))" using k by (intro pow2_int) simp
  finally have "a = of_int (m * 2 ^ nat (k + 1074)) * 2 powi (-1074)" unfolding a by simp
  then show ?thesis by blast
qed

lemma double_gap:
  assumes "is_double a" "is_double b" "a < b"
  shows "2 powi (-1074) \<le> b - a"
proof -
  obtain m n where mn: "a = of_int m * 2 powi (-1074)" "b = of_int n * 2 powi (-1074)"
    using double_grid assms by blast
  with assms(3) have "m < n" by simp
  then have "(1::rat) \<le> of_int (n - m)" by simp
  then have "1 * 2 powi (-1074) \<le> of_int (n - m) * (2::rat) powi (-1074)" by (rule mult_right_mono) simp
  then show ?thesis unfolding mn by (simp add: left_diff_distrib)
qed

section \<open>Error bounds\<close>

lemma fl_error: "\<bar>fl x - x\<bar> \<le> 2 powi quantum x / 2"
proof (cases "x = 0")
  case True
  then show ?thesis by simp
next
  case False
  let ?q = "quantum x"
  have "fl x - x = (of_int (round_even (x / 2 powi ?q)) - x / 2 powi ?q) * 2 powi ?q"
    using False by (simp add: fl_def field_simps)
  hence "\<bar>fl x - x\<bar> = \<bar>of_int (round_even (x / 2 powi ?q)) - x / 2 powi ?q\<bar> * 2 powi ?q"
    by (simp add: abs_mult)
  also have "\<dots> \<le> 1/2 * 2 powi ?q" by (rule mult_right_mono [OF round_even_near]) simp
  finally show ?thesis by simp
qed

lemma fl_abs_error:
  assumes "\<bar>x\<bar> < 2 powi k" "-1021 \<le> k"
  shows "\<bar>fl x - x\<bar> \<le> 2 powi (k - 54)"
proof (cases "x = 0")
  case False
  have "2 powi flog2 \<bar>x\<bar> \<le> \<bar>x\<bar>" using False flog2_bounds(1) [of "\<bar>x\<bar>"] by simp
  hence "flog2 \<bar>x\<bar> < k" using assms(1) pow2_less by (meson le_less_trans)
  hence "quantum x \<le> k - 53" using assms(2) by (simp add: quantum_def)
  hence "(2::rat) powi quantum x \<le> 2 powi (k - 53)" by (rule pow2_mono)
  moreover have "(2::rat) powi (k - 53) = 2 * 2 powi (k - 54)"
    using power_int_add [of "2::rat" 1 "k - 54"] by simp
  ultimately show ?thesis using fl_error [of x] by linarith
qed simp

lemma fl_rel_error:
  assumes "2 powi (-1022) \<le> \<bar>x\<bar>"
  shows "\<bar>fl x - x\<bar> \<le> \<bar>x\<bar> * 2 powi (-53)"
proof -
  have x: "0 < \<bar>x\<bar>" using assms pow2_pos [of "-1022"] by linarith
  have b: "2 powi flog2 \<bar>x\<bar> \<le> \<bar>x\<bar>" using flog2_bounds(1) [OF x] .
  have "-1022 \<le> flog2 \<bar>x\<bar>"
  proof -
    have "(2::rat) powi (-1022) < 2 powi (flog2 \<bar>x\<bar> + 1)"
      using assms flog2_bounds(2) [OF x] by linarith
    thus ?thesis unfolding pow2_less by simp
  qed
  hence "quantum x = flog2 \<bar>x\<bar> - 52" by (simp add: quantum_def)
  hence "(2::rat) powi quantum x / 2 = 2 powi flog2 \<bar>x\<bar> * 2 powi (-53)"
    by (simp add: power_int_diff)
  moreover have "2 powi flog2 \<bar>x\<bar> * 2 powi (-53) \<le> \<bar>x\<bar> * 2 powi (-53)"
    by (rule mult_right_mono [OF b]) simp
  ultimately show ?thesis using fl_error [of x] by linarith
qed

section \<open>The interface the components rely on\<close>

locale rounding_mode =
  fixes rnd :: "rat \<Rightarrow> rat"
  assumes rnd_mono: "x \<le> y \<Longrightarrow> rnd x \<le> rnd y"
    and rnd_idem: "rnd (rnd x) = rnd x"
    and rnd_zero: "rnd 0 = 0"
    and rnd_odd: "rnd (- x) = - rnd x"
begin

lemma rnd_le: "rnd b = b \<Longrightarrow> x \<le> b \<Longrightarrow> rnd x \<le> b"
  using rnd_mono [of x b] by simp

lemma le_rnd: "rnd a = a \<Longrightarrow> a \<le> x \<Longrightarrow> a \<le> rnd x"
  using rnd_mono [of a x] by simp

lemma rnd_nonneg: "0 \<le> x \<Longrightarrow> 0 \<le> rnd x"
  by (rule le_rnd [OF rnd_zero])

lemma rnd_nonpos: "x \<le> 0 \<Longrightarrow> rnd x \<le> 0"
  by (rule rnd_le [OF rnd_zero])

text \<open>A factor of at most one never pushes a representable value past itself.\<close>

lemma rnd_scale_le: "rnd d = d \<Longrightarrow> 0 \<le> d \<Longrightarrow> c \<le> 1 \<Longrightarrow> rnd (c * d) \<le> d"
  using rnd_le [of d "c * d"] mult_right_mono [of c 1 d] by simp

lemma rnd_between:
  "rnd a = a \<Longrightarrow> rnd b = b \<Longrightarrow> a \<le> x \<Longrightarrow> x \<le> b \<Longrightarrow> a \<le> rnd x \<and> rnd x \<le> b"
  by (simp add: le_rnd rnd_le)

end

interpretation f64: rounding_mode fl
  by unfold_locales (simp_all add: fl_mono fl_minus)

lemmas [rounding_bounds] = f64.rnd_nonneg f64.rnd_nonpos f64.rnd_le f64.le_rnd

lemma fl_of_nat: "n \<le> 2 ^ 53 \<Longrightarrow> fl (of_nat n) = of_nat n"
  using fl_of_int [of "int n"] by simp

lemma fl_numeral [simp]: "(numeral k :: int) \<le> 2 ^ 53 \<Longrightarrow> fl (numeral k) = numeral k"
  using fl_of_int [of "numeral k"] by simp

lemma fl_1 [simp]: "fl 1 = 1"
  using fl_of_int [of 1] by simp

lemma is_double_fl [simp]: "is_double (fl x)"
  by (simp add: is_double_def)

lemma is_double_0 [simp]: "is_double 0"
  by (simp add: is_double_def)

lemma is_double_numeral [simp]: "(numeral k :: int) \<le> 2 ^ 53 \<Longrightarrow> is_double (numeral k)"
  by (simp add: is_double_def)

lemma is_double_1 [simp]: "is_double 1"
  by (simp add: is_double_def)

lemma is_double_op [simp]:
  "is_double (fadd a b)" "is_double (fsub a b)" "is_double (fmul a b)" "is_double (fdiv a b)"
  by (simp_all add: fadd_def fsub_def fmul_def fdiv_def)

lemmas fops = fadd_def fsub_def fmul_def fdiv_def

lemma fadd_nonneg: "0 \<le> a \<Longrightarrow> 0 \<le> b \<Longrightarrow> 0 \<le> fadd a b"
  by (simp add: fadd_def f64.rnd_nonneg)

lemma fdiv_nonneg: "0 \<le> a \<Longrightarrow> 0 \<le> b \<Longrightarrow> 0 \<le> fdiv a b"
  by (simp add: fdiv_def f64.rnd_nonneg)

lemma fmul_nonneg: "0 \<le> a \<Longrightarrow> 0 \<le> b \<Longrightarrow> 0 \<le> fmul a b"
  by (simp add: fmul_def f64.rnd_nonneg)

lemma fl_pos: "2 powi (-1074) \<le> x \<Longrightarrow> 0 < fl x"
  using fl_mono [of "2 powi (-1074)" x] fl_exact [of 1 "-1074"] pow2_pos [of "-1074"] by simp

lemma fl_pos_int: "1 \<le> x \<Longrightarrow> 1 \<le> fl x"
  by (rule f64.le_rnd) simp_all

lemma fsum_nonneg:
  assumes "\<And>x. x \<in> set xs \<Longrightarrow> 0 \<le> f x"
  shows "0 \<le> fsum f xs"
proof -
  have "0 \<le> s \<Longrightarrow> \<forall>x \<in> set xs. 0 \<le> f x \<Longrightarrow> 0 \<le> foldl (\<lambda>s v. fadd s (f v)) s xs" for s
    by (induction xs arbitrary: s) (auto simp: fadd_nonneg)
  with assms show ?thesis by (simp add: fsum_def)
qed

lemma fsum_mono:
  assumes "\<And>x. x \<in> set xs \<Longrightarrow> f x \<le> g x"
  shows "fsum f xs \<le> fsum g xs"
proof -
  have "a \<le> b \<Longrightarrow> \<forall>x \<in> set xs. f x \<le> g x \<Longrightarrow>
      foldl (\<lambda>s v. fadd s (f v)) a xs \<le> foldl (\<lambda>s v. fadd s (g v)) b xs" for a b
  proof (induction xs arbitrary: a b)
    case (Cons x xs)
    then have "fadd a (f x) \<le> fadd b (g x)" unfolding fadd_def by (intro fl_mono add_mono) simp_all
    with Cons show ?case by simp
  qed simp
  from this [of 0 0] assms show ?thesis by (simp add: fsum_def)
qed

text \<open>While the running total is an integer below \<open>2^53\<close>, a sum of integers is exact.\<close>

lemma fsum_integers:
  assumes "\<And>x. x \<in> set xs \<Longrightarrow> f x = of_nat (g x)" "sum_list (map g xs) \<le> 2 ^ 53"
  shows "fsum f xs = of_nat (sum_list (map g xs))"
proof -
  have "k + sum_list (map g xs) \<le> 2 ^ 53 \<Longrightarrow> \<forall>x \<in> set xs. f x = of_nat (g x) \<Longrightarrow>
      foldl (\<lambda>s v. fadd s (f v)) (of_nat k) xs = of_nat (k + sum_list (map g xs))" for k
  proof (induction xs arbitrary: k)
    case (Cons x xs)
    have "fadd (of_nat k) (f x) = of_nat (k + g x)"
      using Cons.prems fl_of_nat [of "k + g x"] by (simp add: fadd_def)
    with Cons.IH [of "k + g x"] Cons.prems show ?case by (simp add: add.assoc)
  qed simp
  from this [of 0] assms show ?thesis by (simp add: fsum_def)
qed

lemma math_round_near: "\<bar>of_int (math_round x) - x\<bar> \<le> 1/2"
  unfolding math_round_def by linarith

lemma math_round_int [simp]: "math_round (of_int n) = n"
  unfolding math_round_def by (simp add: floor_unique)

text \<open>
  The floor of a rounded quotient of integers is the integer quotient: below \<open>2^53\<close> the
  rounding error is less than the distance to the next integer.
\<close>

lemma floor_fdiv:
  assumes "\<bar>n\<bar> < 2 ^ 53" "0 < d" "d \<le> 2 ^ 53"
  shows "\<lfloor>fdiv (of_int n) (of_int d)\<rfloor> = n div d"
proof (rule floor_unique)
  let ?x = "of_int n / of_int d :: rat"
  have d: "(0::rat) < of_int d" "(1::rat) \<le> of_int d" using assms(2) by simp_all
  have ab: "\<bar>n div d\<bar> \<le> 2 ^ 53"
  proof (cases "0 \<le> n")
    case True
    then have "0 \<le> n div d" "n div d \<le> n div 1"
      using assms(2) zdiv_mono2 [of n 1 d] by (simp_all add: pos_imp_zdiv_nonneg_iff)
    with assms(1) show ?thesis by simp
  next
    case False
    then have "n div d < 0" "n div 1 \<le> n div d"
      using assms(2) zdiv_mono2_neg [of n 1 d] by (simp_all add: pos_imp_zdiv_neg_iff)
    with assms(1) show ?thesis by simp
  qed
  have lo: "of_int (n div d) \<le> ?x"
  proof -
    have "n div d * d \<le> n" using assms(2) by (simp add: minus_mod_eq_div_mult [symmetric])
    then have "(of_int (n div d * d) :: rat) \<le> of_int n" by (simp only: of_int_le_iff)
    then show ?thesis using d(1) by (simp add: pos_le_divide_eq)
  qed
  show "of_int (n div d) \<le> fdiv (of_int n) (of_int d)"
    unfolding fdiv_def by (rule f64.le_rnd [OF fl_of_int [OF ab] lo])
  have hi: "?x \<le> of_int (n div d) + 1 - 1 / of_int d"
  proof -
    have "n \<le> d * (n div d) + (d - 1)"
      using assms(2) mult_div_mod_eq [of d n] pos_mod_bound [of d n] by linarith
    then have "(of_int n :: rat) \<le> of_int (d * (n div d) + (d - 1))" by (simp only: of_int_le_iff)
    then show ?thesis using d(1) by (simp add: field_simps)
  qed
  show "fdiv (of_int n) (of_int d) < of_int (n div d) + 1"
  proof (cases "n = 0")
    case True
    then show ?thesis by (simp add: fdiv_def)
  next
    case False
    have "\<bar>fl ?x - ?x\<bar> \<le> \<bar>?x\<bar> * 2 powi (-53)"
    proof (rule fl_rel_error)
      have "(2::rat) powi (-1022) \<le> 2 powi (-53)" by (rule pow2_mono) simp
      also have "\<dots> \<le> 1 / of_int d"
      proof -
        have "(of_int d :: rat) \<le> of_int (2 ^ 53)" using assms(3) by (simp only: of_int_le_iff)
        then show ?thesis using d(1) by (simp add: power_int_def field_simps)
      qed
      also have "\<dots> \<le> \<bar>?x\<bar>"
      proof -
        have "1 \<le> \<bar>n\<bar>" using False by simp
        then have "(1::rat) \<le> of_int \<bar>n\<bar>" by simp
        then show ?thesis using d(1) by (simp add: divide_right_mono)
      qed
      finally show "2 powi (-1022) \<le> \<bar>?x\<bar>" .
    qed
    also have "\<dots> < 1 / of_int d"
    proof -
      have "(of_int \<bar>n\<bar> :: rat) < of_int (2 ^ 53)" using assms(1) by (simp only: of_int_less_iff)
      then show ?thesis using d(1) by (simp add: power_int_def field_simps)
    qed
    finally show ?thesis unfolding fdiv_def using hi by linarith
  qed
qed

end
