(* ===== verification/JsString.thy ===== *)
theory JsString
  imports JsNumber "HOL-Library.Char_ord" "HOL-Library.List_Lexorder"
begin

text \<open>
  Strings and the number formatting the components use. A string is the list of the
  bytes of its UTF-8 encoding, so the arrow of a connection key is three characters and
  the micro sign two; concatenation, equality, \<open>startsWith\<close> and \<open>endsWith\<close> agree with
  JavaScript's on well-formed text, and the byte order used by \<open>sort()\<close> is the code point
  order (which differs from UTF-16 order only between surrogates and the last private
  block). \<open>toFixed\<close> is the algorithm of the ECMAScript standard for values below
  \<open>10^21\<close>.
\<close>

section \<open>Digits and integers\<close>

definition digit_char :: "nat \<Rightarrow> char" where
  "digit_char d = char_of (48 + d)"

definition char_digit :: "char \<Rightarrow> nat" where
  "char_digit c = of_char c - 48"

fun show_nat :: "nat \<Rightarrow> string" where
  "show_nat n = (if n < 10 then [digit_char n] else show_nat (n div 10) @ [digit_char (n mod 10)])"

declare show_nat.simps [simp del]

definition show_int :: "int \<Rightarrow> string" where
  "show_int i = (if i < 0 then ''-'' @ show_nat (nat (- i)) else show_nat (nat i))"

definition read_nat :: "string \<Rightarrow> nat" where
  "read_nat s = foldl (\<lambda>n c. 10 * n + char_digit c) 0 s"

definition is_digit :: "char \<Rightarrow> bool" where
  "is_digit c \<longleftrightarrow> 48 \<le> (of_char c :: nat) \<and> (of_char c :: nat) \<le> 57"

section \<open>toFixed\<close>

text \<open>The integer \<open>n\<close> for which \<open>n / 10^f\<close> is closest to \<open>x\<close>, the larger of two.\<close>

definition fixed_units :: "nat \<Rightarrow> number \<Rightarrow> nat" where
  "fixed_units f x = nat \<lfloor>x * 10 ^ f + 1/2\<rfloor>"

text \<open>Insert the point: pad with zeros to more than \<open>f\<close> digits, cut before the last \<open>f\<close>.\<close>

definition point_digits :: "nat \<Rightarrow> nat \<Rightarrow> string" where
  "point_digits f n =
     (if f = 0 then show_nat n
      else let m = show_nat n;
               z = (if length m \<le> f then replicate (f + 1 - length m) CHR ''0'' @ m else m)
           in take (length z - f) z @ ''.'' @ drop (length z - f) z)"

definition toFixed :: "nat \<Rightarrow> number \<Rightarrow> string" where
  "toFixed f x = (if x < 0 then ''-'' @ point_digits f (fixed_units f (- x))
                  else point_digits f (fixed_units f x))"

text \<open>Reading such a decimal back, to state what a printed number says.\<close>

definition read_point :: "string \<Rightarrow> number" where
  "read_point s =
     (let i = takeWhile (\<lambda>c. c \<noteq> CHR ''.'') s; d = tl (dropWhile (\<lambda>c. c \<noteq> CHR ''.'') s)
      in of_nat (read_nat (i @ d)) / 10 ^ length d)"

section \<open>startsWith, endsWith, join\<close>

definition startsWith :: "string \<Rightarrow> string \<Rightarrow> bool" where
  "startsWith s p \<longleftrightarrow> prefix p s"

definition endsWith :: "string \<Rightarrow> string \<Rightarrow> bool" where
  "endsWith s p \<longleftrightarrow> suffix p s"

fun join :: "string \<Rightarrow> string list \<Rightarrow> string" where
  "join sep [] = []"
| "join sep [x] = x"
| "join sep (x # y # xs) = x @ sep @ join sep (y # xs)"

text \<open>The three bytes of U+2192 and the two of U+00B5.\<close>

definition arrow :: string where
  "arrow = [CHR 0xE2, CHR 0x86, CHR 0x92]"

definition micro :: string where
  "micro = [CHR 0xC2, CHR 0xB5]"

section \<open>Printing is injective and reads back\<close>

lemma digit_chars [simp]:
  "digit_char 0 = CHR ''0''" "digit_char 1 = CHR ''1''" "digit_char (Suc 0) = CHR ''1''"
  "digit_char 2 = CHR ''2''" "digit_char 3 = CHR ''3''" "digit_char 4 = CHR ''4''"
  "digit_char 5 = CHR ''5''" "digit_char 6 = CHR ''6''" "digit_char 7 = CHR ''7''"
  "digit_char 8 = CHR ''8''" "digit_char 9 = CHR ''9''"
  by code_simp+

lemma char_digit_digit_char [simp]: "d < 10 \<Longrightarrow> char_digit (digit_char d) = d"
  by (simp add: char_digit_def digit_char_def)

lemma is_digit_digit_char [simp]: "d < 10 \<Longrightarrow> is_digit (digit_char d)"
  by (simp add: is_digit_def digit_char_def)

lemma read_nat_snoc [simp]: "read_nat (s @ [c]) = 10 * read_nat s + char_digit c"
  by (simp add: read_nat_def)

lemma read_nat_Nil [simp]: "read_nat [] = 0"
  by (simp add: read_nat_def)

lemma read_show_nat [simp]: "read_nat (show_nat n) = n"
proof (induction n rule: show_nat.induct)
  case (1 n)
  show ?case
  proof (cases "n < 10")
    case True
    then have "show_nat n = [] @ [digit_char n]" by (simp add: show_nat.simps [of n])
    with True show ?thesis by (simp del: append_Nil)
  next
    case False
    with 1 show ?thesis by (simp add: show_nat.simps [of n])
  qed
qed

lemma show_nat_digits: "c \<in> set (show_nat n) \<Longrightarrow> is_digit c"
proof (induction n arbitrary: c rule: show_nat.induct)
  case (1 n)
  then show ?case by (cases "n < 10") (auto simp: show_nat.simps [of n])
qed

lemma show_nat_nonempty [simp]: "show_nat n \<noteq> []"
  by (simp add: show_nat.simps [of n])

lemma show_nat_inj: "show_nat m = show_nat n \<longleftrightarrow> m = n"
  by (metis read_show_nat)

lemma read_nat_zeros: "read_nat (replicate k CHR ''0'' @ s) = read_nat s"
  by (induction k) (simp_all add: read_nat_def char_digit_def)

lemma digit_not_point: "is_digit c \<Longrightarrow> c \<noteq> CHR ''.''"
  by (auto simp: is_digit_def)

lemma takeWhile_no_point: "\<forall>c \<in> set s. is_digit c \<Longrightarrow> takeWhile (\<lambda>c. c \<noteq> CHR ''.'') (s @ ''.'' @ t) = s"
  by (induction s) (auto simp: digit_not_point)

lemma dropWhile_no_point: "\<forall>c \<in> set s. is_digit c \<Longrightarrow> dropWhile (\<lambda>c. c \<noteq> CHR ''.'') (s @ ''.'' @ t) = ''.'' @ t"
  by (induction s) (auto simp: digit_not_point)

lemma read_point_whole: "\<forall>c \<in> set s. is_digit c \<Longrightarrow> read_point s = of_nat (read_nat s)"
proof -
  assume a: "\<forall>c \<in> set s. is_digit c"
  have "takeWhile (\<lambda>c. c \<noteq> CHR ''.'') s = s" "dropWhile (\<lambda>c. c \<noteq> CHR ''.'') s = []"
    using a by (auto simp: digit_not_point)
  then show ?thesis unfolding read_point_def Let_def by (simp only: append_Nil2 list.sel list.size) simp
qed

text \<open>A printed decimal reads back as the units it was printed from.\<close>

lemma read_point_digits: "read_point (point_digits f n) = of_nat n / 10 ^ f"
proof (cases "f = 0")
  case True
  then show ?thesis using read_point_whole [of "show_nat n"] show_nat_digits
    by (simp add: point_digits_def)
next
  case False
  define m where "m = show_nat n"
  define z where "z = (if length m \<le> f then replicate (f + 1 - length m) CHR ''0'' @ m else m)"
  have dz: "\<forall>c \<in> set z. is_digit c"
    using show_nat_digits [of _ n] by (auto simp: z_def m_def is_digit_def split: if_splits)
  have rz: "read_nat z = n" by (simp add: z_def m_def read_nat_zeros)
  have lz: "f < length z" by (auto simp: z_def)
  have pd: "point_digits f n = take (length z - f) z @ ''.'' @ drop (length z - f) z"
    using False by (simp add: point_digits_def z_def m_def Let_def)
  have dt: "\<forall>c \<in> set (take (length z - f) z). is_digit c" using dz by (meson in_set_takeD)
  show ?thesis
    unfolding read_point_def pd takeWhile_no_point [OF dt] dropWhile_no_point [OF dt]
    using lz rz by (simp add: Let_def)
qed

text \<open>The decimal \<open>toFixed\<close> prints is within half a unit of its last place.\<close>

lemma toFixed_near:
  assumes "0 \<le> x"
  shows "\<bar>read_point (toFixed f x) - x\<bar> \<le> 1 / (2 * 10 ^ f)"
proof -
  let ?u = "of_int \<lfloor>x * 10 ^ f + 1/2\<rfloor> :: rat"
  have r: "read_point (toFixed f x) = ?u / 10 ^ f"
    using assms by (simp add: toFixed_def read_point_digits fixed_units_def)
  have "?u / 10 ^ f - x = (?u - x * 10 ^ f) / 10 ^ f" by (simp add: field_simps)
  then have "\<bar>?u / 10 ^ f - x\<bar> = \<bar>?u - x * 10 ^ f\<bar> / 10 ^ f" by simp
  also have "\<dots> \<le> (1/2) / 10 ^ f" by (rule divide_right_mono) (linarith, simp)
  finally show ?thesis unfolding r by simp
qed

section \<open>Separators\<close>

lemma arrow_length [simp]: "length arrow = 3"
  by (simp add: arrow_def)

text \<open>
  The arrow has no border (its first byte occurs in it once), so it cannot overlap
  itself, and the first arrow after an arrow-free name is the separator.
\<close>

definition no_arrow :: "string \<Rightarrow> bool" where
  "no_arrow s \<longleftrightarrow> \<not> sublist arrow s"

lemma arrow_shift:
  assumes "arrow @ b = us @ arrow @ d" "us \<noteq> []"
  shows "\<exists>vs. us = arrow @ vs \<and> b = vs @ arrow @ d"
proof (cases us)
  case (Cons x xs)
  then show ?thesis using assms
    by (cases xs; cases "tl xs") (auto simp: arrow_def)
qed (use assms in simp)

lemma arrow_split:
  assumes "a @ arrow @ b = c @ arrow @ d"
  shows "(a = c \<and> b = d)
    \<or> (\<exists>vs. c = a @ arrow @ vs \<and> b = vs @ arrow @ d)
    \<or> (\<exists>vs. a = c @ arrow @ vs \<and> d = vs @ arrow @ b)"
proof -
  from assms obtain us where
    "(a = c @ us \<and> us @ arrow @ b = arrow @ d) \<or> (a @ us = c \<and> arrow @ b = us @ arrow @ d)"
    using append_eq_append_conv2 [of a "arrow @ b" c "arrow @ d"] by metis
  then show ?thesis
  proof
    assume h: "a = c @ us \<and> us @ arrow @ b = arrow @ d"
    then show ?thesis using arrow_shift [of d us b] by (cases "us = []") auto
  next
    assume h: "a @ us = c \<and> arrow @ b = us @ arrow @ d"
    then show ?thesis using arrow_shift [of b us d] by (cases "us = []") auto
  qed
qed

lemma no_arrow_ascii: "CHR 0xE2 \<notin> set s \<Longrightarrow> no_arrow s"
  by (auto simp: no_arrow_def sublist_def arrow_def)

lemma has_arrow: "\<not> no_arrow (a @ arrow @ b)"
  by (auto simp: no_arrow_def sublist_def)

lemma has_arrow_front: "\<not> no_arrow (arrow @ b)"
  using has_arrow [of "[]"] by simp

lemma no_arrow_split:
  assumes "a @ arrow @ b = c @ arrow @ d" "no_arrow a" "no_arrow c"
  shows "a = c \<and> b = d"
  using arrow_split [OF assms(1)] assms(2,3) has_arrow by auto

lemma no_arrow_split_right:
  assumes "a @ arrow @ b = c @ arrow @ d" "no_arrow b" "no_arrow d"
  shows "a = c \<and> b = d"
  using arrow_split [OF assms(1)] assms(2,3) has_arrow by auto

section \<open>The default order of strings\<close>

text \<open>
  \<open>xs.sort()\<close> on strings compares UTF-16 code units; on the byte strings of this model it
  is the byte order, which agrees with it except between characters outside the basic plane
  and those from U+E000 to U+FFFF.
\<close>

fun str_le :: "string \<Rightarrow> string \<Rightarrow> bool" where
  "str_le [] ys = True"
| "str_le (x # xs) [] = False"
| "str_le (x # xs) (y # ys) = ((of_char x :: nat) < of_char y \<or> (x = y \<and> str_le xs ys))"

definition str_cmp :: "string \<Rightarrow> string \<Rightarrow> number" where
  "str_cmp a b = (if a = b then 0 else if str_le a b then -1 else 1)"

lemma str_le_refl [simp]: "str_le xs xs"
  by (induction xs) auto

lemma str_le_total: "str_le xs ys \<or> str_le ys xs"
proof (induction xs ys rule: str_le.induct)
  case (3 x xs y ys)
  then show ?case using linorder_less_linear [of "of_char x :: nat" "of_char y"] by auto
qed auto

lemma str_le_antisym: "str_le xs ys \<Longrightarrow> str_le ys xs \<Longrightarrow> xs = ys"
  by (induction xs ys rule: str_le.induct) (auto elim: str_le.elims)

lemma str_le_trans: "str_le xs ys \<Longrightarrow> str_le ys zs \<Longrightarrow> str_le xs zs"
proof (induction xs ys arbitrary: zs rule: str_le.induct)
  case (3 x xs y ys)
  then show ?case by (cases zs) auto
qed auto

lemma str_cmp_le: "str_cmp a b \<le> 0 \<longleftrightarrow> str_le a b"
  by (auto simp: str_cmp_def)

section \<open>Joining\<close>

definition plain_for :: "char \<Rightarrow> string list \<Rightarrow> bool" where
  "plain_for c xs \<longleftrightarrow> list_all (\<lambda>x. x \<noteq> [] \<and> c \<notin> set x) xs"

lemma join_Cons: "join [c] (x # xs) = (if xs = [] then x else x @ c # join [c] xs)"
  by (cases xs) auto

lemma join_Nil_iff: "plain_for c xs \<Longrightarrow> join [c] xs = [] \<longleftrightarrow> xs = []"
  by (cases xs) (auto simp: plain_for_def join_Cons)

lemma split_at: "c \<notin> set x \<Longrightarrow> c \<notin> set y \<Longrightarrow> x @ c # u = y @ c # v \<Longrightarrow> x = y \<and> u = v"
proof -
  assume a: "c \<notin> set x" "c \<notin> set y" "x @ c # u = y @ c # v"
  have "takeWhile (\<lambda>d. d \<noteq> c) (x @ c # u) = x" using a(1) by (subst takeWhile_append2) auto
  moreover have "takeWhile (\<lambda>d. d \<noteq> c) (y @ c # v) = y" using a(2) by (subst takeWhile_append2) auto
  ultimately show ?thesis using a(3) by auto
qed

text \<open>Names without the separator can be read back from their joined text.\<close>

lemma join_inj: "plain_for c xs \<Longrightarrow> plain_for c ys \<Longrightarrow> join [c] xs = join [c] ys \<Longrightarrow> xs = ys"
proof (induction xs arbitrary: ys)
  case Nil
  then show ?case using join_Nil_iff [of c ys] by simp
next
  case (Cons x xs)
  then obtain y zs where ys: "ys = y # zs" using join_Nil_iff [of c "x # xs"] by (cases ys) auto
  have p: "c \<notin> set x" "c \<notin> set y" "plain_for c xs" "plain_for c zs"
    using Cons.prems(1,2) ys by (auto simp: plain_for_def)
  consider "xs = []" "zs = []" | "xs = []" "zs \<noteq> []" | "xs \<noteq> []" "zs = []" | "xs \<noteq> []" "zs \<noteq> []" by blast
  then show ?case
  proof cases
    case 4
    then have "x = y \<and> join [c] xs = join [c] zs"
      using Cons.prems(3) p(1,2) by (intro split_at) (simp_all add: ys join_Cons)
    then show ?thesis using Cons.IH [OF p(3,4)] ys by simp
  qed (use Cons.prems(3) p(1,2) ys in \<open>auto simp: join_Cons\<close>)
qed

end
