(* ===== verification/JsObject.thy ===== *)
theory JsObject
  imports JsString "HOL-Library.AList" "HOL-Library.Multiset"
begin

text \<open>
  JavaScript objects used as dictionaries (\<open>Record<string, T>\<close>): association lists in
  insertion order, which is the order of \<open>Object.keys\<close>, \<open>Object.values\<close> and
  \<open>Object.entries\<close> for keys that are not array indices. \<open>{...o, [k]: v}\<close> and
  \<open>o[k] = v\<close> keep the place of a key that is already there. The locale
  \<open>dictionary\<close> is the contract the hooks and the views use; the model's objects are
  its interpretation \<open>js_obj\<close>.

  The second half is \<open>Array.prototype.sort\<close> with a comparison function: the stable
  sort by that function.
\<close>

type_synonym 'v obj = "(string \<times> 'v) list"

definition obj_get :: "'v obj \<Rightarrow> string \<Rightarrow> 'v option" where
  "obj_get m k = map_of m k"

definition obj_put :: "string \<Rightarrow> 'v \<Rightarrow> 'v obj \<Rightarrow> 'v obj" where
  "obj_put k v m = AList.update k v m"

definition obj_delete :: "string \<Rightarrow> 'v obj \<Rightarrow> 'v obj" where
  "obj_delete k m = AList.delete k m"

definition obj_keys :: "'v obj \<Rightarrow> string list" where
  "obj_keys m = map fst m"

definition obj_values :: "'v obj \<Rightarrow> 'v list" where
  "obj_values m = map snd m"

definition wf_obj :: "'v obj \<Rightarrow> bool" where
  "wf_obj m \<longleftrightarrow> distinct (map fst m)"

text \<open>A property of every entry.\<close>

definition obj_all :: "(string \<Rightarrow> 'v \<Rightarrow> bool) \<Rightarrow> 'v obj \<Rightarrow> bool" where
  "obj_all P m \<longleftrightarrow> list_all (\<lambda>(k, v). P k v) m"

text \<open>A loop of assignments into an object.\<close>

definition obj_puts :: "(string \<times> 'v) list \<Rightarrow> 'v obj \<Rightarrow> 'v obj" where
  "obj_puts kvs m = fold (\<lambda>(k, v) m. obj_put k v m) kvs m"

section \<open>Stable sorting by a comparison function\<close>

fun sort_insert :: "('a \<Rightarrow> 'a \<Rightarrow> number) \<Rightarrow> 'a \<Rightarrow> 'a list \<Rightarrow> 'a list" where
  "sort_insert cmp x [] = [x]"
| "sort_insert cmp x (y # ys) = (if cmp x y \<le> 0 then x # y # ys else y # sort_insert cmp x ys)"

definition js_sort :: "('a \<Rightarrow> 'a \<Rightarrow> number) \<Rightarrow> 'a list \<Rightarrow> 'a list" where
  "js_sort cmp xs = foldr (sort_insert cmp) xs []"

text \<open>
  What the standard asks of a comparison function for the order to be defined, on the
  elements that are sorted.
\<close>

definition consistent_cmp :: "'a set \<Rightarrow> ('a \<Rightarrow> 'a \<Rightarrow> number) \<Rightarrow> bool" where
  "consistent_cmp A cmp \<longleftrightarrow>
     (\<forall>x \<in> A. \<forall>y \<in> A. cmp x y \<le> 0 \<or> cmp y x \<le> 0) \<and>
     (\<forall>x \<in> A. \<forall>y \<in> A. \<forall>z \<in> A. cmp x y \<le> 0 \<longrightarrow> cmp y z \<le> 0 \<longrightarrow> cmp x z \<le> 0)"

section \<open>The dictionary contract\<close>

locale dictionary =
  fixes empty :: "'m"
    and get :: "'m \<Rightarrow> 'k \<Rightarrow> 'v option"
    and put :: "'k \<Rightarrow> 'v \<Rightarrow> 'm \<Rightarrow> 'm"
    and delete :: "'k \<Rightarrow> 'm \<Rightarrow> 'm"
    and keys :: "'m \<Rightarrow> 'k list"
    and vals :: "'m \<Rightarrow> 'v list"
    and invar :: "'m \<Rightarrow> bool"
  assumes get_empty: "get empty k = None"
    and get_put: "get (put k v m) k' = (if k' = k then Some v else get m k')"
    and get_delete: "get (delete k m) k' = (if k' = k then None else get m k')"
    and keys_get: "k \<in> set (keys m) \<longleftrightarrow> get m k \<noteq> None"
    and vals_get: "invar m \<Longrightarrow> v \<in> set (vals m) \<longleftrightarrow> (\<exists>k. get m k = Some v)"
    and invar_empty: "invar empty"
    and invar_put: "invar m \<Longrightarrow> invar (put k v m)"
    and invar_delete: "invar m \<Longrightarrow> invar (delete k m)"
    and invar_keys: "invar m \<Longrightarrow> distinct (keys m)"
    and length_vals: "length (vals m) = length (keys m)"
begin

text \<open>A loop of assignments: the last assignment to a key wins.\<close>

lemma get_puts: "get (fold (\<lambda>(k, v). put k v) kvs m) k =
    (case map_of (rev kvs) k of None \<Rightarrow> get m k | Some v \<Rightarrow> Some v)"
proof (induction kvs arbitrary: m)
  case (Cons kv kvs)
  then show ?case by (cases kv) (auto simp: get_put map_add_def split: option.splits)
qed simp

lemma invar_puts: "invar m \<Longrightarrow> invar (fold (\<lambda>(k, v). put k v) kvs m)"
  by (induction kvs arbitrary: m) (auto simp: invar_put)

text \<open>Pointwise invariants of the stored values survive assignment and deletion.\<close>

lemma all_put:
  "(\<And>k v. get m k = Some v \<Longrightarrow> P v) \<Longrightarrow> P x \<Longrightarrow> get (put k' x m) k = Some v \<Longrightarrow> P v"
  by (auto simp: get_put split: if_splits)

lemma all_delete:
  "(\<And>k v. get m k = Some v \<Longrightarrow> P v) \<Longrightarrow> get (delete k' m) k = Some v \<Longrightarrow> P v"
  by (auto simp: get_delete split: if_splits)

lemma set_keys_put: "set (keys (put k v m)) = insert k (set (keys m))"
  by (auto simp: keys_get get_put split: if_splits)

lemma put_new_key: "get m k = None \<Longrightarrow> invar m \<Longrightarrow>
    length (keys (put k v m)) = Suc (length (keys m))"
proof -
  assume a: "get m k = None" "invar m"
  have "k \<notin> set (keys m)" using a(1) by (simp add: keys_get)
  then show ?thesis
    using invar_keys [OF a(2)] invar_keys [OF invar_put [OF a(2)]] set_keys_put
    by (metis card_insert_disjoint distinct_card finite_set)
qed

lemma put_old_key: "get m k \<noteq> None \<Longrightarrow> invar m \<Longrightarrow>
    length (keys (put k v m)) = length (keys m)"
proof -
  assume a: "get m k \<noteq> None" "invar m"
  have "k \<in> set (keys m)" using a(1) by (simp add: keys_get)
  then show ?thesis
    using invar_keys [OF a(2)] invar_keys [OF invar_put [OF a(2)]] set_keys_put
    by (metis distinct_card insert_absorb)
qed

end

interpretation js_obj: dictionary "[]" obj_get obj_put obj_delete obj_keys obj_values wf_obj
proof unfold_locales
  fix m :: "'v obj" and k :: string and v :: 'v
  show "k \<in> set (obj_keys m) \<longleftrightarrow> obj_get m k \<noteq> None"
    by (simp add: obj_keys_def obj_get_def map_of_eq_None_iff)
  show "wf_obj m \<Longrightarrow> v \<in> set (obj_values m) \<longleftrightarrow> (\<exists>k. obj_get m k = Some v)"
    unfolding wf_obj_def obj_values_def obj_get_def
    by (force intro: map_of_is_SomeI dest: map_of_SomeD)
qed (auto simp: obj_get_def obj_put_def obj_delete_def obj_keys_def obj_values_def wf_obj_def
    AList.update_conv' AList.delete_conv' distinct_update distinct_delete)

lemmas obj_simps [simp] = js_obj.get_empty js_obj.get_put js_obj.get_delete
  js_obj.invar_empty js_obj.invar_put js_obj.invar_delete

lemma obj_get_puts: "obj_get (obj_puts kvs m) k =
    (case map_of (rev kvs) k of None \<Rightarrow> obj_get m k | Some v \<Rightarrow> Some v)"
  unfolding obj_puts_def by (rule js_obj.get_puts)

lemma wf_obj_puts: "wf_obj m \<Longrightarrow> wf_obj (obj_puts kvs m)"
  unfolding obj_puts_def by (rule js_obj.invar_puts)

lemma set_keys_obj_puts: "set (obj_keys (obj_puts kvs m)) = set (map fst kvs) \<union> set (obj_keys m)"
  unfolding obj_puts_def by (induction kvs arbitrary: m) (auto simp: js_obj.set_keys_put)

lemma obj_put_fresh: "k \<notin> set (map fst m) \<Longrightarrow> obj_put k v m = m @ [(k, v)]"
  unfolding obj_put_def by (induction m) auto

text \<open>Assigning distinct keys into a fresh object lists them in order.\<close>

lemma obj_puts_distinct: "distinct (map fst (m @ kvs)) \<Longrightarrow> obj_puts kvs m = m @ kvs"
  unfolding obj_puts_def
proof (induction kvs arbitrary: m)
  case (Cons kv kvs)
  obtain k v where kv: "kv = (k, v)" by force
  have "obj_put k v m = m @ [(k, v)]" using Cons.prems by (intro obj_put_fresh) (auto simp: kv)
  with Cons.IH [of "m @ [(k, v)]"] Cons.prems show ?case by (simp add: kv)
qed simp

lemma wf_obj_puts_empty [simp]: "wf_obj (obj_puts kvs [])"
  by (rule wf_obj_puts) simp

lemma obj_all_empty [simp]: "obj_all P []"
  by (simp add: obj_all_def)

lemma obj_all_put: "obj_all P m \<Longrightarrow> P k v \<Longrightarrow> obj_all P (obj_put k v m)"
  unfolding obj_all_def obj_put_def by (induction m) auto

lemma obj_all_delete: "obj_all P m \<Longrightarrow> obj_all P (obj_delete k m)"
  unfolding obj_all_def obj_delete_def by (induction m) (auto simp: AList.delete_eq)

lemma obj_all_get: "obj_all P m \<Longrightarrow> obj_get m k = Some v \<Longrightarrow> P k v"
  unfolding obj_all_def obj_get_def list_all_iff by (auto dest: map_of_SomeD)

lemma obj_all_puts: "obj_all P m \<Longrightarrow> list_all (\<lambda>(k, v). P k v) kvs \<Longrightarrow> obj_all P (obj_puts kvs m)"
  unfolding obj_puts_def by (induction kvs arbitrary: m) (auto simp: obj_all_put)

section \<open>Sorting lemmas\<close>

lemma mset_sort_insert [simp]: "mset (sort_insert cmp x ys) = add_mset x (mset ys)"
  by (induction ys) auto

lemma mset_js_sort [simp]: "mset (js_sort cmp xs) = mset xs"
  unfolding js_sort_def by (induction xs) auto

lemma length_js_sort [simp]: "length (js_sort cmp xs) = length xs"
  by (metis mset_js_sort size_mset)

lemma set_js_sort [simp]: "set (js_sort cmp xs) = set xs"
  by (metis mset_js_sort set_mset_mset)

lemma set_sort_insert [simp]: "set (sort_insert cmp x ys) = insert x (set ys)"
  by (metis mset_sort_insert set_mset_add_mset_insert set_mset_mset)

lemma consistent_cmp_mono: "consistent_cmp B cmp \<Longrightarrow> A \<subseteq> B \<Longrightarrow> consistent_cmp A cmp"
  unfolding consistent_cmp_def by blast

lemma consistent_cmpD:
  assumes "consistent_cmp A cmp" "x \<in> A" "y \<in> A"
  shows "cmp x y \<le> 0 \<or> cmp y x \<le> 0" "z \<in> A \<Longrightarrow> cmp x y \<le> 0 \<Longrightarrow> cmp y z \<le> 0 \<Longrightarrow> cmp x z \<le> 0"
  using assms unfolding consistent_cmp_def by blast+

lemma sort_insert_sorted:
  assumes "consistent_cmp (set (x # ys)) cmp" "sorted_wrt (\<lambda>x y. cmp x y \<le> 0) ys"
  shows "sorted_wrt (\<lambda>x y. cmp x y \<le> 0) (sort_insert cmp x ys)"
  using assms
proof (induction ys)
  case (Cons y ys)
  show ?case
  proof (cases "cmp x y \<le> 0")
    case True
    then have "cmp x z \<le> 0" if "z \<in> set ys" for z
      using consistent_cmpD(2) [OF Cons.prems(1), of x y z] Cons.prems(2) that by simp
    with True Cons.prems show ?thesis by simp
  next
    case False
    then have "cmp y x \<le> 0" using consistent_cmpD(1) [OF Cons.prems(1), of x y] by simp
    moreover have "consistent_cmp (set (x # ys)) cmp" by (rule consistent_cmp_mono [OF Cons.prems(1)]) auto
    ultimately show ?thesis using False Cons by simp
  qed
qed simp

lemma js_sort_sorted:
  "consistent_cmp (set xs) cmp \<Longrightarrow> sorted_wrt (\<lambda>x y. cmp x y \<le> 0) (js_sort cmp xs)"
proof (induction xs)
  case (Cons x xs)
  have "consistent_cmp (set (x # js_sort cmp xs)) cmp" using Cons.prems by simp
  moreover have "consistent_cmp (set xs) cmp" by (rule consistent_cmp_mono [OF Cons.prems]) auto
  ultimately show ?case using Cons.IH sort_insert_sorted by (simp add: js_sort_def)
qed (simp add: js_sort_def)

text \<open>Stability: the elements that compare equal to \<open>a\<close> keep their order.\<close>

lemma sort_insert_filter:
  assumes "consistent_cmp (set (a # x # ys)) cmp" "sorted_wrt (\<lambda>x y. cmp x y \<le> 0) ys"
  shows "filter (\<lambda>b. cmp a b \<le> 0 \<and> cmp b a \<le> 0) (sort_insert cmp x ys) =
         filter (\<lambda>b. cmp a b \<le> 0 \<and> cmp b a \<le> 0) (x # ys)"
  using assms
proof (induction ys)
  case (Cons y ys)
  have c: "consistent_cmp (set (a # x # ys)) cmp" by (rule consistent_cmp_mono [OF Cons.prems(1)]) auto
  have "cmp x y \<le> 0" if "cmp x a \<le> 0" "cmp a y \<le> 0"
    using consistent_cmpD(2) [OF Cons.prems(1), of x a y] that by simp
  with c Cons show ?case by auto
qed simp

lemma js_sort_stable:
  assumes "consistent_cmp (insert a (set xs)) cmp"
  shows "filter (\<lambda>b. cmp a b \<le> 0 \<and> cmp b a \<le> 0) (js_sort cmp xs) =
         filter (\<lambda>b. cmp a b \<le> 0 \<and> cmp b a \<le> 0) xs"
  using assms
proof (induction xs)
  case (Cons x xs)
  have c: "consistent_cmp (insert a (set xs)) cmp" "consistent_cmp (set xs) cmp"
    by (rule consistent_cmp_mono [OF Cons.prems], auto)+
  have "consistent_cmp (set (a # x # js_sort cmp xs)) cmp" using Cons.prems by simp
  then have "filter (\<lambda>b. cmp a b \<le> 0 \<and> cmp b a \<le> 0) (sort_insert cmp x (js_sort cmp xs)) =
      filter (\<lambda>b. cmp a b \<le> 0 \<and> cmp b a \<le> 0) (x # js_sort cmp xs)"
    by (rule sort_insert_filter) (rule js_sort_sorted [OF c(2)])
  with Cons.IH [OF c(1)] show ?case by (simp add: js_sort_def)
qed (simp add: js_sort_def)

text \<open>The comparison \<open>(a, b) => f(b) - f(a)\<close> and its mirror image, on doubles.\<close>

lemma double_diff_sign:
  assumes "is_double a" "is_double b"
  shows "fsub a b \<le> 0 \<longleftrightarrow> a \<le> b"
proof
  assume "a \<le> b"
  then show "fsub a b \<le> 0" unfolding fsub_def by (intro f64.rnd_nonpos) simp
next
  assume le: "fsub a b \<le> 0"
  show "a \<le> b"
  proof (rule ccontr)
    assume "\<not> a \<le> b"
    then have "2 powi (-1074) \<le> a - b" using double_gap [OF assms(2,1)] by simp
    then show False using fl_pos [of "a - b"] le by (simp add: fsub_def)
  qed
qed

lemma consistent_by_number:
  assumes "\<And>x. x \<in> A \<Longrightarrow> is_double (f x)"
  shows "consistent_cmp A (\<lambda>x y. fsub (f x) (f y))" "consistent_cmp A (\<lambda>x y. fsub (f y) (f x))"
  using assms by (auto simp: consistent_cmp_def double_diff_sign)

lemma consistent_str_cmp: "consistent_cmp A str_cmp"
  unfolding consistent_cmp_def str_cmp_le using str_le_total str_le_trans by blast

text \<open>\<open>[...set].sort()\<close>\<close>

definition sort_strings :: "string list \<Rightarrow> string list" where
  "sort_strings xs = js_sort str_cmp xs"

lemma sort_strings_sorted: "sorted_wrt str_le (sort_strings xs)"
  using js_sort_sorted [OF consistent_str_cmp, of xs] by (simp add: sort_strings_def str_cmp_le)

lemma set_sort_strings [simp]: "set (sort_strings xs) = set xs"
  by (simp add: sort_strings_def)

lemma distinct_sort_strings [simp]: "distinct (sort_strings xs) = distinct xs"
  by (metis mset_js_sort mset_eq_imp_distinct_iff sort_strings_def)

end
