(* ===== verification/DataTypes.thy ===== *)
theory DataTypes
  imports JsObject
begin

text \<open>
  The data of \<open>types.ts\<close> and the map types of \<open>hooks/useWebSocket.ts\<close>: one record per
  interface, with its fields in order, and one datatype per union of string literals. A
  field name that several interfaces share carries a prefix: \<open>hp_\<close> for a history point,
  \<open>rp_\<close> for a resource point, \<open>sv_\<close> for a service, \<open>ev_\<close> for a spike event, \<open>rm_\<close>
  for a resource message, \<open>om_\<close> for the message envelope, \<open>cs_\<close> for the close states. An optional field is an \<open>option\<close>.
\<close>

section \<open>Unions\<close>

datatype CauseKind = Cause_network | Cause_cpu | Cause_io | Cause_memory | Cause_external

text \<open>\<open>StressKind\<close> without its \<open>null\<close>, which is \<open>None\<close>.\<close>

datatype StressKind = Stress_cpu | Stress_io | Stress_memory

datatype NodeType = Internal | External

datatype Severity = Sev_warning | Sev_critical

datatype MsgType = Msg_stats | Msg_event | Msg_remove | Msg_history | Msg_resource

section \<open>Interfaces\<close>

record CloseStates =
  cs_fin :: number
  cs_rst :: number
  cs_timeout :: number

record StatSnapshot =
  src_service :: string
  dst_service :: string
  src_type :: NodeType
  dst_type :: NodeType
  latest_srtt_us :: number
  avg_us :: number
  p50_us :: number
  p95_us :: number
  p99_us :: number
  jitter_us :: number
  retransmit_count :: number
  sample_count :: number
  is_spike :: bool
  spike_threshold_us :: number
  cause_kind :: "CauseKind option"
  close_states :: "CloseStates option"
  dst_cpu_pct :: "number option"
  dst_io_wait_pct :: "number option"
  dst_mem_pressure_pct :: "number option"
  baseline_us :: "number option"

record ResourcePoint =
  rp_time :: number
  rp_cpu_pct :: number
  rp_io_wait_pct :: number
  rp_mem_pressure_pct :: number
  rp_cpu_throttle_pct :: number

record ServiceSnapshot =
  sv_name :: string
  sv_cpu_pct :: number
  sv_io_wait_pct :: number
  sv_mem_pressure_pct :: number
  sv_cpu_throttle_pct :: number
  sv_stress_kind :: "StressKind option"
  sv_history :: "ResourcePoint list"

record SpikeEvent =
  ev_id :: string
  ev_timestamp :: number
  ev_key :: string
  ev_src :: string
  ev_dst :: string
  ev_p99_us :: number
  ev_baseline_us :: number
  ev_severity :: Severity
  ev_cause_kind :: CauseKind
  ev_dst_cpu_pct :: number
  ev_dst_io_wait_pct :: number
  ev_dst_mem_pressure_pct :: number

record HistoryPoint =
  hp_time :: number
  hp_latest_srtt_us :: number
  hp_avg_us :: number
  hp_p50_us :: number
  hp_p95_us :: number
  hp_p99_us :: number
  hp_jitter_us :: number

record ConnHistory =
  ch_key :: string
  ch_points :: "HistoryPoint list"

record ResourceMsg =
  rm_service_name :: string
  rm_timestamp_ms :: number
  rm_cpu_pct :: number
  rm_cpu_throttle_pct :: number
  rm_mem_current_bytes :: number
  rm_mem_limit_bytes :: number
  rm_mem_pressure_pct :: number
  rm_io_read_bytes_per_s :: number
  rm_io_write_bytes_per_s :: number
  rm_io_wait_pct :: number
  rm_oom_kill_count :: number

record OutboundMsg =
  om_msg_type :: MsgType
  om_stats :: "StatSnapshot option"
  om_remove_key :: "string option"
  om_history :: "ConnHistory list option"
  om_resource :: "ResourceMsg option"

section \<open>Keyed state\<close>

type_synonym SnapshotMap = "StatSnapshot obj"
type_synonym ServiceMap = "ServiceSnapshot obj"
type_synonym HistoryMap = "HistoryPoint list obj"

text \<open>The key of a connection, \<open>`${src}\<rightarrow>${dst}`\<close>.\<close>

definition connKey :: "string \<Rightarrow> string \<Rightarrow> string" where
  "connKey src dst = src @ arrow @ dst"

definition snapKey :: "StatSnapshot \<Rightarrow> string" where
  "snapKey s = connKey (src_service s) (dst_service s)"

lemma connKey_inj:
  "no_arrow a \<Longrightarrow> no_arrow c \<Longrightarrow> connKey a b = connKey c d \<longleftrightarrow> a = c \<and> b = d"
  unfolding connKey_def using no_arrow_split by blast

lemma connKey_startsWith:
  "no_arrow a \<Longrightarrow> no_arrow n \<Longrightarrow> startsWith (connKey a b) (n @ arrow) \<longleftrightarrow> n = a"
  unfolding connKey_def startsWith_def prefix_def using no_arrow_split [of a b n] by auto

lemma connKey_endsWith:
  "no_arrow b \<Longrightarrow> no_arrow n \<Longrightarrow> endsWith (connKey a b) (arrow @ n) \<longleftrightarrow> n = b"
  unfolding connKey_def endsWith_def suffix_def using no_arrow_split_right [of a b _ n] by auto

lemma connKey_nonempty [simp]: "connKey a b \<noteq> []"
  by (simp add: connKey_def arrow_def)

text \<open>A sample snapshot, for the concrete instances of the theorems.\<close>

definition sample_snap :: "bool \<Rightarrow> number \<Rightarrow> StatSnapshot" where
  "sample_snap spike p99 =
     \<lparr>src_service = ''web'', dst_service = ''db'', src_type = Internal, dst_type = Internal,
      latest_srtt_us = 900, avg_us = 800, p50_us = 700, p95_us = 1500, p99_us = p99, jitter_us = 40,
      retransmit_count = 0, sample_count = 60, is_spike = spike, spike_threshold_us = 6000,
      cause_kind = None, close_states = None, dst_cpu_pct = Some 12, dst_io_wait_pct = None,
      dst_mem_pressure_pct = None, baseline_us = None\<rparr>"

lemma sample_snap_fields [simp]: "src_service (sample_snap b x) = ''web''"
  "dst_service (sample_snap b x) = ''db''" "is_spike (sample_snap b x) = b" "p99_us (sample_snap b x) = x"
  by (simp_all add: sample_snap_def)

end
