(* ===== verification/Format.thy ===== *)
theory Format
  imports DataTypes
begin

text \<open>
  \<open>utils/format.ts\<close> and \<open>constants/causes.ts\<close>: the printed latencies and times, the
  latency bands with their colours, and the descriptions of the cause kinds.

  The lemmas show that the bands are a monotone step function, that a printed latency
  is within half a unit of its last digit of the latency it stands for (the division's
  rounding included), where the printed unit is off at the top of each range, and that
  \<open>timeAgo\<close> never shows a rounding error of its floating-point division.
\<close>

section \<open>utils/format.ts\<close>

definition fmtUs :: "number \<Rightarrow> string" where
  "fmtUs us =
     (if us \<ge> 1000000 then toFixed 1 (fdiv us 1000000) @ ''s''
      else if us \<ge> 1000 then toFixed (if us \<ge> 10000 then 1 else 2) (fdiv us 1000) @ ''ms''
      else show_int (math_round us) @ micro @ ''s'')"

definition fmtYLabel :: "number \<Rightarrow> string" where
  "fmtYLabel us =
     (if us \<ge> 1000000 then toFixed 1 (fdiv us 1000000) @ ''s''
      else if us \<ge> 1000 then toFixed (if us \<ge> 10000 then 0 else 1) (fdiv us 1000) @ ''ms''
      else show_int (math_round us) @ micro @ ''s'')"

text \<open>
  \<open>new Date(ms).toTimeString().slice(0, 8)\<close>. A date holds an instant in whole milliseconds, at
  most \<open>8.64e15\<close> from the epoch, or is invalid. The text of a valid one is the local
  wall clock followed by the zone, \<open>HH:MM:SS GMT+hhmm\<close> (the name of the zone that may follow
  is left to the implementation, and empty here). The offset of local time from UTC at that
  instant is the argument \<open>tz\<close> (milliseconds).
\<close>

definition two_digits :: "int \<Rightarrow> string" where
  "two_digits n = (if n < 10 then ''0'' @ show_nat (nat n) else show_nat (nat n))"

definition MAX_TIME :: number where
  "MAX_TIME = 8640000000000000"

definition TimeClip :: "number \<Rightarrow> int option" where
  "TimeClip ms = (if \<bar>ms\<bar> > MAX_TIME then None else Some (if ms \<ge> 0 then \<lfloor>ms\<rfloor> else \<lceil>ms\<rceil>))"

text \<open>Hours, minutes and seconds of a local time.\<close>

definition HourFromTime :: "int \<Rightarrow> int" where
  "HourFromTime t = t div 3600000 mod 24"

definition MinFromTime :: "int \<Rightarrow> int" where
  "MinFromTime t = t div 60000 mod 60"

definition SecFromTime :: "int \<Rightarrow> int" where
  "SecFromTime t = t div 1000 mod 60"

definition toTimeString :: "int \<Rightarrow> number \<Rightarrow> string" where
  "toTimeString tz ms =
     (case TimeClip ms of
        None \<Rightarrow> ''Invalid Date''
      | Some tv \<Rightarrow>
          (let t = tv + tz
           in two_digits (HourFromTime t) @ '':'' @ two_digits (MinFromTime t) @ '':'' @ two_digits (SecFromTime t) @
              '' GMT'' @ (if tz \<ge> 0 then ''+'' else ''-'') @
              two_digits (HourFromTime \<bar>tz\<bar>) @ two_digits (MinFromTime \<bar>tz\<bar>)))"

definition fmtTime :: "int \<Rightarrow> number \<Rightarrow> string" where
  "fmtTime tz ms = take 8 (toTimeString tz ms)"

text \<open>\<open>Date.now()\<close> is the argument \<open>now\<close>.\<close>

definition timeAgo :: "number \<Rightarrow> number \<Rightarrow> string" where
  "timeAgo now ts =
     (let s = \<lfloor>fdiv (fsub now ts) 1000\<rfloor>
      in if s < 60 then show_int s @ ''s ago''
         else if s < 3600 then show_int \<lfloor>fdiv (of_int s) 60\<rfloor> @ ''m ago''
         else show_int \<lfloor>fdiv (of_int s) 3600\<rfloor> @ ''h ago'')"

datatype LatencyStatus = St_ok | St_warning | St_high | St_critical

definition latencyStatus :: "number \<Rightarrow> LatencyStatus" where
  "latencyStatus p99 =
     (if p99 < 5000 then St_ok
      else if p99 < 20000 then St_warning
      else if p99 < 100000 then St_high
      else St_critical)"

fun STATUS_COLOR :: "LatencyStatus \<Rightarrow> string" where
  "STATUS_COLOR St_ok = ''#16a34a''"
| "STATUS_COLOR St_warning = ''#d97706''"
| "STATUS_COLOR St_high = ''#ea580c''"
| "STATUS_COLOR St_critical = ''#dc2626''"

fun STATUS_BG :: "LatencyStatus \<Rightarrow> string" where
  "STATUS_BG St_ok = ''#dcfce7''"
| "STATUS_BG St_warning = ''#fef3c7''"
| "STATUS_BG St_high = ''#fed7aa''"
| "STATUS_BG St_critical = ''#fee2e2''"

text \<open>The status as the text a view shows.\<close>

fun status_text :: "LatencyStatus \<Rightarrow> string" where
  "status_text St_ok = ''ok''"
| "status_text St_warning = ''warning''"
| "status_text St_high = ''high''"
| "status_text St_critical = ''critical''"

section \<open>constants/causes.ts\<close>

definition utf8 :: "nat list \<Rightarrow> string" where
  "utf8 bs = map char_of bs"

record cause_meta =
  cm_label :: string
  cm_color :: string
  cm_icon :: string
  cm_desc :: string

fun CAUSE_META :: "CauseKind \<Rightarrow> cause_meta" where
  "CAUSE_META Cause_network =
     \<lparr>cm_label = ''Network'', cm_color = ''#2563eb'', cm_icon = utf8 [0xF0, 0x9F, 0x8C, 0x90],
      cm_desc =
        ''TCP/'' @ utf8 [0xEB, 0x84, 0xA4, 0xED, 0x8A, 0xB8, 0xEC, 0x9B, 0x8C, 0xED, 0x81,
        0xAC] @ '' '' @ utf8 [0xEC, 0xA7, 0x80, 0xEC, 0x97, 0xB0] @ '' '' @ utf8 [0xEB,
        0x98, 0x90, 0xEB, 0x8A, 0x94] @ '' '' @ utf8 [0xEC, 0x9E, 0xAC, 0xEC, 0xA0, 0x84,
        0xEC, 0x86, 0xA1]\<rparr>"
| "CAUSE_META Cause_cpu =
     \<lparr>cm_label = ''CPU'', cm_color = ''#dc2626'', cm_icon = utf8 [0xF0, 0x9F, 0x94, 0xA5],
      cm_desc =
        ''CPU throttling '' @ utf8 [0xEB, 0x98, 0x90, 0xEB, 0x8A, 0x94] @ '' '' @ utf8
        [0xED, 0x8F, 0xAC, 0xED, 0x99, 0x94]\<rparr>"
| "CAUSE_META Cause_io =
     \<lparr>cm_label = ''Disk I/O'', cm_color = ''#7c3aed'', cm_icon = utf8 [0xF0, 0x9F, 0x92, 0xBE],
      cm_desc =
        ''I/O wait '' @ utf8 [0xEB, 0x8C, 0x80, 0xEA, 0xB8, 0xB0] @ '' '' @ utf8 [0xEC,
        0x8B, 0x9C, 0xEA, 0xB0, 0x84] @ '' '' @ utf8 [0xEC, 0xA6, 0x9D, 0xEA, 0xB0, 0x80]\<rparr>"
| "CAUSE_META Cause_memory =
     \<lparr>cm_label = ''Memory'', cm_color = ''#ea580c'', cm_icon = utf8 [0xF0, 0x9F, 0xA7, 0xA0],
      cm_desc =
        ''Memory pressure '' @ utf8 [0xEB, 0xB0, 0x9C, 0xEC, 0x83, 0x9D]\<rparr>"
| "CAUSE_META Cause_external =
     \<lparr>cm_label = ''External API'', cm_color = ''#d97706'', cm_icon = utf8 [0xF0, 0x9F, 0x94, 0x8C],
      cm_desc =
        utf8 [0xEC, 0x99, 0xB8, 0xEB, 0xB6, 0x80] @ '' '' @ utf8 [0xEC, 0x9D, 0x98, 0xEC,
        0xA1, 0xB4, 0xEC, 0x84, 0xB1] @ '' '' @ utf8 [0xEC, 0xA7, 0x80, 0xEC, 0x97, 0xB0]\<rparr>"

section \<open>The bands are ordered\<close>

fun status_rank :: "LatencyStatus \<Rightarrow> nat" where
  "status_rank St_ok = 0"
| "status_rank St_warning = 1"
| "status_rank St_high = 2"
| "status_rank St_critical = 3"

lemma status_rank_inj: "status_rank a = status_rank b \<Longrightarrow> a = b"
  by (cases a; cases b) auto

instantiation LatencyStatus :: linorder
begin

definition less_eq_LatencyStatus :: "LatencyStatus \<Rightarrow> LatencyStatus \<Rightarrow> bool" where
  "less_eq_LatencyStatus a b \<longleftrightarrow> status_rank a \<le> status_rank b"

definition less_LatencyStatus :: "LatencyStatus \<Rightarrow> LatencyStatus \<Rightarrow> bool" where
  "less_LatencyStatus a b \<longleftrightarrow> status_rank a < status_rank b"

instance
  by standard (auto simp: less_eq_LatencyStatus_def less_LatencyStatus_def intro: status_rank_inj)

end

lemma latencyStatus_mono: "a \<le> b \<Longrightarrow> latencyStatus a \<le> latencyStatus b"
  by (auto simp: latencyStatus_def less_eq_LatencyStatus_def)

lemma STATUS_COLOR_inj: "STATUS_COLOR a = STATUS_COLOR b \<longleftrightarrow> a = b"
  by (cases a; cases b) auto

section \<open>Printed latencies\<close>

lemma toFixed_quotient_near:
  assumes "0 \<le> us" "us < 2 powi k" "-1021 \<le> k"
  shows "\<bar>read_point (toFixed f (fl us)) - us\<bar> \<le> 1 / (2 * 10 ^ f) + 2 powi (k - 54)"
proof -
  have "\<bar>fl us - us\<bar> \<le> 2 powi (k - 54)" by (rule fl_abs_error) (use assms in auto)
  moreover have "\<bar>read_point (toFixed f (fl us)) - fl us\<bar> \<le> 1 / (2 * 10 ^ f)"
    by (rule toFixed_near) (use assms in \<open>simp add: f64.rnd_nonneg\<close>)
  ultimately show ?thesis by linarith
qed

lemma fmtUs_seconds:
  assumes "1000000 \<le> us" "us \<le> 2 ^ 53"
  shows "fmtUs us = toFixed 1 (fdiv us 1000000) @ ''s''"
    and "\<bar>read_point (toFixed 1 (fdiv us 1000000)) * 1000000 - us\<bar> \<le> 50001"
proof -
  show "fmtUs us = toFixed 1 (fdiv us 1000000) @ ''s''" using assms by (simp add: fmtUs_def)
  have "us / 1000000 < 2 powi 34" using assms by simp
  with assms have "\<bar>read_point (toFixed 1 (fl (us / 1000000))) - us / 1000000\<bar>
      \<le> 1 / (2 * 10 ^ 1) + 2 powi (34 - 54)"
    by (intro toFixed_quotient_near) auto
  then have "\<bar>read_point (toFixed 1 (fl (us / 1000000))) * 1000000 - us\<bar> * 16384 \<le> 819215625"
    by (simp add: field_simps power_int_def)
  then show "\<bar>read_point (toFixed 1 (fdiv us 1000000)) * 1000000 - us\<bar> \<le> 50001"
    unfolding fdiv_def by (simp add: mult.commute)
qed

lemma fmtUs_millis:
  assumes "1000 \<le> us" "us < 1000000"
  shows "fmtUs us = toFixed (if us \<ge> 10000 then 1 else 2) (fdiv us 1000) @ ''ms''"
    and "\<bar>read_point (toFixed f (fdiv us 1000)) * 1000 - us\<bar> \<le> 500 / 10 ^ f + 1 / 10 ^ 9"
proof -
  show "fmtUs us = toFixed (if us \<ge> 10000 then 1 else 2) (fdiv us 1000) @ ''ms''"
    using assms by (simp add: fmtUs_def)
  have "us / 1000 < 2 powi 10" using assms by simp
  with assms have "\<bar>read_point (toFixed f (fl (us / 1000))) - us / 1000\<bar>
      \<le> 1 / (2 * 10 ^ f) + 2 powi (10 - 54)"
    by (intro toFixed_quotient_near) auto
  then have "\<bar>read_point (toFixed f (fdiv us 1000)) - us / 1000\<bar> * 1000
      \<le> (1 / (2 * 10 ^ f) + 2 powi (10 - 54)) * 1000"
    by (simp only: fdiv_def) (rule mult_right_mono, simp_all)
  also have "\<dots> \<le> 500 / 10 ^ f + 1 / 10 ^ 9"
    by (simp add: distrib_right power_int_def power_one_over)
  also have "\<bar>read_point (toFixed f (fdiv us 1000)) - us / 1000\<bar> * 1000 =
      \<bar>read_point (toFixed f (fdiv us 1000)) * 1000 - us\<bar>"
    by (simp add: abs_if field_simps)
  finally show "\<bar>read_point (toFixed f (fdiv us 1000)) * 1000 - us\<bar> \<le> 500 / 10 ^ f + 1 / 10 ^ 9" .
qed

text \<open>
  C28: what \<open>fmtUs\<close> prints says what it was given. Below a millisecond the printed
  integer is within half a microsecond; up to ten milliseconds the two printed decimals
  are within 5 microseconds, up to a second the one decimal within 50, and from a second
  to \<open>2^53\<close> microseconds within 50 milliseconds, with the rounding of the floating-point
  division and of \<open>toFixed\<close> both accounted for.
\<close>

theorem fmtUs_accuracy:
  assumes "0 \<le> us" "us \<le> 2 ^ 53"
  shows "\<exists>s u scale.
    fmtUs us = s @ u \<and> \<bar>read_point s * scale - us\<bar> \<le>
      (if us < 1000 then 1/2 else if us < 10000 then 5 + 1 / 10 ^ 9
       else if us < 1000000 then 50 + 1 / 10 ^ 9 else 50001) \<and>
    (u, scale) = (if us < 1000 then (micro @ ''s'', 1)
                  else if us < 1000000 then (''ms'', 1000) else (''s'', 1000000))"
proof -
  consider "us < 1000" | "1000 \<le> us" "us < 1000000" | "1000000 \<le> us" by linarith
  then show ?thesis
  proof cases
    case 1
    have nn: "0 \<le> math_round us" using assms(1) by (simp add: math_round_def)
    have "fmtUs us = show_nat (nat (math_round us)) @ micro @ ''s''"
      using 1 nn by (simp add: fmtUs_def show_int_def)
    moreover have "read_point (show_nat (nat (math_round us))) = of_int (math_round us)"
      using nn show_nat_digits by (simp add: read_point_whole)
    ultimately show ?thesis using 1 math_round_near [of us] by auto
  next
    case 2
    let ?f = "if us \<ge> 10000 then 1 else 2 :: nat"
    have "\<bar>read_point (toFixed ?f (fdiv us 1000)) * 1000 - us\<bar> \<le> 500 / 10 ^ ?f + 1 / 10 ^ 9"
      using 2 by (rule fmtUs_millis(2))
    also have "\<dots> = (if us < 1000 then 1/2 else if us < 10000 then 5 + 1 / 10 ^ 9
       else if us < 1000000 then 50 + 1 / 10 ^ 9 else 50001)" using 2 by simp
    finally show ?thesis using 2 fmtUs_millis(1) [OF 2] by (intro exI conjI) (assumption+, simp)
  next
    case 3
    then have "\<bar>read_point (toFixed 1 (fdiv us 1000000)) * 1000000 - us\<bar> \<le>
      (if us < 1000 then 1/2 else if us < 10000 then 5 + 1 / 10 ^ 9
       else if us < 1000000 then 50 + 1 / 10 ^ 9 else 50001)"
      using fmtUs_seconds(2) [OF 3 assms(2)] by simp
    with 3 fmtUs_seconds(1) [OF 3 assms(2)] show ?thesis by (intro exI conjI) (assumption+, simp)
  qed
qed

theorem fmtUs_accuracy_witness:
  "\<exists>s u scale. fmtUs 1005 = s @ u \<and> \<bar>read_point s * scale - 1005\<bar> \<le> 5 + 1 / 10 ^ 9 \<and>
    (u, scale) = (''ms'', 1000)"
  using fmtUs_accuracy [of 1005] by simp

text \<open>
  The unit is chosen before the rounding, so the top of the millisecond range is
  printed as a four-digit \<open>1000.0ms\<close> where the next value up prints \<open>1.0s\<close>.
\<close>

lemma fmtUs_top_of_millis:
  assumes "999951 \<le> us" "us < 1000000"
  shows "fmtUs us = ''1000.0ms''"
proof -
  have "\<bar>fl (us / 1000) - us / 1000\<bar> \<le> 2 powi (10 - 54)"
    by (rule fl_abs_error) (use assms in simp_all)
  also have "\<dots> \<le> 1 / 2000" by (simp add: power_int_def power_one_over)
  finally have e: "\<bar>fl (us / 1000) - us / 1000\<bar> \<le> 1 / 2000" .
  have "fl (us / 1000) \<le> 1000" by (rule f64.rnd_le) (use assms in simp_all)
  moreover have "1999901 / 2000 \<le> fl (us / 1000)"
    using e assms(1) by linarith
  ultimately have "\<lfloor>fl (us / 1000) * 10 ^ 1 + 1/2\<rfloor> = 10000" by (intro floor_unique) simp_all
  then have "fixed_units 1 (fl (us / 1000)) = 10000" unfolding fixed_units_def by simp
  moreover have "point_digits 1 10000 = ''1000.0''" by (simp add: point_digits_def show_nat.simps)
  ultimately show ?thesis using assms f64.rnd_nonneg [of "us / 1000"]
    by (simp add: fmtUs_def toFixed_def fdiv_def)
qed

section \<open>Times\<close>

text \<open>
  On integer millisecond clocks less than \<open>2^53\<close> apart, the floating-point divisions
  of \<open>timeAgo\<close> print exactly the integer quotients, also when the clock went backwards.
\<close>

lemma timeAgo_exact:
  assumes "\<bar>now - ts\<bar> < 2 ^ 53"
  shows "timeAgo (of_int now) (of_int ts) =
    (let s = (now - ts) div 1000
     in if s < 60 then show_int s @ ''s ago''
        else if s < 3600 then show_int (s div 60) @ ''m ago''
        else show_int (s div 3600) @ ''h ago'')"
proof -
  have sub: "fsub (of_int now) (of_int ts) = of_int (now - ts)"
    using fl_of_int [of "now - ts"] assms by (simp add: fsub_def)
  have s: "\<lfloor>fdiv (of_int (now - ts)) 1000\<rfloor> = (now - ts) div 1000"
    using floor_fdiv [of "now - ts" 1000] assms by simp
  have b: "\<bar>(now - ts) div 1000\<bar> < 2 ^ 53" using assms by linarith
  have "\<lfloor>fdiv (of_int ((now - ts) div 1000)) 60\<rfloor> = (now - ts) div 1000 div 60"
    "\<lfloor>fdiv (of_int ((now - ts) div 1000)) 3600\<rfloor> = (now - ts) div 1000 div 3600"
    using floor_fdiv [OF b, of 60] floor_fdiv [OF b, of 3600] by simp_all
  then show ?thesis unfolding timeAgo_def sub s by (simp only: Let_def)
qed

lemma two_digits_read:
  assumes "0 \<le> n" "n < 100"
  shows "length (two_digits n) = 2 \<and> int (read_nat (two_digits n)) = n"
proof (cases "n < 10")
  case True
  with assms show ?thesis
    using read_nat_zeros [of 1 "show_nat (nat n)"]
    by (simp add: two_digits_def show_nat.simps [of "nat n"] digit_char_def read_nat_def char_digit_def)
next
  case False
  then have "10 \<le> nat n" "nat n < 100" using assms by simp_all
  then have "show_nat (nat n) = [digit_char (nat n div 10), digit_char (nat n mod 10)]"
    "nat n div 10 < 10"
    by (simp_all add: show_nat.simps [of "nat n"] show_nat.simps [of "nat n div 10"])
  then show ?thesis using False assms by (simp add: two_digits_def) (simp add: read_nat_def)
qed

text \<open>A time in milliseconds is days, hours, minutes, seconds and a rest.\<close>

lemma time_fields:
  "t = t div 86400000 * 86400000 + HourFromTime t * 3600000 + MinFromTime t * 60000 + SecFromTime t * 1000 + t mod 1000"
proof -
  have "t div 1000 div 60 = t div 60000" "t div 60000 div 60 = t div 3600000" "t div 3600000 div 24 = t div 86400000"
    using zdiv_zmult2_eq [of 60 t 1000] zdiv_zmult2_eq [of 60 t 60000] zdiv_zmult2_eq [of 24 t 3600000] by simp_all
  then show ?thesis unfolding HourFromTime_def MinFromTime_def SecFromTime_def
    using div_mult_mod_eq [of t 1000] div_mult_mod_eq [of "t div 1000" 60] div_mult_mod_eq [of "t div 60000" 60]
      div_mult_mod_eq [of "t div 3600000" 24] by linarith
qed

lemma clock_digits:
  "length (two_digits (HourFromTime t)) = 2" "int (read_nat (two_digits (HourFromTime t))) = HourFromTime t"
  "length (two_digits (MinFromTime t)) = 2" "int (read_nat (two_digits (MinFromTime t))) = MinFromTime t"
  "length (two_digits (SecFromTime t)) = 2" "int (read_nat (two_digits (SecFromTime t))) = SecFromTime t"
  "HourFromTime t < 24" "MinFromTime t < 60" "SecFromTime t < 60"
proof -
  show r: "HourFromTime t < 24" "MinFromTime t < 60" "SecFromTime t < 60"
    by (simp_all add: HourFromTime_def MinFromTime_def SecFromTime_def)
  have "0 \<le> HourFromTime t" "0 \<le> MinFromTime t" "0 \<le> SecFromTime t"
    by (simp_all add: HourFromTime_def MinFromTime_def SecFromTime_def)
  with r show "length (two_digits (HourFromTime t)) = 2" "int (read_nat (two_digits (HourFromTime t))) = HourFromTime t"
    "length (two_digits (MinFromTime t)) = 2" "int (read_nat (two_digits (MinFromTime t))) = MinFromTime t"
    "length (two_digits (SecFromTime t)) = 2" "int (read_nat (two_digits (SecFromTime t))) = SecFromTime t"
    using two_digits_read by simp_all
qed

text \<open>The slice keeps the clock and drops the zone.\<close>

lemma fmtTime_clock:
  assumes "TimeClip ms = Some tv"
  shows "fmtTime tz ms = two_digits (HourFromTime (tv + tz)) @ '':'' @ two_digits (MinFromTime (tv + tz)) @ '':'' @
    two_digits (SecFromTime (tv + tz))"
  using clock_digits(1,3,5) [of "tv + tz"] by (simp add: fmtTime_def toTimeString_def assms Let_def)

text \<open>
  C40: for an instant that a date can hold, \<open>fmtTime\<close> prints eight characters \<open>HH:MM:SS\<close> that
  read back as the local time: with the hours below 24, the minutes and the seconds below
  60 they differ from the local instant by whole days and less than a second.
  Beyond \<open>8.64e15\<close> milliseconds it prints the first eight characters of \<open>Invalid Date\<close>.
\<close>

theorem fmtTime_roundtrip:
  "case TimeClip ms of
     None \<Rightarrow> fmtTime tz ms = ''Invalid '' \<and> \<bar>ms\<bar> > 8640000000000000
   | Some tv \<Rightarrow> \<bar>of_int tv - ms\<bar> < 1 \<and>
       (\<exists>h m s days rest. fmtTime tz ms = h @ '':'' @ m @ '':'' @ s \<and> length h = 2 \<and> length m = 2 \<and> length s = 2 \<and>
          read_nat h < 24 \<and> read_nat m < 60 \<and> read_nat s < 60 \<and> 0 \<le> rest \<and> rest < 1000 \<and>
          tv + tz = days * 86400000 + int (read_nat h) * 3600000 + int (read_nat m) * 60000 + int (read_nat s) * 1000 + rest)"
proof (cases "TimeClip ms")
  case None
  then show ?thesis by (auto simp: fmtTime_def toTimeString_def TimeClip_def MAX_TIME_def split: if_splits)
next
  case (Some tv)
  let ?t = "tv + tz"
  note d = clock_digits [of ?t]
  have "\<bar>of_int tv - ms\<bar> < 1"
    using Some floor_correct [of ms] ceiling_correct [of ms] by (auto simp: TimeClip_def split: if_splits)
  moreover have "?t = ?t div 86400000 * 86400000 + int (read_nat (two_digits (HourFromTime ?t))) * 3600000 +
      int (read_nat (two_digits (MinFromTime ?t))) * 60000 + int (read_nat (two_digits (SecFromTime ?t))) * 1000 + ?t mod 1000"
    unfolding d(2,4,6) by (rule time_fields)
  moreover have "0 \<le> ?t mod 1000" "?t mod 1000 < 1000" by simp_all
  moreover have "read_nat (two_digits (HourFromTime ?t)) < 24" "read_nat (two_digits (MinFromTime ?t)) < 60"
    "read_nat (two_digits (SecFromTime ?t)) < 60" using d(2,4,6-9) by linarith+
  ultimately show ?thesis unfolding Some option.case using fmtTime_clock [OF Some, of tz] d(1,3,5) by blast
qed

end
