(* ===== verification/WsClient.thy ===== *)
theory WsClient
  imports Format
begin

text \<open>
  \<open>hooks/useWebSocket.ts\<close>, the live data source: the message handler \<open>ws.onmessage\<close>,
  one function per branch, over the four pieces of React state it updates, its invariant,
  and its refinement of a specification that keeps everything. The life cycle of the
  socket is in \<open>WsLifecycle\<close>.

  Updater functions run once and in order, so a message is one atomic step. Each call of
  \<open>Date.now()\<close> is a clock reading of its own, passed to the handler; a text that
  \<open>JSON.parse\<close> refuses is the message \<open>None\<close>: the exception leaves the state as it was.
\<close>

section \<open>State and constants\<close>

record ws_state =
  snapshots :: SnapshotMap
  services :: ServiceMap
  conn_history :: HistoryMap
  events :: "SpikeEvent list"

definition MAX_HISTORY :: nat where
  "MAX_HISTORY = 3600"

definition MAX_EVENTS :: nat where
  "MAX_EVENTS = 100"

definition MAX_RESOURCE :: nat where
  "MAX_RESOURCE = 300"

text \<open>The three readings of \<open>Date.now()\<close> that a stats message can make.\<close>

record clocks =
  at_id :: int
  at_event :: int
  at_point :: int

section \<open>The message handler\<close>

definition make_event :: "clocks \<Rightarrow> string \<Rightarrow> StatSnapshot \<Rightarrow> SpikeEvent" where
  "make_event t key snap =
     \<lparr>ev_id = key @ ''-'' @ show_int (at_id t),
      ev_timestamp = of_int (at_event t),
      ev_key = key,
      ev_src = src_service snap,
      ev_dst = dst_service snap,
      ev_p99_us = p99_us snap,
      ev_baseline_us = nullish (baseline_us snap) (fdiv (spike_threshold_us snap) 3),
      ev_severity = (if p99_us snap > 80000 then Sev_critical else Sev_warning),
      ev_cause_kind = nullish (cause_kind snap) Cause_network,
      ev_dst_cpu_pct = nullish (dst_cpu_pct snap) 0,
      ev_dst_io_wait_pct = nullish (dst_io_wait_pct snap) 0,
      ev_dst_mem_pressure_pct = nullish (dst_mem_pressure_pct snap) 0\<rparr>"

definition rising :: "StatSnapshot option \<Rightarrow> StatSnapshot \<Rightarrow> bool" where
  "rising prevSnap snap \<longleftrightarrow> is_spike snap \<and> (\<exists>p. prevSnap = Some p \<and> \<not> is_spike p)"

definition set_snapshot :: "clocks \<Rightarrow> StatSnapshot \<Rightarrow> 'a ws_state_scheme \<Rightarrow> 'a ws_state_scheme" where
  "set_snapshot t snap st =
     (let key = snapKey snap; prevSnap = obj_get (snapshots st) key;
          st' = (if rising prevSnap snap
                 then st\<lparr>events := take MAX_EVENTS (make_event t key snap # events st)\<rparr> else st)
      in st'\<lparr>snapshots := obj_put key snap (snapshots st')\<rparr>)"

definition stat_point :: "int \<Rightarrow> StatSnapshot \<Rightarrow> HistoryPoint" where
  "stat_point now snap =
     \<lparr>hp_time = of_int now, hp_latest_srtt_us = latest_srtt_us snap, hp_avg_us = avg_us snap,
      hp_p50_us = p50_us snap, hp_p95_us = p95_us snap, hp_p99_us = p99_us snap,
      hp_jitter_us = jitter_us snap\<rparr>"

definition push_point :: "int \<Rightarrow> StatSnapshot \<Rightarrow> 'a ws_state_scheme \<Rightarrow> 'a ws_state_scheme" where
  "push_point now snap st =
     (let key = snapKey snap; existing = nullish (obj_get (conn_history st) key) []
      in st\<lparr>conn_history :=
           obj_put key (keep_last MAX_HISTORY (existing @ [stat_point now snap])) (conn_history st)\<rparr>)"

definition on_stats :: "clocks \<Rightarrow> StatSnapshot \<Rightarrow> 'a ws_state_scheme \<Rightarrow> 'a ws_state_scheme" where
  "on_stats t snap st = push_point (at_point t) snap (set_snapshot t snap st)"

definition copy_point :: "HistoryPoint \<Rightarrow> HistoryPoint" where
  "copy_point p =
     \<lparr>hp_time = hp_time p, hp_latest_srtt_us = hp_latest_srtt_us p, hp_avg_us = hp_avg_us p,
      hp_p50_us = hp_p50_us p, hp_p95_us = hp_p95_us p, hp_p99_us = hp_p99_us p,
      hp_jitter_us = hp_jitter_us p\<rparr>"

definition on_history :: "ConnHistory list \<Rightarrow> 'a ws_state_scheme \<Rightarrow> 'a ws_state_scheme" where
  "on_history conns st =
     st\<lparr>conn_history := obj_puts (map (\<lambda>c. (ch_key c, map copy_point (ch_points c))) conns) []\<rparr>"

definition resource_point :: "ResourceMsg \<Rightarrow> ResourcePoint" where
  "resource_point r =
     \<lparr>rp_time = rm_timestamp_ms r, rp_cpu_pct = rm_cpu_pct r, rp_io_wait_pct = rm_io_wait_pct r,
      rp_mem_pressure_pct = rm_mem_pressure_pct r, rp_cpu_throttle_pct = rm_cpu_throttle_pct r\<rparr>"

definition on_resource :: "ResourceMsg \<Rightarrow> 'a ws_state_scheme \<Rightarrow> 'a ws_state_scheme" where
  "on_resource r st =
     (let existing = obj_get (services st) (rm_service_name r);
          hist = keep_last MAX_RESOURCE (nullish (map_option sv_history existing) [] @ [resource_point r])
      in st\<lparr>services := obj_put (rm_service_name r)
           \<lparr>sv_name = rm_service_name r, sv_cpu_pct = rm_cpu_pct r, sv_io_wait_pct = rm_io_wait_pct r,
            sv_mem_pressure_pct = rm_mem_pressure_pct r, sv_cpu_throttle_pct = rm_cpu_throttle_pct r,
            sv_stress_kind = (case existing of None \<Rightarrow> None | Some e \<Rightarrow> sv_stress_kind e),
            sv_history = hist\<rparr> (services st)\<rparr>)"

definition on_remove :: "string \<Rightarrow> 'a ws_state_scheme \<Rightarrow> 'a ws_state_scheme" where
  "on_remove key st =
     st\<lparr>snapshots := obj_delete key (snapshots st), conn_history := obj_delete key (conn_history st)\<rparr>"

text \<open>The dispatch, in the order of the source; an empty \<open>remove_key\<close> is falsy.\<close>

definition onmessage :: "clocks \<Rightarrow> OutboundMsg option \<Rightarrow> 'a ws_state_scheme \<Rightarrow> 'a ws_state_scheme" where
  "onmessage t data st =
     (case data of None \<Rightarrow> st | Some msg \<Rightarrow>
        (if om_msg_type msg = Msg_stats \<and> om_stats msg \<noteq> None then on_stats t (the (om_stats msg)) st
         else if om_msg_type msg = Msg_history \<and> om_history msg \<noteq> None
           then on_history (the (om_history msg)) st
         else if om_msg_type msg = Msg_resource \<and> om_resource msg \<noteq> None
           then on_resource (the (om_resource msg)) st
         else if om_msg_type msg = Msg_remove \<and> nullish (om_remove_key msg) [] \<noteq> []
           then on_remove (the (om_remove_key msg)) st
         else st))"

definition ws_init :: ws_state where
  "ws_init = \<lparr>snapshots = [], services = [], conn_history = [], events = []\<rparr>"

type_synonym ws_input = "clocks \<times> OutboundMsg option"

text \<open>Handling a sequence of messages.\<close>

definition ws_run :: "ws_input list \<Rightarrow> 'a ws_state_scheme \<Rightarrow> 'a ws_state_scheme" where
  "ws_run ms st = fold (\<lambda>(t, d). onmessage t d) ms st"

section \<open>Well-formed state\<close>

text \<open>
  Every snapshot is stored under its own key and every service under its own name, an
  event's key is the key of its two services, and the event log and the resource histories
  are bounded.
\<close>

definition wf_service :: "string \<Rightarrow> ServiceSnapshot \<Rightarrow> bool" where
  "wf_service k v \<longleftrightarrow> sv_name v = k \<and> sv_stress_kind v = None \<and> sv_history v \<noteq> [] \<and>
     length (sv_history v) \<le> MAX_RESOURCE \<and>
     (let r = last (sv_history v) in rp_cpu_pct r = sv_cpu_pct v \<and> rp_io_wait_pct r = sv_io_wait_pct v \<and>
       rp_mem_pressure_pct r = sv_mem_pressure_pct v \<and> rp_cpu_throttle_pct r = sv_cpu_throttle_pct v)"

definition wf_event :: "SpikeEvent \<Rightarrow> bool" where
  "wf_event e \<longleftrightarrow> ev_key e = connKey (ev_src e) (ev_dst e) \<and>
     (ev_severity e = Sev_critical \<longleftrightarrow> ev_p99_us e > 80000)"

definition wf_ws :: "'a ws_state_scheme \<Rightarrow> bool" where
  "wf_ws st \<longleftrightarrow> wf_obj (snapshots st) \<and> wf_obj (services st) \<and> wf_obj (conn_history st) \<and>
     obj_all (\<lambda>k s. snapKey s = k) (snapshots st) \<and> obj_all wf_service (services st) \<and>
     length (events st) \<le> MAX_EVENTS \<and> list_all wf_event (events st)"

text \<open>The bound on the latency histories needs the server's histories to respect it too.\<close>

definition history_bounded :: "'a ws_state_scheme \<Rightarrow> bool" where
  "history_bounded st \<longleftrightarrow> obj_all (\<lambda>k ps. length ps \<le> MAX_HISTORY) (conn_history st)"

definition msg_bounded :: "ws_input \<Rightarrow> bool" where
  "msg_bounded m \<longleftrightarrow> (case snd m of None \<Rightarrow> True | Some msg \<Rightarrow>
     list_all (\<lambda>c. length (ch_points c) \<le> MAX_HISTORY) (nullish (om_history msg) []))"

section \<open>What a run computes\<close>

text \<open>
  The specification of the handler, by key and without bounds: the last snapshot of a
  connection, its whole list of points, the whole log of rising edges, the whole list of a
  service's readings. Each is a fold over the messages that looks at one key only.
\<close>

definition stats_of :: "ws_input \<Rightarrow> StatSnapshot option" where
  "stats_of m = Option.bind (snd m) (\<lambda>msg. if om_msg_type msg = Msg_stats then om_stats msg else None)"

definition history_of :: "ws_input \<Rightarrow> ConnHistory list option" where
  "history_of m = Option.bind (snd m) (\<lambda>msg. if om_msg_type msg = Msg_history then om_history msg else None)"

definition resource_of :: "ws_input \<Rightarrow> ResourceMsg option" where
  "resource_of m = Option.bind (snd m) (\<lambda>msg. if om_msg_type msg = Msg_resource then om_resource msg else None)"

definition remove_of :: "ws_input \<Rightarrow> string option" where
  "remove_of m = Option.bind (snd m)
     (\<lambda>msg. if om_msg_type msg = Msg_remove \<and> om_remove_key msg \<noteq> Some [] then om_remove_key msg else None)"

definition snap_after :: "string \<Rightarrow> ws_input \<Rightarrow> StatSnapshot option \<Rightarrow> StatSnapshot option" where
  "snap_after k m prev =
     (if remove_of m = Some k then None
      else if map_option snapKey (stats_of m) = Some k then stats_of m else prev)"

definition last_snapshot :: "string \<Rightarrow> ws_input list \<Rightarrow> StatSnapshot option" where
  "last_snapshot k ms = fold (snap_after k) ms None"

definition points_after :: "string \<Rightarrow> ws_input \<Rightarrow> HistoryPoint list option \<Rightarrow> HistoryPoint list option" where
  "points_after k m prev =
     (case history_of m of
        Some cs \<Rightarrow> map_option ch_points (find (\<lambda>c. ch_key c = k) (rev cs))
      | None \<Rightarrow>
          (if remove_of m = Some k then None
           else case stats_of m of
               None \<Rightarrow> prev
             | Some s \<Rightarrow> (if snapKey s = k then Some (nullish prev [] @ [stat_point (at_point (fst m)) s]) else prev)))"

definition all_points :: "string \<Rightarrow> ws_input list \<Rightarrow> HistoryPoint list option" where
  "all_points k ms = fold (points_after k) ms None"

definition edge_event :: "ws_input list \<Rightarrow> ws_input \<Rightarrow> SpikeEvent list" where
  "edge_event before m =
     (case stats_of m of None \<Rightarrow> []
      | Some s \<Rightarrow> (case last_snapshot (snapKey s) before of None \<Rightarrow> []
          | Some p \<Rightarrow> (if is_spike s \<and> \<not> is_spike p then [make_event (fst m) (snapKey s) s] else [])))"

definition spike_log :: "ws_input list \<Rightarrow> SpikeEvent list" where
  "spike_log ms = concat (map (\<lambda>i. edge_event (take i ms) (ms ! i)) [0..<length ms])"

definition readings :: "string \<Rightarrow> ws_input list \<Rightarrow> ResourceMsg list" where
  "readings n ms = filter (\<lambda>r. rm_service_name r = n) (concat (map (\<lambda>m. case resource_of m of None \<Rightarrow> [] | Some r \<Rightarrow> [r]) ms))"

definition service_after :: "string \<Rightarrow> ws_input list \<Rightarrow> ServiceSnapshot option" where
  "service_after n ms =
     (let rs = readings n ms in if rs = [] then None else
        Some \<lparr>sv_name = n, sv_cpu_pct = rm_cpu_pct (last rs), sv_io_wait_pct = rm_io_wait_pct (last rs),
          sv_mem_pressure_pct = rm_mem_pressure_pct (last rs),
          sv_cpu_throttle_pct = rm_cpu_throttle_pct (last rs), sv_stress_kind = None,
          sv_history = keep_last MAX_RESOURCE (map resource_point rs)\<rparr>)"

section \<open>Lemmas on one message\<close>

lemma copy_point_id [simp]: "copy_point p = p"
  by (simp add: copy_point_def)

lemmas ws_handlers [handler_defs] = on_stats_def set_snapshot_def push_point_def on_history_def
  on_resource_def on_remove_def Let_def

text \<open>The five ways a message can go, by what it carries.\<close>

lemma onmessage_cases:
  fixes st :: "'a ws_state_scheme"
  obtains (stats) s where "stats_of m = Some s" "history_of m = None" "resource_of m = None"
      "remove_of m = None" "onmessage (fst m) (snd m) st = on_stats (fst m) s st"
  | (history) cs where "stats_of m = None" "history_of m = Some cs" "resource_of m = None"
      "remove_of m = None" "onmessage (fst m) (snd m) st = on_history cs st"
  | (resource) r where "stats_of m = None" "history_of m = None" "resource_of m = Some r"
      "remove_of m = None" "onmessage (fst m) (snd m) st = on_resource r st"
  | (remove) k where "stats_of m = None" "history_of m = None" "resource_of m = None"
      "remove_of m = Some k" "onmessage (fst m) (snd m) st = on_remove k st"
  | (ignored) "stats_of m = None" "history_of m = None" "resource_of m = None"
      "remove_of m = None" "onmessage (fst m) (snd m) st = st"
proof (cases "snd m")
  case None
  then show ?thesis
    by (intro ignored) (simp_all add: stats_of_def history_of_def resource_of_def remove_of_def onmessage_def)
next
  case (Some msg)
  note d = stats_of_def history_of_def resource_of_def remove_of_def onmessage_def Some
  show ?thesis
  proof (cases "om_msg_type msg")
    case Msg_stats
    then show ?thesis by (cases "om_stats msg") (auto simp: d intro: stats ignored)
  next
    case Msg_event
    then show ?thesis by (intro ignored) (simp_all add: d)
  next
    case Msg_remove
    show ?thesis
    proof (cases "nullish (om_remove_key msg) [] = []")
      case True
      with Msg_remove show ?thesis
        by (intro ignored) (auto simp: d nullish_def split: option.splits)
    next
      case False
      then obtain k where "om_remove_key msg = Some k" "k \<noteq> []"
        by (auto simp: nullish_def split: option.splits)
      with Msg_remove show ?thesis by (intro remove [of k]) (simp_all add: d)
    qed
  next
    case Msg_history
    then show ?thesis by (cases "om_history msg") (auto simp: d intro: history ignored)
  next
    case Msg_resource
    then show ?thesis by (cases "om_resource msg") (auto simp: d intro: resource ignored)
  qed
qed

lemma snapshots_set_snapshot [simp]:
  "snapshots (set_snapshot t s st) = obj_put (snapKey s) s (snapshots st)"
  by (simp add: handler_defs)

lemma events_set_snapshot [simp]:
  "events (set_snapshot t s st) =
    (if rising (obj_get (snapshots st) (snapKey s)) s
     then take MAX_EVENTS (make_event t (snapKey s) s # events st) else events st)"
  by (simp add: handler_defs)

lemma others_set_snapshot [simp]:
  "services (set_snapshot t s st) = services st" "conn_history (set_snapshot t s st) = conn_history st"
  by (simp_all add: handler_defs)

lemma push_point_fields [simp]:
  "snapshots (push_point now s st) = snapshots st" "services (push_point now s st) = services st"
  "events (push_point now s st) = events st"
  "conn_history (push_point now s st) = obj_put (snapKey s)
     (keep_last MAX_HISTORY (nullish (obj_get (conn_history st) (snapKey s)) [] @ [stat_point now s]))
     (conn_history st)"
  by (simp_all add: handler_defs)

lemma on_resource_fields [simp]:
  "snapshots (on_resource r st) = snapshots st" "events (on_resource r st) = events st"
  "conn_history (on_resource r st) = conn_history st"
  by (simp_all add: handler_defs)

lemma on_history_fields [simp]:
  "snapshots (on_history cs st) = snapshots st" "services (on_history cs st) = services st"
  "events (on_history cs st) = events st"
  by (simp_all add: handler_defs)

lemma on_remove_fields [simp]:
  "snapshots (on_remove k st) = obj_delete k (snapshots st)"
  "conn_history (on_remove k st) = obj_delete k (conn_history st)"
  "services (on_remove k st) = services st" "events (on_remove k st) = events st"
  by (simp_all add: handler_defs)

lemma map_of_find: "map_of (map (\<lambda>x. (f x, g x)) xs) k = map_option g (find (\<lambda>x. f x = k) xs)"
  by (induction xs) auto

lemma get_on_history: "obj_get (conn_history (on_history cs st)) k =
    map_option ch_points (find (\<lambda>c. ch_key c = k) (rev cs))"
  by (simp add: on_history_def obj_get_puts rev_map map_of_find map_idI split: option.splits)

lemma ws_run_snoc: "ws_run (ms @ [m]) st = onmessage (fst m) (snd m) (ws_run ms st)"
  by (simp add: ws_run_def case_prod_beta)

lemma ws_run_Nil [simp]: "ws_run [] st = st"
  by (simp add: ws_run_def)

section \<open>The invariant\<close>

lemma wf_make_event: "wf_event (make_event t (snapKey s) s)"
  by (simp add: wf_event_def make_event_def snapKey_def)

lemma wf_service_on_resource:
  assumes "obj_all wf_service (services st)"
  shows "obj_all wf_service (services (on_resource r st))"
proof -
  have "wf_service (rm_service_name r) e" if "obj_get (services st) (rm_service_name r) = Some e" for e
    using obj_all_get [OF assms that] .
  then show ?thesis unfolding on_resource_def Let_def
    by (auto intro!: obj_all_put assms
        simp: wf_service_def last_keep_last MAX_RESOURCE_def resource_point_def split: option.splits)
qed

lemma wf_ws_onmessage:
  assumes "wf_ws st"
  shows "wf_ws (onmessage (fst m) (snd m) st)"
proof (cases rule: onmessage_cases [of m st])
  case (stats s)
  with assms show ?thesis unfolding wf_ws_def on_stats_def
    by (auto intro: obj_all_put wf_make_event list_all_take_Cons)
next
  case (history cs)
  with assms show ?thesis unfolding wf_ws_def by (simp add: on_history_def)
next
  case (resource r)
  with assms show ?thesis unfolding wf_ws_def
    using wf_service_on_resource [of st r] by (simp add: on_resource_def Let_def)
next
  case (remove k)
  with assms show ?thesis unfolding wf_ws_def by (simp add: obj_all_delete)
qed (use assms in simp)

lemma wf_ws_init: "wf_ws ws_init"
  by (simp add: wf_ws_def ws_init_def)

text \<open>
  C23: after any sequence of messages the client's state is well-formed: the maps have no
  duplicate keys, each snapshot is stored under the key of its own two services and each
  service under its name with readings that agree with the last point of its history, the
  resource histories hold 1 to 300 points, and the log holds at most 100 events, each with
  the key of its services and the severity of its p99. The stress field of a live service
  is always \<open>null\<close>.
\<close>

theorem ws_run_wf: "wf_ws (ws_run ms ws_init)"
  by (induction ms rule: rev_induct) (simp_all add: wf_ws_init ws_run_snoc wf_ws_onmessage)

lemma history_bounded_onmessage:
  assumes "history_bounded st" "msg_bounded m"
  shows "history_bounded (onmessage (fst m) (snd m) st)"
proof (cases rule: onmessage_cases [of m st])
  case (stats s)
  with assms show ?thesis by (auto simp: history_bounded_def on_stats_def intro: obj_all_put)
next
  case (history cs)
  then have "list_all (\<lambda>c. length (ch_points c) \<le> MAX_HISTORY) cs"
    using assms(2) by (auto simp: msg_bounded_def history_of_def split: option.splits if_splits)
  then show ?thesis unfolding history(5) history_bounded_def on_history_def
    by (auto intro!: obj_all_puts simp: list_all_iff)
qed (use assms in \<open>auto simp: history_bounded_def intro: obj_all_delete\<close>)

text \<open>
  No latency history ever holds more than 3600 points, provided the histories the
  server sends do not.
\<close>

lemma ws_run_history_bounded:
  assumes "list_all msg_bounded ms"
  shows "history_bounded (ws_run ms ws_init)"
  using assms
proof (induction ms rule: rev_induct)
  case Nil
  show ?case by (simp add: history_bounded_def ws_init_def)
qed (simp add: ws_run_snoc history_bounded_onmessage)

text \<open>Sample messages, for the concrete instances below.\<close>

definition empty_msg :: "MsgType \<Rightarrow> OutboundMsg" where
  "empty_msg k = \<lparr>om_msg_type = k, om_stats = None, om_remove_key = None, om_history = None,
     om_resource = None\<rparr>"

definition stats_msg :: "int \<Rightarrow> StatSnapshot \<Rightarrow> ws_input" where
  "stats_msg t s = (\<lparr>at_id = t, at_event = t, at_point = t\<rparr>,
     Some ((empty_msg Msg_stats)\<lparr>om_stats := Some s\<rparr>))"

definition history_msg :: "ConnHistory list \<Rightarrow> ws_input" where
  "history_msg cs = (\<lparr>at_id = 0, at_event = 0, at_point = 0\<rparr>,
     Some ((empty_msg Msg_history)\<lparr>om_history := Some cs\<rparr>))"

definition remove_msg :: "string \<Rightarrow> ws_input" where
  "remove_msg k = (\<lparr>at_id = 0, at_event = 0, at_point = 0\<rparr>,
     Some ((empty_msg Msg_remove)\<lparr>om_remove_key := Some k\<rparr>))"

lemmas sample_defs = sample_snap_def empty_msg_def stats_msg_def history_msg_def remove_msg_def

section \<open>Refinement of the unbounded specification\<close>

lemma snapshots_refine:
  "obj_get (snapshots (ws_run ms ws_init)) k = last_snapshot k ms"
proof (induction ms rule: rev_induct)
  case (snoc m ms)
  then show ?case
    by (cases rule: onmessage_cases [of m "ws_run ms ws_init"])
      (auto simp: ws_run_snoc last_snapshot_def snap_after_def on_stats_def)
qed (simp add: ws_init_def last_snapshot_def)

lemma spike_log_snoc: "spike_log (ms @ [m]) = spike_log ms @ edge_event ms m"
proof -
  have eq: "map (\<lambda>i. edge_event (take i (ms @ [m])) ((ms @ [m]) ! i)) [0..<length ms] =
      map (\<lambda>i. edge_event (take i ms) (ms ! i)) [0..<length ms]"
    by (rule map_cong) (simp_all add: nth_append)
  have "[0..<length (ms @ [m])] = [0..<length ms] @ [length ms]" by simp
  then show ?thesis unfolding spike_log_def by (simp only: map_append concat_append eq) simp
qed

lemma events_log:
  "events (ws_run ms ws_init) = take MAX_EVENTS (rev (spike_log ms))"
proof (induction ms rule: rev_induct)
  case (snoc m ms)
  show ?case
  proof (cases rule: onmessage_cases [of m "ws_run ms ws_init"])
    case (stats s)
    with snoc show ?thesis
      by (auto simp: ws_run_snoc spike_log_snoc edge_event_def on_stats_def snapshots_refine rising_def
          take_push simp del: take_append split: option.splits)
  qed (simp_all add: ws_run_snoc spike_log_snoc edge_event_def snoc)
qed (simp add: ws_init_def spike_log_def)

text \<open>
  C1: the event log is exactly the newest hundred rising edges. An edge is a stats message
  with \<open>is_spike\<close> set whose connection has a current snapshot (after removals) with
  \<open>is_spike\<close> clear; none is missed, none is reported twice, and the newest comes first.
\<close>

theorem events_refine:
  "events (ws_run ms ws_init) = take MAX_EVENTS (rev (spike_log ms))"
  by (rule events_log)

lemma history_log:
  "rel_option (tail_of MAX_HISTORY) (obj_get (conn_history (ws_run ms ws_init)) k) (all_points k ms)"
proof (induction ms rule: rev_induct)
  case (snoc m ms)
  have refl: "rel_option (tail_of n) x x" for n and x :: "'b list option" by (cases x) simp_all
  have eq: "all_points k (ms @ [m]) = points_after k m (all_points k ms)"
    by (simp add: all_points_def)
  show ?case
  proof (cases rule: onmessage_cases [of m "ws_run ms ws_init"])
    case (stats s)
    have "tail_of MAX_HISTORY (keep_last MAX_HISTORY (nullish x [] @ [p])) (nullish y [] @ [p])"
      if "rel_option (tail_of MAX_HISTORY) x y" for x y and p :: HistoryPoint
      using that by (cases x; cases y) (auto intro!: tail_of_push simp del: append_Nil)
    with snoc stats show ?thesis unfolding eq by (simp add: ws_run_snoc points_after_def on_stats_def)
  next
    case (history cs)
    then show ?thesis unfolding eq by (simp add: ws_run_snoc points_after_def get_on_history refl)
  qed (use snoc in \<open>simp_all add: eq ws_run_snoc points_after_def\<close>)
qed (simp add: ws_init_def all_points_def)

text \<open>
  C2: the latency history of a connection refines the full list of points it has received
  since the last \<open>history\<close> or \<open>remove\<close> message: it exists for the same connections, it is
  a suffix of that list, and it agrees with it on the last 3600 points. Nothing a chart can
  show is lost, reordered or attributed to another connection.
\<close>

theorem history_refine:
  "rel_option (tail_of MAX_HISTORY) (obj_get (conn_history (ws_run ms ws_init)) k) (all_points k ms)"
  by (rule history_log)

lemma readings_snoc: "readings n (ms @ [m]) = readings n ms @
    (case resource_of m of None \<Rightarrow> [] | Some r \<Rightarrow> if rm_service_name r = n then [r] else [])"
  by (simp add: readings_def split: option.splits)

lemma services_log: "obj_get (services (ws_run ms ws_init)) n = service_after n ms"
proof (induction ms rule: rev_induct)
  case (snoc m ms)
  show ?case
  proof (cases rule: onmessage_cases [of m "ws_run ms ws_init"])
    case (resource r)
    with snoc show ?thesis
      by (auto simp: ws_run_snoc readings_snoc on_resource_def service_after_def Let_def keep_last_push)
  qed (use snoc in \<open>simp_all add: ws_run_snoc service_after_def readings_snoc on_stats_def\<close>)
qed (simp add: ws_init_def service_after_def readings_def)

text \<open>
  C5: a service is known exactly when a resource message has named it; it then carries the
  values of the last such message and the points of the last 300, whatever other messages
  came between (a \<open>remove\<close> message does not touch it).
\<close>

theorem services_refine:
  "obj_get (services (ws_run ms ws_init)) n =
    (let rs = readings n ms in if rs = [] then None else
       Some \<lparr>sv_name = n, sv_cpu_pct = rm_cpu_pct (last rs), sv_io_wait_pct = rm_io_wait_pct (last rs),
         sv_mem_pressure_pct = rm_mem_pressure_pct (last rs),
         sv_cpu_throttle_pct = rm_cpu_throttle_pct (last rs), sv_stress_kind = None,
         sv_history = keep_last MAX_RESOURCE (map resource_point rs)\<rparr>)"
  by (simp add: services_log service_after_def)

end
