(* ===== verification/WsLifecycle.thy ===== *)
theory WsLifecycle
  imports WsClient
begin

text \<open>
  \<open>hooks/useWebSocket.ts\<close>, the life cycle of the socket: open, message, close, the
  two-second reconnect timer and the cleanup of the effect as a step relation over the
  hook's state, labelled by the event that causes the step, in which a message step runs the
  handler of \<open>WsClient\<close>. What the browser does is that of the WebSocket standard: a socket may
  fail while it is still connecting, which is a close; messages are delivered to an open socket
  only; \<open>close()\<close> puts the socket into the state closing, and its close event is
  delivered later, in a step of its own, to the handler that is attached then. The theorems are the
  invariant of the mounted hook, the data it holds against the messages received, recovery,
  and what a cleanup leaves behind.
\<close>

section \<open>The socket's life cycle\<close>

datatype sock_status = Connecting | Open | Closing | Closed

record socket =
  so_status :: sock_status
  so_onclose :: bool

record ws_hook = ws_state +
  connected :: bool
  wsRef :: "nat option"
  sockets :: "socket list"
  timers :: nat
  mounted :: bool

text \<open>\<open>connect()\<close>: a new socket with its handlers, remembered in \<open>wsRef\<close>.\<close>

definition connect :: "ws_hook \<Rightarrow> ws_hook" where
  "connect h = h\<lparr>sockets := sockets h @ [\<lparr>so_status = Connecting, so_onclose = True\<rparr>],
                 wsRef := Some (length (sockets h))\<rparr>"

text \<open>The effect's first run.\<close>

definition ws_mount :: ws_hook where
  "ws_mount = connect (ws_state.extend ws_init
     \<lparr>connected = False, wsRef = None, sockets = [], timers = 0, mounted = True\<rparr>)"

definition set_status :: "nat \<Rightarrow> sock_status \<Rightarrow> ws_hook \<Rightarrow> ws_hook" where
  "set_status i s h = h\<lparr>sockets := (sockets h)[i := (sockets h ! i)\<lparr>so_status := s\<rparr>]\<rparr>"

definition onopen :: "nat \<Rightarrow> ws_hook \<Rightarrow> ws_hook" where
  "onopen i h = (set_status i Open h)\<lparr>connected := True\<rparr>"

text \<open>
  The close event: the socket is closed, and \<open>onclose\<close>, when it is still attached, starts
  the reconnect timer.
\<close>

definition onclose :: "nat \<Rightarrow> ws_hook \<Rightarrow> ws_hook" where
  "onclose i h =
     (let h' = set_status i Closed h
      in if so_onclose (sockets h ! i) then h'\<lparr>connected := False, timers := Suc (timers h)\<rparr> else h')"

definition timer_fires :: "ws_hook \<Rightarrow> ws_hook" where
  "timer_fires h = connect (h\<lparr>timers := timers h - 1\<rparr>)"

text \<open>
  The method \<open>close()\<close> of a socket. The cleanup: detach \<open>onclose\<close>, close the socket, forget
  it. The close event of the socket is still to come.
\<close>

definition close_socket :: "socket \<Rightarrow> socket" where
  "close_socket s = (if so_status s = Closed then s else s\<lparr>so_status := Closing\<rparr>)"

definition unmount :: "ws_hook \<Rightarrow> ws_hook" where
  "unmount h =
     (case wsRef h of None \<Rightarrow> h\<lparr>mounted := False\<rparr>
      | Some i \<Rightarrow> h\<lparr>sockets := (sockets h)[i := close_socket ((sockets h ! i)\<lparr>so_onclose := False\<rparr>)],
                   wsRef := None, mounted := False\<rparr>)"

definition is_live :: "socket \<Rightarrow> bool" where
  "is_live s \<longleftrightarrow> so_status s = Connecting \<or> so_status s = Open"

definition live :: "ws_hook \<Rightarrow> nat \<Rightarrow> bool" where
  "live h i \<longleftrightarrow> i < length (sockets h) \<and> is_live (sockets h ! i)"

text \<open>
  The events of the life cycle and the step each one causes. A close event comes to every
  socket that is not closed yet, to one that is closing too.
\<close>

datatype ws_ev =
    Sock_open nat
  | Sock_message nat clocks "OutboundMsg option"
  | Sock_close nat
  | Reconnect_timer
  | Cleanup

inductive ws_trans :: "ws_hook \<Rightarrow> ws_ev \<Rightarrow> ws_hook \<Rightarrow> bool" where
  opened: "i < length (sockets h) \<Longrightarrow> so_status (sockets h ! i) = Connecting \<Longrightarrow>
    ws_trans h (Sock_open i) (onopen i h)"
| received: "i < length (sockets h) \<Longrightarrow> so_status (sockets h ! i) = Open \<Longrightarrow>
    ws_trans h (Sock_message i t d) (onmessage t d h)"
| closed: "i < length (sockets h) \<Longrightarrow> so_status (sockets h ! i) \<noteq> Closed \<Longrightarrow>
    ws_trans h (Sock_close i) (onclose i h)"
| timeout: "0 < timers h \<Longrightarrow> ws_trans h Reconnect_timer (timer_fires h)"
| cleanup: "mounted h \<Longrightarrow> ws_trans h Cleanup (unmount h)"

inductive_cases ws_transE: "ws_trans h e h'"

definition ws_step :: "ws_hook \<Rightarrow> ws_hook \<Rightarrow> bool" where
  "ws_step h h' \<longleftrightarrow> (\<exists>e. ws_trans h e h')"

inductive ws_reach :: "ws_hook \<Rightarrow> bool" where
  mount: "ws_reach ws_mount"
| step: "ws_reach h \<Longrightarrow> ws_step h h' \<Longrightarrow> ws_reach h'"

text \<open>A run of the hook from its mount, with the events that happened in it.\<close>

inductive ws_trace :: "ws_ev list \<Rightarrow> ws_hook \<Rightarrow> bool" where
  start: "ws_trace [] ws_mount"
| event: "ws_trace evs h \<Longrightarrow> ws_trans h e h' \<Longrightarrow> ws_trace (evs @ [e]) h'"

lemma ws_step_trans: "ws_trans h e h' \<Longrightarrow> ws_step h h'"
  unfolding ws_step_def by blast

lemma ws_reach_trace: "ws_reach h \<longleftrightarrow> (\<exists>evs. ws_trace evs h)"
proof
  show "ws_reach h \<Longrightarrow> \<exists>evs. ws_trace evs h"
    by (induction rule: ws_reach.induct) (auto simp: ws_step_def intro: ws_trace.start dest: ws_trace.event)
  have "ws_trace evs h \<Longrightarrow> ws_reach h" for evs
    by (induction rule: ws_trace.induct) (auto intro: ws_reach.intros ws_step_trans)
  then show "\<exists>evs. ws_trace evs h \<Longrightarrow> ws_reach h" by blast
qed

section \<open>The invariant of the life cycle\<close>

definition live_count :: "ws_hook \<Rightarrow> nat" where
  "live_count h = length (filter is_live (sockets h))"

text \<open>
  The invariant: one socket or one pending timer in all, exactly one of them while mounted;
  every live socket still has its \<open>onclose\<close> and a closing one has lost it; \<open>wsRef\<close> is the
  live socket when there is one, and \<open>connected\<close> is the truth about it.
\<close>

definition ws_inv :: "ws_hook \<Rightarrow> bool" where
  "ws_inv h \<longleftrightarrow> timers h + live_count h \<le> 1 \<and>
     (\<forall>s \<in> set (sockets h). (is_live s \<longrightarrow> so_onclose s) \<and> (so_status s = Closing \<longrightarrow> \<not> so_onclose s)) \<and>
     (mounted h \<longrightarrow> timers h + live_count h = 1 \<and>
        (\<exists>i < length (sockets h). wsRef h = Some i \<and> (live_count h = 1 \<longrightarrow> is_live (sockets h ! i))) \<and>
        (connected h \<longleftrightarrow> (\<exists>s \<in> set (sockets h). so_status s = Open)))"

lemma live_is_live: "live h i \<longleftrightarrow> i < length (sockets h) \<and> is_live (sockets h ! i)"
  by (simp add: live_def)

text \<open>With one live socket, an index that is live is the only one.\<close>

lemma one_live:
  assumes "live_count h \<le> 1" "live h i" "live h j"
  shows "i = j"
proof -
  have "{i, j} \<subseteq> {k. k < length (sockets h) \<and> is_live (sockets h ! k)}"
    using assms(2,3) by (simp add: live_is_live)
  then have "card {i, j} \<le> live_count h"
    unfolding live_count_def length_filter_conv_card by (intro card_mono) simp_all
  with assms(1) show ?thesis by (cases "i = j") simp_all
qed

lemma open_socket_index:
  "(\<exists>s \<in> set (sockets h). so_status s = Open) \<longleftrightarrow> (\<exists>i. live h i \<and> so_status (sockets h ! i) = Open)"
  unfolding live_def is_live_def by (metis in_set_conv_nth)

lemma live_count_pos: "live h i \<Longrightarrow> 0 < live_count h"
  unfolding live_count_def live_is_live length_filter_pos by auto

lemma live_count_update:
  "live h i \<Longrightarrow> length (filter is_live ((sockets h)[i := s])) =
    (if is_live s then live_count h else live_count h - 1)"
  unfolding live_count_def live_is_live
  using length_filter_update [of i "sockets h" is_live s] by (simp split: if_splits)

lemma ws_inv_live:
  assumes "ws_inv h" "live h i"
  shows "timers h = 0" "live_count h = 1" "so_onclose (sockets h ! i)"
    "mounted h \<Longrightarrow> wsRef h = Some i"
    "mounted h \<Longrightarrow> connected h \<longleftrightarrow> so_status (sockets h ! i) = Open"
proof -
  show t: "timers h = 0" and c: "live_count h = 1"
    using assms(1) live_count_pos [OF assms(2)] unfolding ws_inv_def by linarith+
  show "so_onclose (sockets h ! i)" using assms unfolding ws_inv_def live_is_live by simp
  have only: "j = i" if "live h j" for j using one_live [of h j i] that assms(2) c by simp
  assume m: "mounted h"
  then obtain j where "wsRef h = Some j" "live h j"
    using assms(1) c unfolding ws_inv_def live_is_live by auto
  with only show "wsRef h = Some i" by simp
  have "(\<exists>s \<in> set (sockets h). so_status s = Open) \<longleftrightarrow> so_status (sockets h ! i) = Open"
    using only assms(2) unfolding open_socket_index by metis
  then show "connected h \<longleftrightarrow> so_status (sockets h ! i) = Open"
    using assms(1) m unfolding ws_inv_def by simp
qed

lemma all_update: "\<forall>x \<in> set xs. P x \<Longrightarrow> P y \<Longrightarrow> \<forall>x \<in> set (xs[i := y]). P x"
  using set_update_subset_insert [of xs i y] by auto

lemma ex_update_same:
  assumes "i < length xs" "P y \<longleftrightarrow> P (xs ! i)"
  shows "(\<exists>x \<in> set (xs[i := y]). P x) \<longleftrightarrow> (\<exists>x \<in> set xs. P x)"
proof -
  have "P (xs[i := y] ! j) \<longleftrightarrow> P (xs ! j)" for j using assms by (cases "i = j") simp_all
  then show ?thesis by (simp add: set_conv_nth Bex_def) metis
qed

lemma ws_inv_mount: "ws_inv ws_mount"
  by (auto simp: ws_inv_def ws_mount_def connect_def live_count_def is_live_def ws_state.defs)

lemma ws_inv_connect:
  assumes "ws_inv h" "timers h = 1"
  shows "ws_inv (timer_fires h)"
  using assms unfolding ws_inv_def
  by (auto simp: timer_fires_def connect_def live_count_def is_live_def filter_empty_conv)

lemma onmessage_hook [simp]:
  "connected (onmessage t d h) = connected h" "wsRef (onmessage t d h) = wsRef h"
  "sockets (onmessage t d h) = sockets h" "timers (onmessage t d h) = timers h"
  "mounted (onmessage t d h) = mounted h"
  by (simp_all add: onmessage_def handler_defs split: option.split)

lemma ws_inv_onmessage: "ws_inv h \<Longrightarrow> ws_inv (onmessage t d h)"
  by (simp add: ws_inv_def live_count_def)

lemma ws_inv_onopen:
  assumes "ws_inv h" "live h i"
  shows "ws_inv (onopen i h)"
proof -
  let ?s = "(sockets h ! i)\<lparr>so_status := Open\<rparr>"
  have l: "is_live ?s" by (simp add: is_live_def)
  have "live_count (onopen i h) = live_count h"
    using live_count_update [OF assms(2), of ?s] l by (simp add: onopen_def set_status_def live_count_def)
  moreover have "\<forall>s \<in> set ((sockets h)[i := ?s]).
      (is_live s \<longrightarrow> so_onclose s) \<and> (so_status s = Closing \<longrightarrow> \<not> so_onclose s)"
    using assms ws_inv_live(3) [OF assms] by (intro all_update) (simp_all add: ws_inv_def)
  moreover have "\<exists>s \<in> set ((sockets h)[i := ?s]). so_status s = Open"
    using assms(2) by (intro bexI [of _ ?s]) (simp_all add: live_def set_update_memI)
  ultimately show ?thesis using assms l ws_inv_live [OF assms] unfolding ws_inv_def live_def
    by (auto simp: onopen_def set_status_def)
qed

lemma no_live_left:
  assumes "live_count h = 1" "live h i" "\<not> is_live s"
  shows "live_count (h\<lparr>sockets := (sockets h)[i := s]\<rparr>) = 0" "\<forall>s' \<in> set ((sockets h)[i := s]). \<not> is_live s'"
proof -
  show "live_count (h\<lparr>sockets := (sockets h)[i := s]\<rparr>) = 0"
    using live_count_update [OF assms(2), of s] assms(1,3) by (simp add: live_count_def)
  then show "\<forall>s' \<in> set ((sockets h)[i := s]). \<not> is_live s'"
    by (simp add: live_count_def filter_empty_conv)
qed

lemma ws_inv_onclose:
  assumes "ws_inv h" "live h i"
  shows "ws_inv (onclose i h)"
proof -
  let ?s = "(sockets h ! i)\<lparr>so_status := Closed\<rparr>"
  note l = ws_inv_live [OF assms]
  have d: "\<not> is_live ?s" by (simp add: is_live_def)
  note n = no_live_left [OF l(2) assms(2) d]
  have "\<forall>s \<in> set ((sockets h)[i := ?s]).
      (is_live s \<longrightarrow> so_onclose s) \<and> (so_status s = Closing \<longrightarrow> \<not> so_onclose s)"
    using assms(1) d by (intro all_update) (simp_all add: ws_inv_def)
  moreover have "\<not> (\<exists>s \<in> set ((sockets h)[i := ?s]). so_status s = Open)"
    using n(2) by (auto simp: is_live_def)
  ultimately show ?thesis using n(1) l assms unfolding ws_inv_def live_def
    by (auto simp: onclose_def set_status_def live_count_def)
qed

text \<open>The close event of a closing socket reaches no handler: only the socket changes.\<close>

lemma late_close:
  assumes "ws_inv h" "i < length (sockets h)" "so_status (sockets h ! i) = Closing"
  shows "onclose i h = set_status i Closed h"
  using assms unfolding ws_inv_def onclose_def by (simp add: Let_def)

lemma ws_inv_late_close:
  assumes "ws_inv h" "i < length (sockets h)" "so_status (sockets h ! i) = Closing"
  shows "ws_inv (onclose i h)"
proof -
  let ?s = "(sockets h ! i)\<lparr>so_status := Closed\<rparr>"
  have d: "\<not> is_live ?s" "\<not> is_live (sockets h ! i)" using assms(3) by (simp_all add: is_live_def)
  have c: "live_count (set_status i Closed h) = live_count h"
    using length_filter_update [OF assms(2), of is_live ?s] d by (simp add: set_status_def live_count_def)
  have "\<forall>s \<in> set ((sockets h)[i := ?s]).
      (is_live s \<longrightarrow> so_onclose s) \<and> (so_status s = Closing \<longrightarrow> \<not> so_onclose s)"
    using assms(1) d by (intro all_update) (simp_all add: ws_inv_def)
  moreover have "(\<exists>s \<in> set ((sockets h)[i := ?s]). so_status s = Open) \<longleftrightarrow>
      (\<exists>s \<in> set (sockets h). so_status s = Open)"
    using assms(2,3) by (intro ex_update_same) simp_all
  moreover have "is_live ((sockets h)[i := ?s] ! j) \<longleftrightarrow> is_live (sockets h ! j)" for j
    using d assms(2) by (cases "i = j") simp_all
  ultimately show ?thesis using assms(1) c unfolding late_close [OF assms] ws_inv_def
    by (auto simp: set_status_def)
qed

lemma ws_inv_unmount:
  assumes "ws_inv h" "mounted h"
  shows "ws_inv (unmount h)"
proof -
  obtain i where i: "wsRef h = Some i" "i < length (sockets h)"
    "live_count h = 1 \<longrightarrow> is_live (sockets h ! i)" using assms unfolding ws_inv_def by auto
  let ?s = "close_socket ((sockets h ! i)\<lparr>so_onclose := False\<rparr>)"
  have d: "\<not> is_live ?s" "\<not> so_onclose ?s" by (simp_all add: is_live_def close_socket_def)
  have "live_count (unmount h) \<le> live_count h"
    using length_filter_update [OF i(2), of is_live ?s] d i(1)
    by (simp add: unmount_def live_count_def)
  moreover have "\<forall>s \<in> set ((sockets h)[i := ?s]).
      (is_live s \<longrightarrow> so_onclose s) \<and> (so_status s = Closing \<longrightarrow> \<not> so_onclose s)"
    using assms(1) d by (intro all_update) (simp_all add: ws_inv_def)
  ultimately show ?thesis using assms i(1) unfolding ws_inv_def by (simp add: unmount_def)
qed

lemma ws_inv_trans: "ws_trans h e h' \<Longrightarrow> ws_inv h \<Longrightarrow> ws_inv h'"
proof (induction rule: ws_trans.induct)
  case (timeout h)
  then have "timers h = 1" unfolding ws_inv_def by linarith
  with timeout show ?case by (simp add: ws_inv_connect)
next
  case (closed i h)
  show ?case
  proof (cases "live h i")
    case False
    with closed have "so_status (sockets h ! i) = Closing"
      by (cases "so_status (sockets h ! i)") (simp_all add: live_def is_live_def)
    with closed show ?thesis by (simp add: ws_inv_late_close)
  qed (simp add: closed ws_inv_onclose)
qed (simp_all add: ws_inv_onopen ws_inv_onmessage ws_inv_unmount live_def is_live_def)

lemma ws_inv_step: "ws_step h h' \<Longrightarrow> ws_inv h \<Longrightarrow> ws_inv h'"
  unfolding ws_step_def using ws_inv_trans by blast

lemma ws_reach_inv: "ws_reach h \<Longrightarrow> ws_inv h"
  by (induction rule: ws_reach.induct) (simp_all add: ws_inv_mount ws_inv_step)

lemma mount_socket: "sockets ws_mount = [\<lparr>so_status = Connecting, so_onclose = True\<rparr>]"
  by (simp add: ws_mount_def connect_def ws_state.defs)

lemma trace_opened: "ws_trace [Sock_open 0] (onopen 0 ws_mount)"
  using ws_trace.event [OF ws_trace.start ws_trans.opened [of 0]] by (simp add: mount_socket)

lemma opened_once: "ws_reach (onopen 0 ws_mount)"
  using trace_opened ws_reach_trace by blast

text \<open>
  C3: while the hook is mounted there is, at every moment, exactly one connection attempt:
  either one socket that is connecting or open, which is the one in \<open>wsRef\<close>, or one pending
  reconnect timer. The \<open>connected\<close> flag shown to the user is true exactly when that socket
  is open.
\<close>

theorem ws_single_connection:
  assumes "ws_reach h" "mounted h"
  shows "timers h + live_count h = 1 \<and>
    (connected h \<longleftrightarrow> (\<exists>i. wsRef h = Some i \<and> live h i \<and> so_status (sockets h ! i) = Open))"
proof -
  have inv: "ws_inv h" using assms(1) by (rule ws_reach_inv)
  moreover have "wsRef h = Some i" if "live h i" for i using ws_inv_live(4) [OF inv that assms(2)] .
  ultimately show ?thesis using assms(2) unfolding ws_inv_def open_socket_index by auto
qed

theorem ws_single_connection_witness:
  "timers (onopen 0 ws_mount) + live_count (onopen 0 ws_mount) = 1 \<and> connected (onopen 0 ws_mount)"
proof -
  have "ws_reach (onopen 0 ws_mount)" by (rule opened_once)
  moreover have "mounted (onopen 0 ws_mount)"
    by (simp add: onopen_def set_status_def ws_mount_def connect_def ws_state.defs)
  ultimately show ?thesis using ws_single_connection [of "onopen 0 ws_mount"] by (simp add: onopen_def)
qed

lemma truncate_handlers [simp]:
  "ws_state.truncate (on_stats t s h) = on_stats t s (ws_state.truncate h)"
  "ws_state.truncate (on_history cs h) = on_history cs (ws_state.truncate h)"
  "ws_state.truncate (on_resource r h) = on_resource r (ws_state.truncate h)"
  "ws_state.truncate (on_remove k h) = on_remove k (ws_state.truncate h)"
  by (simp_all add: handler_defs ws_state.defs)

lemma truncate_onmessage:
  "ws_state.truncate (onmessage t d h) = onmessage t d (ws_state.truncate h)"
  unfolding onmessage_def by (cases d) (simp_all only: option.case if_distrib [of ws_state.truncate] truncate_handlers)

text \<open>The messages that reached the hook in a run, in order.\<close>

fun received_in :: "ws_ev list \<Rightarrow> ws_input list" where
  "received_in [] = []"
| "received_in (Sock_message i t d # evs) = (t, d) # received_in evs"
| "received_in (e # evs) = received_in evs"

lemma received_in_snoc:
  "received_in (evs @ [e]) = received_in evs @ (case e of Sock_message i t d \<Rightarrow> [(t, d)] | _ \<Rightarrow> [])"
  by (induction evs rule: received_in.induct) (auto split: ws_ev.split)

lemma truncate_mount [simp]: "ws_state.truncate ws_mount = ws_init"
  by (simp add: ws_mount_def connect_def ws_init_def ws_state.defs)

lemma truncate_lifecycle [simp]:
  "ws_state.truncate (set_status i s h) = ws_state.truncate h"
  "ws_state.truncate (onopen i h) = ws_state.truncate h"
  "ws_state.truncate (onclose i h) = ws_state.truncate h"
  "ws_state.truncate (timer_fires h) = ws_state.truncate h"
  "ws_state.truncate (unmount h) = ws_state.truncate h"
  by (simp_all add: onopen_def onclose_def set_status_def timer_fires_def connect_def
      unmount_def ws_state.defs Let_def split: option.split)

text \<open>Only the messages change the data: a run is the handling of the messages received in it.\<close>

lemma ws_trace_run: "ws_trace evs h \<Longrightarrow> ws_state.truncate h = ws_run (received_in evs) ws_init"
proof (induction rule: ws_trace.induct)
  case (event evs h e h')
  from event(2) show ?case
    by cases (use event.IH in \<open>simp_all add: received_in_snoc ws_run_snoc truncate_onmessage\<close>)
qed simp

lemma truncate_fields:
  "snapshots (ws_state.truncate h) = snapshots h" "services (ws_state.truncate h) = services h"
  "conn_history (ws_state.truncate h) = conn_history h" "events (ws_state.truncate h) = events h"
  by (simp_all add: ws_state.defs)

text \<open>
  C25: in every run of the hook, through any opening, closing, reconnecting and cleaning up, the
  data it holds is what the messages received in that run determine: the newest hundred rising
  edges, the last snapshot of each connection that is not removed, the points of
  each connection (a suffix of all of them that agrees on the last 3600), and for each service
  the last reading with the last 300 points.
\<close>

theorem ws_data_is_received:
  assumes "ws_trace evs h"
  shows "events h = take MAX_EVENTS (rev (spike_log (received_in evs))) \<and>
    obj_get (snapshots h) k = last_snapshot k (received_in evs) \<and>
    rel_option (tail_of MAX_HISTORY) (obj_get (conn_history h) k) (all_points k (received_in evs)) \<and>
    obj_get (services h) n = service_after n (received_in evs)"
  using truncate_fields [of h] unfolding ws_trace_run [OF assms]
  by (metis events_log snapshots_refine history_log services_log)

lemma trace_received: "ws_trace [Sock_open 0, Sock_message 0 t d] (onmessage t d (onopen 0 ws_mount))"
  using ws_trace.event [OF trace_opened ws_trans.received [of 0]]
  by (simp add: onopen_def set_status_def mount_socket)

theorem ws_data_is_received_witness:
  "(case stats_msg 5 (sample_snap False 1) of (t, d) \<Rightarrow>
     obj_get (snapshots (onmessage t d (onopen 0 ws_mount))) (snapKey (sample_snap False 1))) = Some (sample_snap False 1)"
  using ws_data_is_received [OF trace_received, where k = "snapKey (sample_snap False 1)"]
  by (simp add: stats_msg_def empty_msg_def last_snapshot_def snap_after_def remove_of_def stats_of_def)

section \<open>Recovery, and what cleanup leaves behind\<close>

lemma step_onopen:
  "live h i \<Longrightarrow> so_status (sockets h ! i) = Connecting \<Longrightarrow> ws_step\<^sup>*\<^sup>* h (onopen i h)"
  by (intro r_into_rtranclp ws_step_trans [OF ws_trans.opened]) (simp_all add: live_def)

lemma onopen_fields [simp]:
  "connected (onopen i h)" "mounted (onopen i h) = mounted h" "snapshots (onopen i h) = snapshots h"
  "conn_history (onopen i h) = conn_history h"
  by (simp_all add: onopen_def set_status_def)

lemma timer_fires_fields [simp]:
  "mounted (timer_fires h) = mounted h" "snapshots (timer_fires h) = snapshots h"
  "conn_history (timer_fires h) = conn_history h"
  "live (timer_fires h) (length (sockets h))"
  "so_status (sockets (timer_fires h) ! length (sockets h)) = Connecting"
  by (simp_all add: timer_fires_def connect_def live_def is_live_def)

lemma reconnects:
  assumes "0 < timers h"
  shows "ws_step\<^sup>*\<^sup>* h (onopen (length (sockets h)) (timer_fires h))"
  using ws_step_trans [OF ws_trans.timeout [OF assms]] step_onopen [of "timer_fires h" "length (sockets h)"]
  by (simp add: converse_rtranclp_into_rtranclp)

text \<open>
  C24: the client always recovers: from every reachable state of the mounted hook, whatever
  closes have happened, the reconnect timer and the next socket lead to a connected state
  in which the snapshots and histories shown to the user have been kept.
\<close>

theorem ws_recovers:
  assumes "ws_reach h" "mounted h"
  shows "\<exists>h'. ws_step\<^sup>*\<^sup>* h h' \<and> mounted h' \<and> connected h' \<and>
    snapshots h' = snapshots h \<and> conn_history h' = conn_history h"
proof (cases "timers h = 0")
  case True
  then have "live_count h = 1" using ws_reach_inv [OF assms(1)] assms(2) by (simp add: ws_inv_def)
  then obtain i where i: "live h i"
    unfolding live_count_def live_is_live by (metis in_set_conv_nth length_filter_pos zero_less_one)
  show ?thesis
  proof (cases "so_status (sockets h ! i)")
    case Connecting
    then show ?thesis using step_onopen [OF i] assms(2) by (intro exI [of _ "onopen i h"]) simp
  next
    case Open
    then have "connected h" using ws_inv_live(5) [OF ws_reach_inv [OF assms(1)] i assms(2)] by simp
    with assms(2) show ?thesis by blast
  qed (use i in \<open>simp_all add: live_def is_live_def\<close>)
next
  case False
  then show ?thesis using reconnects [of h] assms(2)
    by (intro exI [of _ "onopen (length (sockets h)) (timer_fires h)"]) simp
qed

lemma unmounted_step:
  assumes "ws_step h h'" "ws_inv h" "\<not> mounted h"
  shows "\<not> mounted h' \<and> timers h' + live_count h' = timers h + live_count h"
proof -
  obtain e where "ws_trans h e h'" using assms(1) unfolding ws_step_def by blast
  then show ?thesis using assms(2,3)
  proof (induction rule: ws_trans.induct)
    case (opened i h)
    then have "live h i" by (simp add: live_def is_live_def)
    with opened show ?case using live_count_update [of h i]
      by (simp add: onopen_def set_status_def live_count_def is_live_def)
  next
    case (closed i h)
    show ?case
    proof (cases "live h i")
      case True
      with closed show ?thesis using ws_inv_live [of h i] no_live_left(1) [of h i]
        by (simp add: onclose_def set_status_def live_count_def is_live_def)
    next
      case False
      with closed have c: "so_status (sockets h ! i) = Closing"
        by (cases "so_status (sockets h ! i)") (simp_all add: live_def is_live_def)
      have "length (filter is_live ((sockets h)[i := (sockets h ! i)\<lparr>so_status := Closed\<rparr>])) =
          length (filter is_live (sockets h))"
        using length_filter_update [OF closed(1), of is_live] c by (simp add: is_live_def)
      with closed late_close [OF closed(3,1) c] show ?thesis
        by (simp add: set_status_def live_count_def)
    qed
  next
    case (timeout h)
    then show ?case by (auto simp: timer_fires_def connect_def live_count_def is_live_def)
  qed (simp_all add: live_count_def)
qed

lemma unmounted_run:
  assumes "ws_step\<^sup>*\<^sup>* h h'" "ws_inv h" "\<not> mounted h"
  shows "ws_inv h' \<and> \<not> mounted h' \<and> timers h' + live_count h' = timers h + live_count h"
  using assms(1)
proof (induction rule: rtranclp_induct)
  case (step y z)
  then show ?case using unmounted_step [of y z] ws_inv_step [of y z] by simp
qed (use assms in simp)

lemma closed_once: "ws_reach (onclose 0 ws_mount)" "mounted (onclose 0 ws_mount)"
  "timers (onclose 0 ws_mount) = 1" "\<not> connected (onclose 0 ws_mount)"
proof -
  show "ws_reach (onclose 0 ws_mount)"
    by (intro ws_reach.step [OF ws_reach.mount] ws_step_trans [OF ws_trans.closed]) (simp_all add: mount_socket)
qed (simp_all add: onclose_def set_status_def ws_mount_def connect_def ws_state.defs)

theorem ws_recovers_witness:
  "\<exists>h'. ws_step\<^sup>*\<^sup>* (onclose 0 ws_mount) h' \<and> mounted h' \<and> connected h' \<and> \<not> connected (onclose 0 ws_mount)"
  using ws_recovers [OF closed_once(1,2)] closed_once(4) by auto

lemma unmount_fields [simp]:
  "\<not> mounted (unmount h)" "timers (unmount h) = timers h"
  by (simp_all add: unmount_def split: option.split)

lemma unmount_live_count:
  assumes "ws_inv h" "mounted h"
  shows "live_count (unmount h) = 0"
proof (cases "live_count h = 0")
  case True
  then show ?thesis unfolding live_count_def
    by (auto simp: unmount_def filter_empty_conv is_live_def close_socket_def
        split: option.split dest!: set_update_subset_insert [THEN subsetD])
next
  case False
  then obtain i where i: "wsRef h = Some i" "live h i" "live_count h = 1"
    using assms unfolding ws_inv_def live_is_live by auto
  then show ?thesis
    using no_live_left(1) [OF i(3,2), of "close_socket ((sockets h ! i)\<lparr>so_onclose := False\<rparr>)"]
    by (simp add: unmount_def live_count_def is_live_def close_socket_def)
qed

text \<open>
  A hook at rest: unmounted, no timer, and every socket closed or closing with its handler
  detached. Only the late close events of such sockets can still happen, and they change
  nothing but the sockets.
\<close>

definition at_rest :: "ws_hook \<Rightarrow> bool" where
  "at_rest h \<longleftrightarrow> \<not> mounted h \<and> timers h = 0 \<and>
     list_all (\<lambda>s. so_status s = Closed \<or> so_status s = Closing \<and> \<not> so_onclose s) (sockets h)"

lemma at_rest_step:
  assumes "ws_step h h'" "at_rest h"
  shows "at_rest h' \<and> connected h' = connected h \<and> ws_state.truncate h' = ws_state.truncate h \<and>
    length (sockets h') = length (sockets h)"
proof -
  obtain e where "ws_trans h e h'" using assms(1) unfolding ws_step_def by blast
  then show ?thesis
  proof cases
    case (closed i)
    with assms(2) have "\<not> so_onclose (sockets h ! i)" by (auto simp: at_rest_def list_all_length)
    then have "onclose i h = set_status i Closed h" by (simp add: onclose_def)
    with closed assms(2) show ?thesis
      by (auto simp: at_rest_def set_status_def list_all_length nth_list_update ws_state.defs)
  qed (use assms(2) in \<open>auto simp: at_rest_def list_all_length\<close>)
qed

lemma at_rest_run:
  assumes "ws_step\<^sup>*\<^sup>* h h'" "at_rest h"
  shows "at_rest h' \<and> connected h' = connected h \<and> ws_state.truncate h' = ws_state.truncate h \<and>
    length (sockets h') = length (sockets h)"
  using assms(1)
proof (induction rule: rtranclp_induct)
  case (step y z)
  then show ?case using at_rest_step [of y z] by simp
qed (use assms in simp)

lemma at_rest_live: "at_rest h \<Longrightarrow> live_count h = 0"
  by (auto simp: at_rest_def live_count_def filter_empty_conv list_all_iff is_live_def)

lemma at_rest_unmount:
  assumes "ws_inv h" "mounted h" "timers h = 0"
  shows "at_rest (unmount h)"
proof -
  have "so_status s = Closed \<or> so_status s = Closing \<and> \<not> so_onclose s" if "s \<in> set (sockets (unmount h))" for s
    using that ws_inv_unmount [OF assms(1,2)] unmount_live_count [OF assms(1,2)]
    by (cases "so_status s") (auto simp: ws_inv_def live_count_def filter_empty_conv is_live_def)
  with assms(3) show ?thesis by (simp add: at_rest_def list_all_iff)
qed

lemma unmount_keeps: "connected (unmount h) = connected h" "length (sockets (unmount h)) = length (sockets h)"
  by (simp_all add: unmount_def split: option.split)

text \<open>
  C36: a cleanup while a socket exists is final. The close event of the socket it closes is
  still delivered, but to no handler: whatever happens afterwards, no socket is connecting or
  open, none has been created, no timer is pending, and neither the flag \<open>connected\<close>
  nor the data has changed.
\<close>

theorem cleanup_final:
  assumes "ws_reach h" "mounted h" "timers h = 0" "ws_step\<^sup>*\<^sup>* (unmount h) h'"
  shows "live_count h' = 0 \<and> timers h' = 0 \<and> length (sockets h') = length (sockets h) \<and>
    connected h' = connected h \<and> ws_state.truncate h' = ws_state.truncate h"
proof -
  have "at_rest (unmount h)" using ws_reach_inv [OF assms(1)] assms(2,3) by (rule at_rest_unmount)
  note r = at_rest_run [OF assms(4) this]
  then show ?thesis using at_rest_live [of h'] by (simp add: unmount_keeps at_rest_def)
qed

text \<open>
  C37: a cleanup while the reconnect timer is pending is not: the timer is not cancelled, so
  the unmounted hook keeps exactly one socket or one timer for ever, and a state in which
  it holds an open socket again is reachable.
\<close>

theorem cleanup_leaks:
  assumes "ws_reach h" "mounted h" "timers h = 1"
  shows "(\<forall>h'. ws_step\<^sup>*\<^sup>* (unmount h) h' \<longrightarrow> \<not> mounted h' \<and> timers h' + live_count h' = 1) \<and>
    (\<exists>h' i. ws_step\<^sup>*\<^sup>* (unmount h) h' \<and> live h' i \<and> so_status (sockets h' ! i) = Open)"
proof
  have inv: "ws_inv h" using assms(1) by (rule ws_reach_inv)
  then show "\<forall>h'. ws_step\<^sup>*\<^sup>* (unmount h) h' \<longrightarrow> \<not> mounted h' \<and> timers h' + live_count h' = 1"
    using unmounted_run [of "unmount h"] unmount_live_count assms(2,3) by (simp add: ws_inv_unmount)
  let ?h = "timer_fires (unmount h)" and ?n = "length (sockets (unmount h))"
  have "?n < length (sockets ?h)" using timer_fires_fields(4) [of "unmount h"] by (simp add: live_def)
  then show "\<exists>h' i. ws_step\<^sup>*\<^sup>* (unmount h) h' \<and> live h' i \<and> so_status (sockets h' ! i) = Open"
    using reconnects [of "unmount h"] assms(3)
    by (intro exI [of _ "onopen ?n ?h"] exI [of _ ?n]) (simp add: onopen_def set_status_def live_def is_live_def)
qed

lemma late_close_after_unmount:
  "ws_step\<^sup>*\<^sup>* (unmount (onopen 0 ws_mount)) (onclose 0 (unmount (onopen 0 ws_mount)))"
  by (intro r_into_rtranclp ws_step_trans [OF ws_trans.closed])
    (simp_all add: unmount_def close_socket_def onopen_def set_status_def ws_mount_def connect_def ws_state.defs)

theorem cleanup_final_witness:
  "let h = onclose 0 (unmount (onopen 0 ws_mount)) in live_count h = 0 \<and> timers h = 0 \<and> connected h"
  using cleanup_final [OF opened_once _ _ late_close_after_unmount]
  by (simp add: Let_def onopen_def set_status_def ws_mount_def connect_def ws_state.defs)

theorem cleanup_leaks_witness:
  "\<exists>h' i. ws_step\<^sup>*\<^sup>* (unmount (onclose 0 ws_mount)) h' \<and> live h' i \<and> so_status (sockets h' ! i) = Open"
  using cleanup_leaks [OF closed_once(1-3)] by auto

end
