(* ===== verification/Effects.thy ===== *)
theory Effects
  imports JsNumber "HOL-Library.State_Monad"
begin

text \<open>
  The two impure calls of the sources, \<open>Math.random()\<close> and \<open>Date.now()\<close>, as state-monad
  actions over an environment that holds a sequence of random numbers and a sequence of
  clock readings with the position reached in each. What the language documents of
  \<open>Math.random()\<close>, a double in \<open>[0, 1)\<close>, is the predicate \<open>valid_env\<close>.

  \<open>yields m Q\<close> says that an action run in a valid environment returns a value with \<open>Q\<close>
  (and leaves the environment valid). Its rules, one per construct, carry the proofs about
  the generators.
\<close>

record env =
  draws :: "nat \<Rightarrow> number"
  drawn :: nat
  clock :: "nat \<Rightarrow> int"
  ticked :: nat

definition random :: "(env, number) state" where
  "random = State (\<lambda>e. (draws e (drawn e), e\<lparr>drawn := Suc (drawn e)\<rparr>))"

definition Date_now :: "(env, int) state" where
  "Date_now = State (\<lambda>e. (clock e (ticked e), e\<lparr>ticked := Suc (ticked e)\<rparr>))"

definition valid_env :: "env \<Rightarrow> bool" where
  "valid_env e \<longleftrightarrow> (\<forall>i. 0 \<le> draws e i \<and> draws e i < 1 \<and> is_double (draws e i))"

definition yields :: "(env, 'a) state \<Rightarrow> ('a \<Rightarrow> bool) \<Rightarrow> bool" where
  "yields m Q \<longleftrightarrow> (\<forall>e. valid_env e \<longrightarrow> Q (fst (run_state m e)) \<and> valid_env (snd (run_state m e)))"

named_theorems yields_rules "rules of the predicate yields"

lemma yields_return [yields_rules]: "Q x \<Longrightarrow> yields (State_Monad.return x) Q"
  by (simp add: yields_def)

lemma yields_bind:
  "yields m P \<Longrightarrow> (\<And>x. P x \<Longrightarrow> yields (f x) Q) \<Longrightarrow> yields (State_Monad.bind m f) Q"
  unfolding yields_def by (simp add: case_prod_beta)

lemma yields_random: "yields random (\<lambda>r. 0 \<le> r \<and> r < 1 \<and> is_double r)"
  by (simp add: yields_def random_def valid_env_def)

lemma yields_now: "yields Date_now (\<lambda>_. True)"
  by (simp add: yields_def Date_now_def valid_env_def)

lemma yieldsD: "yields m Q \<Longrightarrow> valid_env e \<Longrightarrow> Q (fst (run_state m e))"
  by (simp add: yields_def)

lemma yields_mono: "yields m P \<Longrightarrow> (\<And>x. P x \<Longrightarrow> Q x) \<Longrightarrow> yields m Q"
  by (simp add: yields_def)

lemma yields_conj: "yields m P \<Longrightarrow> yields m Q \<Longrightarrow> yields m (\<lambda>x. P x \<and> Q x)"
  by (simp add: yields_def)

lemmas yields_random_bind [yields_rules] = yields_bind [OF yields_random]
lemmas yields_now_bind [yields_rules] = yields_bind [OF yields_now]

lemma yields_if [yields_rules]:
  "(b \<Longrightarrow> yields m Q) \<Longrightarrow> (\<not> b \<Longrightarrow> yields n Q) \<Longrightarrow> yields (if b then m else n) Q"
  by simp

lemma yields_option [yields_rules]:
  "(a = None \<Longrightarrow> yields m Q) \<Longrightarrow> (\<And>x. a = Some x \<Longrightarrow> yields (f x) Q) \<Longrightarrow>
   yields (case a of None \<Rightarrow> m | Some x \<Rightarrow> f x) Q"
  by (simp split: option.split)

text \<open>A loop that runs the action on each element and collects the results.\<close>

lemma yields_traverse:
  "(\<And>x. x \<in> set xs \<Longrightarrow> yields (f x) (R x)) \<Longrightarrow>
   yields (State_Monad.traverse_list f xs) (\<lambda>ys. list_all2 R xs ys)"
proof (induction xs)
  case Nil
  show ?case by (simp add: yields_return)
next
  case (Cons x xs)
  have x: "yields (f x) (R x)" and xs: "yields (State_Monad.traverse_list f xs) (list_all2 R xs)"
    using Cons by simp_all
  show ?case unfolding State_Monad.traverse_list.simps
    by (intro yields_bind [OF x] yields_bind [OF xs] yields_return) simp
qed

section \<open>Scaled draws\<close>

text \<open>\<open>a + Math.random() * b\<close>\<close>

definition rand_from :: "number \<Rightarrow> number \<Rightarrow> (env, number) state" where
  "rand_from a b = do { r \<leftarrow> random; State_Monad.return (fadd a (fmul r b)) }"

lemma scaled_draw:
  assumes "0 \<le> r" "r < 1" "0 \<le> b" "is_double b"
  shows "0 \<le> fmul r b" "fmul r b \<le> b"
  using assms f64.rnd_scale_le [of b r]
  by (simp_all add: fmul_nonneg) (simp add: fmul_def is_double_def)

lemma yields_rand_from:
  assumes "0 \<le> b" "is_double a" "is_double b" "is_double (a + b)"
  shows "yields (rand_from a b) (\<lambda>x. a \<le> x \<and> x \<le> a + b \<and> is_double x)"
  unfolding rand_from_def
proof (intro yields_rules)
  fix r :: number assume r: "0 \<le> r \<and> r < 1 \<and> is_double r"
  then have m: "0 \<le> fmul r b" "fmul r b \<le> b" using scaled_draw [of r b] assms by simp_all
  then show "a \<le> fadd a (fmul r b) \<and> fadd a (fmul r b) \<le> a + b \<and> is_double (fadd a (fmul r b))"
    using f64.rnd_between [of a "a + b" "a + fmul r b"] assms by (simp add: fadd_def is_double_def)
qed

text \<open>The largest double below one is \<open>1 - 2^-53\<close>.\<close>

lemma double_below_one:
  assumes "is_double r" "r < 1"
  shows "r \<le> 1 - 2 powi (-53)"
proof (cases "r \<le> 1/2")
  case True
  then show ?thesis by (simp add: power_int_def power_one_over)
next
  case False
  then have "flog2 r = -1" using assms(2) by (intro flog2_unique) (auto simp: power_int_def)
  then have "quantum r = -53" using False by (simp add: quantum_def)
  moreover define n where "n = round_even (r / 2 powi quantum r)"
  ultimately have "fl r = of_int n * 2 powi (-53)" using False by (simp add: fl_def)
  then have n: "r = of_int n * 2 powi (-53)" using assms(1) by (simp only: is_double_def)
  with assms(2) have "of_int n * 2 powi (-53) < (1::rat)" by simp
  then have "(of_int n :: rat) < of_int (2 ^ 53)" by (simp add: power_int_def power_one_over)
  then have "n \<le> 2 ^ 53 - 1" by (simp only: of_int_less_iff)
  then have "(of_int n :: rat) \<le> of_int (2 ^ 53 - 1)" by (simp only: of_int_le_iff)
  then show ?thesis unfolding n by (simp add: power_int_def power_one_over)
qed

end
