(* ===== verification/MockData.thy ===== *)
theory MockData
  imports WsClient Effects
begin

text \<open>
  \<open>hooks/useMockData.ts\<close>: the simulated data source. Each service drifts towards a target
  load that an episode of stress raises; each connection is a spike state machine whose
  percentiles are drawn afresh at every tick. The mutable objects behind the three refs
  are the state of \<open>mock_hook\<close>, which extends the React state the hook returns;
  \<open>Math.random()\<close> and \<open>Date.now()\<close> are actions on the environment of \<open>Effects\<close>, in the
  order in which the source makes the calls.

  Timers and counters are integers far below \<open>2^53\<close>, where doubles count exactly. A tick
  returns \<open>None\<close> where the source would throw: \<open>classifyCause\<close> reads a field of the
  destination's service, which an object lookup may not find. That it never does is part
  of the invariant.
\<close>

section \<open>Definitions of the services and connections\<close>

definition INTERNAL_SERVICES :: "string list" where
  "INTERNAL_SERVICES =
     [''api-gateway'', ''auth-svc'', ''order-svc'', ''payment-svc'', ''inventory-svc'', ''notif-svc'']"

definition EXTERNAL_SERVICES :: "string list" where
  "EXTERNAL_SERVICES = [''postgres'', ''redis'', ''kafka'', ''stripe-api'']"

record conn_def =
  cd_src :: string
  cd_dst :: string
  cd_baseMs :: number
  cd_noiseMs :: number

definition CONN_DEFS :: "conn_def list" where
  "CONN_DEFS =
     [\<lparr>cd_src = ''api-gateway'', cd_dst = ''auth-svc'', cd_baseMs = 3, cd_noiseMs = 3/2\<rparr>,
      \<lparr>cd_src = ''api-gateway'', cd_dst = ''order-svc'', cd_baseMs = 5, cd_noiseMs = 2\<rparr>,
      \<lparr>cd_src = ''auth-svc'', cd_dst = ''redis'', cd_baseMs = 3/2, cd_noiseMs = 1/2\<rparr>,
      \<lparr>cd_src = ''order-svc'', cd_dst = ''payment-svc'', cd_baseMs = 8, cd_noiseMs = 3\<rparr>,
      \<lparr>cd_src = ''order-svc'', cd_dst = ''inventory-svc'', cd_baseMs = 4, cd_noiseMs = 2\<rparr>,
      \<lparr>cd_src = ''order-svc'', cd_dst = ''notif-svc'', cd_baseMs = 6, cd_noiseMs = 2\<rparr>,
      \<lparr>cd_src = ''order-svc'', cd_dst = ''postgres'', cd_baseMs = 9, cd_noiseMs = 4\<rparr>,
      \<lparr>cd_src = ''payment-svc'', cd_dst = ''postgres'', cd_baseMs = 12, cd_noiseMs = 5\<rparr>,
      \<lparr>cd_src = ''payment-svc'', cd_dst = ''stripe-api'', cd_baseMs = 45, cd_noiseMs = 15\<rparr>,
      \<lparr>cd_src = ''notif-svc'', cd_dst = ''kafka'', cd_baseMs = 3, cd_noiseMs = 1\<rparr>]"

record ServiceState =
  ss_name :: string
  ss_cpu_pct :: number
  ss_io_wait_pct :: number
  ss_mem_pressure_pct :: number
  ss_cpu_throttle_pct :: number
  ss_stressKind :: "StressKind option"
  ss_stressTimer :: int
  ss_history :: "ResourcePoint list"

text \<open>The points of a connection's own history carry \<open>latest_srtt_us\<close> as well.\<close>

record ConnState =
  cn_src :: string
  cn_dst :: string
  cn_key :: string
  cn_baseMs :: number
  cn_noiseMs :: number
  cn_isSpike :: bool
  cn_spikeTimer :: int
  cn_retransmitCount :: int
  cn_sampleCount :: int
  cn_closeStates :: CloseStates
  cn_history :: "HistoryPoint list"
  cn_causeKind :: "CauseKind option"

section \<open>Helpers\<close>

definition SAMPLES :: nat where
  "SAMPLES = 30"

text \<open>\<open>rnd(lo, hi)\<close> of \<open>hooks/useMockData.ts\<close>.\<close>

definition rnd :: "number \<Rightarrow> number \<Rightarrow> (env, number) state" where
  "rnd lo hi = do { r \<leftarrow> random; State_Monad.return (fadd lo (fmul r (fsub hi lo))) }"

record percs =
  pc_avg_us :: number
  pc_p50_us :: number
  pc_p95_us :: number
  pc_p99_us :: number
  pc_jitter_us :: number

text \<open>\<open>p(pct)\<close>: an index of at least 0 into the sorted samples.\<close>

definition perc_index :: "number \<Rightarrow> nat \<Rightarrow> nat" where
  "perc_index pct n = nat (max 0 \<lfloor>fmul (fdiv pct 100) (of_nat n - 1)\<rfloor>)"

definition sample :: "number \<Rightarrow> number \<Rightarrow> (env, number) state" where
  "sample base noise = do {
     x \<leftarrow> rnd (fmul (- noise) (fl (8/10))) (fmul noise (fl (12/10)));
     State_Monad.return (max (fl (1/10)) (fadd base x)) }"

definition percs_of :: "number list \<Rightarrow> percs" where
  "percs_of samples =
     (let arr = js_sort (\<lambda>a b. fsub a b) samples; p = (\<lambda>pct. arr ! perc_index pct (length arr));
          avg = fdiv (fsum (\<lambda>v. v) arr) (of_nat (length arr))
      in \<lparr>pc_avg_us = fmul avg 1000, pc_p50_us = fmul (p 50) 1000, pc_p95_us = fmul (p 95) 1000,
          pc_p99_us = fmul (p 99) 1000, pc_jitter_us = fmul (fsub (p 75) (p 25)) 1000\<rparr>)"

definition genPercs :: "ConnState \<Rightarrow> (env, percs) state" where
  "genPercs c = do {
     base \<leftarrow> (if cn_isSpike c then do { x \<leftarrow> rnd 8 25; State_Monad.return (fmul (cn_baseMs c) x) }
             else State_Monad.return (cn_baseMs c));
     let noise = (if cn_isSpike c then fmul (cn_baseMs c) 5 else cn_noiseMs c);
     samples \<leftarrow> State_Monad.traverse_list (\<lambda>_. sample base noise) [0..<SAMPLES];
     State_Monad.return (percs_of samples) }"

text \<open>Reading a field of an undefined service throws: \<open>None\<close>.\<close>

definition classifyCause :: "ConnState \<Rightarrow> ServiceState option \<Rightarrow> CauseKind option" where
  "classifyCause c dstSvc =
     (if cn_dst c \<in> set EXTERNAL_SERVICES \<and> cn_baseMs c > 30 then Some Cause_external
      else case dstSvc of None \<Rightarrow> None
        | Some d \<Rightarrow> (case ss_stressKind d of
              Some Stress_cpu \<Rightarrow> Some Cause_cpu
            | Some Stress_io \<Rightarrow> Some Cause_io
            | Some Stress_memory \<Rightarrow> Some Cause_memory
            | None \<Rightarrow> Some Cause_network))"

section \<open>A tick of a service\<close>

text \<open>\<open>kinds[Math.floor(Math.random() * 3)]\<close>: out of range is \<open>undefined\<close>, which compares unequal
  to every kind and so acts like no stress; \<open>pick_kind_total\<close> shows it does not occur.\<close>

definition pick_kind :: "number \<Rightarrow> StressKind option" where
  "pick_kind r =
     (let i = \<lfloor>fmul r 3\<rfloor>
      in if i = 0 then Some Stress_cpu else if i = 1 then Some Stress_io
         else if i = 2 then Some Stress_memory else None)"

definition tick_stress :: "ServiceState \<Rightarrow> (env, ServiceState) state" where
  "tick_stress s =
     (if ss_stressTimer s > 0 then
        (let t = ss_stressTimer s - 1
         in State_Monad.return (s\<lparr>ss_stressTimer := t,
              ss_stressKind := (if t = 0 then None else ss_stressKind s)\<rparr>))
      else do {
        r \<leftarrow> random;
        if r < fl (8/1000) then do {
          k \<leftarrow> random;
          t \<leftarrow> rnd 5 14;
          State_Monad.return (s\<lparr>ss_stressKind := pick_kind k, ss_stressTimer := \<lfloor>t\<rfloor>\<rparr>) }
        else State_Monad.return s })"

record targets =
  tg_cpu :: number
  tg_io :: number
  tg_mem :: number
  tg_throttle :: number

definition pick_targets :: "StressKind option \<Rightarrow> (env, targets) state" where
  "pick_targets kind = do {
     cpu \<leftarrow> rand_from 15 25;
     io \<leftarrow> rand_from 2 6;
     mem \<leftarrow> rand_from 5 15;
     let t = \<lparr>tg_cpu = cpu, tg_io = io, tg_mem = mem, tg_throttle = 0\<rparr>;
     case kind of
       None \<Rightarrow> State_Monad.return t
     | Some k \<Rightarrow> (case k of
           Stress_cpu \<Rightarrow> do {
             c \<leftarrow> rand_from 85 14; th \<leftarrow> rand_from 20 60;
             State_Monad.return (t\<lparr>tg_cpu := c, tg_throttle := th\<rparr>) }
         | Stress_io \<Rightarrow> do { i \<leftarrow> rand_from 35 40; State_Monad.return (t\<lparr>tg_io := i\<rparr>) }
         | Stress_memory \<Rightarrow> do {
             m \<leftarrow> rand_from 75 22; c \<leftarrow> rand_from 50 30;
             State_Monad.return (t\<lparr>tg_mem := m, tg_cpu := c\<rparr>) }) }"

text \<open>\<open>x += (target - x) * rate\<close>\<close>

definition approach :: "number \<Rightarrow> number \<Rightarrow> number \<Rightarrow> number" where
  "approach x target rate = fadd x (fmul (fsub target x) rate)"

definition move_service :: "targets \<Rightarrow> int \<Rightarrow> ServiceState \<Rightarrow> ServiceState" where
  "move_service t now s =
     (let cpu = approach (ss_cpu_pct s) (tg_cpu t) (fl (4/10));
          io = approach (ss_io_wait_pct s) (tg_io t) (1/2);
          mem = approach (ss_mem_pressure_pct s) (tg_mem t) (fl (3/10));
          thr = approach (ss_cpu_throttle_pct s) (tg_throttle t) (1/2)
      in s\<lparr>ss_cpu_pct := cpu, ss_io_wait_pct := io, ss_mem_pressure_pct := mem, ss_cpu_throttle_pct := thr,
           ss_history := keep_last 300 (ss_history s) @
             [\<lparr>rp_time = of_int now, rp_cpu_pct = cpu, rp_io_wait_pct = io, rp_mem_pressure_pct = mem,
               rp_cpu_throttle_pct = thr\<rparr>]\<rparr>)"

definition tickService :: "ServiceState \<Rightarrow> (env, ServiceState) state" where
  "tickService s = do {
     s' \<leftarrow> tick_stress s;
     t \<leftarrow> pick_targets (ss_stressKind s');
     now \<leftarrow> Date_now;
     State_Monad.return (move_service t now s') }"

section \<open>A tick of a connection\<close>

definition close_one :: "CloseStates \<Rightarrow> (env, CloseStates) state" where
  "close_one cs = do {
     r \<leftarrow> random;
     if r < fl (15/100) then do {
       rr \<leftarrow> random;
       State_Monad.return
         (if rr < fl (33/100) then cs\<lparr>cs_rst := fadd (cs_rst cs) 1\<rparr>
          else if rr < fl (66/100) then cs\<lparr>cs_timeout := fadd (cs_timeout cs) 1\<rparr>
          else cs\<lparr>cs_fin := fadd (cs_fin cs) 1\<rparr>) }
     else State_Monad.return (cs\<lparr>cs_fin := fadd (cs_fin cs) 1\<rparr>) }"

definition dstStressed :: "ServiceState option \<Rightarrow> bool" where
  "dstStressed d = (case d of None \<Rightarrow> True | Some s \<Rightarrow> ss_stressKind s \<noteq> None)"

text \<open>The spike state machine.\<close>

definition spike_step :: "ServiceState option \<Rightarrow> ConnState \<Rightarrow> (env, ConnState) state" where
  "spike_step dstState c =
     (if cn_isSpike c then
        (let t = cn_spikeTimer c - 1
         in State_Monad.return (c\<lparr>cn_spikeTimer := t, cn_isSpike := \<not> t \<le> 0\<rparr>))
      else do {
        r \<leftarrow> random;
        if r < (if dstStressed dstState then fl (18/100) else fl (8/1000)) then do {
          t \<leftarrow> rnd 3 8;
          n \<leftarrow> rnd 1 5;
          cs \<leftarrow> close_one (cn_closeStates c);
          State_Monad.return (c\<lparr>cn_isSpike := True, cn_spikeTimer := \<lfloor>t\<rfloor>,
            cn_retransmitCount := cn_retransmitCount c + \<lfloor>n\<rfloor>, cn_closeStates := cs\<rparr>) }
        else State_Monad.return c })"

definition node_type :: "string \<Rightarrow> NodeType" where
  "node_type n = (if n \<in> set INTERNAL_SERVICES then Internal else External)"

definition mock_snapshot :: "ConnState \<Rightarrow> percs \<Rightarrow> ServiceState option \<Rightarrow> StatSnapshot" where
  "mock_snapshot c p dstState =
     \<lparr>src_service = cn_src c, dst_service = cn_dst c, src_type = node_type (cn_src c),
      dst_type = node_type (cn_dst c), latest_srtt_us = pc_avg_us p, avg_us = pc_avg_us p,
      p50_us = pc_p50_us p, p95_us = pc_p95_us p, p99_us = pc_p99_us p, jitter_us = pc_jitter_us p,
      retransmit_count = of_int (cn_retransmitCount c), sample_count = of_int (cn_sampleCount c),
      is_spike = cn_isSpike c, spike_threshold_us = fmul (fmul (cn_baseMs c) 5) 1000,
      cause_kind = cn_causeKind c, close_states = Some (cn_closeStates c),
      dst_cpu_pct = map_option ss_cpu_pct dstState, dst_io_wait_pct = map_option ss_io_wait_pct dstState,
      dst_mem_pressure_pct = map_option ss_mem_pressure_pct dstState,
      baseline_us = Some (fmul (cn_baseMs c) 1000)\<rparr>"

definition mock_event :: "int \<Rightarrow> int \<Rightarrow> nat \<Rightarrow> ConnState \<Rightarrow> percs \<Rightarrow> ServiceState option \<Rightarrow> SpikeEvent" where
  "mock_event t_id t_ev n c p dstState =
     \<lparr>ev_id = cn_key c @ ''-'' @ show_int t_id @ ''-'' @ show_nat n, ev_timestamp = of_int t_ev,
      ev_key = cn_key c, ev_src = cn_src c, ev_dst = cn_dst c, ev_p99_us = pc_p99_us p,
      ev_baseline_us = fmul (cn_baseMs c) 1000,
      ev_severity = (if pc_p99_us p > 80000 then Sev_critical else Sev_warning),
      ev_cause_kind = nullish (cn_causeKind c) Cause_network,
      ev_dst_cpu_pct = nullish (map_option ss_cpu_pct dstState) 0,
      ev_dst_io_wait_pct = nullish (map_option ss_io_wait_pct dstState) 0,
      ev_dst_mem_pressure_pct = nullish (map_option ss_mem_pressure_pct dstState) 0\<rparr>"

definition mock_point :: "int \<Rightarrow> percs \<Rightarrow> HistoryPoint" where
  "mock_point now p =
     \<lparr>hp_time = of_int now, hp_latest_srtt_us = pc_avg_us p, hp_avg_us = pc_avg_us p, hp_p50_us = pc_p50_us p,
      hp_p95_us = pc_p95_us p, hp_p99_us = pc_p99_us p, hp_jitter_us = pc_jitter_us p\<rparr>"

text \<open>The points as they are published: the last reading is the average.\<close>

definition publish_point :: "HistoryPoint \<Rightarrow> HistoryPoint" where
  "publish_point h =
     \<lparr>hp_time = hp_time h, hp_latest_srtt_us = hp_avg_us h, hp_avg_us = hp_avg_us h, hp_p50_us = hp_p50_us h,
      hp_p95_us = hp_p95_us h, hp_p99_us = hp_p99_us h, hp_jitter_us = hp_jitter_us h\<rparr>"

text \<open>What the body of the loop leaves: the connection, its snapshot, an event or none.\<close>

record conn_out =
  co_state :: ConnState
  co_snap :: StatSnapshot
  co_event :: "SpikeEvent option"

definition conn_tick :: "ServiceState obj \<Rightarrow> nat \<Rightarrow> ConnState \<Rightarrow> (env, conn_out option) state" where
  "conn_tick svcs counter c = do {
     let dstState = obj_get svcs (cn_dst c);
     c1 \<leftarrow> spike_step dstState c;
     p \<leftarrow> genPercs c1;
     let c2 = c1\<lparr>cn_sampleCount := cn_sampleCount c1 + int SAMPLES\<rparr>;
     if cn_isSpike c2 \<and> classifyCause c2 dstState = None then State_Monad.return None
     else do {
       let c3 = c2\<lparr>cn_causeKind := (if cn_isSpike c2 then classifyCause c2 dstState else None)\<rparr>;
       now \<leftarrow> Date_now;
       let c4 = c3\<lparr>cn_history := keep_last 300 (cn_history c3) @ [mock_point now p]\<rparr>;
       let snap = mock_snapshot c4 p dstState;
       if cn_isSpike c4 \<and> \<not> cn_isSpike c then do {
         t_id \<leftarrow> Date_now;
         t_ev \<leftarrow> Date_now;
         State_Monad.return (Some \<lparr>co_state = c4, co_snap = snap,
           co_event = Some (mock_event t_id t_ev (Suc counter) c4 p dstState)\<rparr>) }
       else State_Monad.return (Some \<lparr>co_state = c4, co_snap = snap, co_event = None\<rparr>) } }"

section \<open>The hook\<close>

record mock_hook = ws_state +
  serviceState :: "ServiceState obj"
  connState :: "ConnState obj"
  allEvents :: "SpikeEvent list"
  eventCounter :: nat

text \<open>What the loop over the connections accumulates.\<close>

record tick_acc =
  ta_conns :: "ConnState obj"
  ta_snapshots :: SnapshotMap
  ta_history :: HistoryMap
  ta_new :: "SpikeEvent list"
  ta_all :: "SpikeEvent list"
  ta_counter :: nat

definition add_conn :: "string \<Rightarrow> conn_out \<Rightarrow> tick_acc \<Rightarrow> tick_acc" where
  "add_conn k o1 acc =
     (let acc' = acc\<lparr>ta_conns := ta_conns acc @ [(k, co_state o1)],
                     ta_snapshots := obj_put (cn_key (co_state o1)) (co_snap o1) (ta_snapshots acc),
                     ta_history := obj_put (cn_key (co_state o1))
                       (map publish_point (cn_history (co_state o1))) (ta_history acc)\<rparr>
      in case co_event o1 of None \<Rightarrow> acc'
         | Some ev \<Rightarrow> acc'\<lparr>ta_new := ta_new acc @ [ev], ta_all := take 100 (ev # ta_all acc),
                           ta_counter := Suc (ta_counter acc)\<rparr>)"

fun conns_tick :: "ServiceState obj \<Rightarrow> ConnState obj \<Rightarrow> tick_acc \<Rightarrow> (env, tick_acc option) state" where
  "conns_tick svcs [] acc = State_Monad.return (Some acc)"
| "conns_tick svcs ((k, c) # cs) acc = do {
     r \<leftarrow> conn_tick svcs (ta_counter acc) c;
     case r of None \<Rightarrow> State_Monad.return None
     | Some o1 \<Rightarrow> conns_tick svcs cs (add_conn k o1 acc) }"

definition mock_service :: "ServiceState \<Rightarrow> ServiceSnapshot" where
  "mock_service s =
     \<lparr>sv_name = ss_name s, sv_cpu_pct = ss_cpu_pct s, sv_io_wait_pct = ss_io_wait_pct s,
      sv_mem_pressure_pct = ss_mem_pressure_pct s, sv_cpu_throttle_pct = ss_cpu_throttle_pct s,
      sv_stress_kind = ss_stressKind s, sv_history = ss_history s\<rparr>"

text \<open>The end of a tick: the four state updates and the refs.\<close>

definition publish_tick :: "ServiceState obj \<Rightarrow> mock_hook \<Rightarrow> tick_acc \<Rightarrow> mock_hook" where
  "publish_tick svcs h acc =
     h\<lparr>snapshots := ta_snapshots acc, conn_history := ta_history acc,
       services := obj_puts (map (\<lambda>s. (ss_name s, mock_service s)) (obj_values svcs)) [],
       events := (if ta_new acc \<noteq> [] then ta_all acc else events h),
       serviceState := svcs, connState := ta_conns acc, allEvents := ta_all acc,
       eventCounter := ta_counter acc\<rparr>"

definition acc0 :: "mock_hook \<Rightarrow> tick_acc" where
  "acc0 h = \<lparr>ta_conns = [], ta_snapshots = [], ta_history = [], ta_new = [], ta_all = allEvents h,
     ta_counter = eventCounter h\<rparr>"

definition tick_services :: "ServiceState obj \<Rightarrow> (env, ServiceState obj) state" where
  "tick_services svcs = State_Monad.traverse_list
     (\<lambda>(k, s). do { s' \<leftarrow> tickService s; State_Monad.return (k, s') }) svcs"

definition tick :: "mock_hook \<Rightarrow> (env, mock_hook option) state" where
  "tick h = do {
     svcs \<leftarrow> tick_services (serviceState h);
     r \<leftarrow> conns_tick svcs (connState h) (acc0 h);
     State_Monad.return (map_option (publish_tick svcs h) r) }"

text \<open>The initialisation of the refs, and the first tick at once.\<close>

definition init_service :: "string \<Rightarrow> (env, string \<times> ServiceState) state" where
  "init_service svc = do {
     cpu \<leftarrow> rand_from 15 25;
     io \<leftarrow> rand_from 2 6;
     mem \<leftarrow> rand_from 5 15;
     State_Monad.return (svc, \<lparr>ss_name = svc, ss_cpu_pct = cpu, ss_io_wait_pct = io, ss_mem_pressure_pct = mem,
       ss_cpu_throttle_pct = 0, ss_stressKind = None, ss_stressTimer = 0, ss_history = []\<rparr>) }"

definition init_conn :: "conn_def \<Rightarrow> string \<times> ConnState" where
  "init_conn d =
     (let key = connKey (cd_src d) (cd_dst d)
      in (key, \<lparr>cn_src = cd_src d, cn_dst = cd_dst d, cn_key = key, cn_baseMs = cd_baseMs d,
          cn_noiseMs = cd_noiseMs d, cn_isSpike = False, cn_spikeTimer = 0, cn_retransmitCount = 0,
          cn_sampleCount = 0, cn_closeStates = \<lparr>cs_fin = 0, cs_rst = 0, cs_timeout = 0\<rparr>,
          cn_history = [], cn_causeKind = None\<rparr>))"

definition mock_init :: "(env, mock_hook) state" where
  "mock_init = do {
     svcs \<leftarrow> State_Monad.traverse_list init_service (INTERNAL_SERVICES @ EXTERNAL_SERVICES);
     State_Monad.return (ws_state.extend ws_init
       \<lparr>serviceState = obj_puts svcs [], connState = obj_puts (map init_conn CONN_DEFS) [],
        allEvents = [], eventCounter = 0\<rparr>) }"

text \<open>The hook after its first tick and \<open>n\<close> intervals.\<close>

fun mock_ticks :: "nat \<Rightarrow> (env, mock_hook option) state" where
  "mock_ticks 0 = do { h \<leftarrow> mock_init; tick h }"
| "mock_ticks (Suc n) = do {
     r \<leftarrow> mock_ticks n;
     case r of None \<Rightarrow> State_Monad.return None | Some h \<Rightarrow> tick h }"

end
