(* ===== verification/MockInvariant.thy ===== *)
theory MockInvariant
  imports MockData
begin

text \<open>
  What the simulated source of \<open>MockData\<close> guarantees for every sequence of random draws:
  the percentages stay in range, the percentiles are ordered, the spike and stress state
  machines agree with their timers and end, a tick never throws, and the event log records
  exactly the spikes that start. The proofs follow the program by the rules of \<open>yields\<close>.
\<close>

section \<open>Draws\<close>

lemma yields_rnd:
  assumes "lo \<le> hi" "is_double lo" "is_double hi" "is_double (hi - lo)"
  shows "yields (rnd lo hi) (\<lambda>x. lo \<le> x \<and> x \<le> hi \<and> is_double x)"
proof -
  have "rnd lo hi = rand_from lo (hi - lo)"
    using assms(4) by (simp add: rnd_def rand_from_def fsub_def is_double_def)
  with yields_rand_from [of "hi - lo" lo] assms show ?thesis by simp
qed

lemma yields_rnd_any: "yields (rnd lo hi) is_double"
  unfolding rnd_def by (intro yields_rules) simp

text \<open>The product of a draw and 3 is rounded below 3: the index is always in range.\<close>

lemma pick_kind_total:
  assumes "0 \<le> r" "r < 1" "is_double r"
  shows "pick_kind r \<noteq> None"
proof -
  have "fl (3 - 3 * 2 powi (-53)) < 3" by code_simp
  moreover have "fmul r 3 \<le> fl (3 - 3 * 2 powi (-53))"
    unfolding fmul_def using double_below_one [OF assms(3,2)] by (intro fl_mono) (simp add: algebra_simps)
  ultimately have "0 \<le> fmul r 3" "fmul r 3 < 3" using assms(1) by (simp_all add: fmul_nonneg)
  then have "\<lfloor>fmul r 3\<rfloor> \<in> {0, 1, 2}" by (auto simp: floor_le_iff) linarith
  then show ?thesis by (auto simp: pick_kind_def Let_def)
qed

section \<open>Percentages\<close>

text \<open>A step towards a target below 99 stays between 0 and 100, rounding included.\<close>

lemma approach_bounds:
  assumes x: "0 \<le> x" "x \<le> 100" "is_double x" and t: "0 \<le> t" "t \<le> 99" and c: "0 \<le> c" "c \<le> 1"
  shows "0 \<le> approach x t c \<and> approach x t c \<le> 100 \<and> is_double (approach x t c)"
proof (cases "x \<le> t")
  case True
  have d: "0 \<le> fsub t x" using True by (simp add: fsub_def f64.rnd_nonneg)
  then have m: "0 \<le> fmul (fsub t x) c" "fmul (fsub t x) c \<le> fsub t x"
    using c f64.rnd_scale_le [of "fsub t x" c]
    by (simp_all add: fmul_nonneg) (simp add: fmul_def fsub_def mult.commute)
  have "\<bar>fl (t - x) - (t - x)\<bar> \<le> 2 powi (7 - 54)"
    using True x t by (intro fl_abs_error) (simp_all add: power_int_def)
  also have "(2::rat) powi (7 - 54) \<le> 1" by (simp add: power_int_def power_one_over)
  finally have "fsub t x \<le> t - x + 1" unfolding fsub_def by linarith
  then have "x + fmul (fsub t x) c \<le> 100" using m(2) t(2) by linarith
  then show ?thesis using m x unfolding approach_def fadd_def
    by (simp add: f64.rnd_nonneg f64.rnd_le)
next
  case False
  have "fsub x t \<le> x" unfolding fsub_def using x t by (intro f64.rnd_le) (simp_all add: is_double_def)
  moreover have "0 \<le> fsub x t" using False by (simp add: fsub_def f64.rnd_nonneg)
  ultimately have m: "0 \<le> fmul (fsub x t) c" "fmul (fsub x t) c \<le> x"
    using c f64.rnd_scale_le [of "fsub x t" c]
    by (simp_all add: fmul_nonneg) (simp add: fmul_def fsub_def mult.commute)
  have "fsub t x = - fsub x t" unfolding fsub_def using fl_minus [of "x - t"] by simp
  then have "fmul (fsub t x) c = - fmul (fsub x t) c" unfolding fmul_def using fl_minus [of "fsub x t * c"] by simp
  then have "approach x t c = fl (x - fmul (fsub x t) c)" by (simp add: approach_def fadd_def)
  then show ?thesis using m x by (simp add: f64.rnd_nonneg f64.rnd_le)
qed

definition pct :: "number \<Rightarrow> bool" where
  "pct x \<longleftrightarrow> 0 \<le> x \<and> x \<le> 100 \<and> is_double x"

definition tgt :: "number \<Rightarrow> bool" where
  "tgt x \<longleftrightarrow> 0 \<le> x \<and> x \<le> 99"

lemma pct_approach: "pct x \<Longrightarrow> tgt t \<Longrightarrow> 0 \<le> c \<Longrightarrow> c \<le> 1 \<Longrightarrow> pct (approach x t c)"
  unfolding pct_def tgt_def using approach_bounds [of x t c] by simp

lemma yields_rand_pct:
  assumes "0 \<le> a" "0 \<le> b" "a + b \<le> 99" "is_double a" "is_double b" "is_double (a + b)"
  shows "yields (rand_from a b) (\<lambda>x. tgt x \<and> pct x)"
  using assms by (intro yields_mono [OF yields_rand_from]) (auto simp: tgt_def pct_def)

lemmas yields_rand_bind = yields_bind [OF yields_rand_pct]

section \<open>Services\<close>

definition wf_sstate :: "ServiceState \<Rightarrow> bool" where
  "wf_sstate s \<longleftrightarrow> pct (ss_cpu_pct s) \<and> pct (ss_io_wait_pct s) \<and> pct (ss_mem_pressure_pct s) \<and>
     pct (ss_cpu_throttle_pct s) \<and> 0 \<le> ss_stressTimer s \<and> ss_stressTimer s \<le> 14 \<and>
     (ss_stressKind s = None \<longleftrightarrow> ss_stressTimer s = 0) \<and> length (ss_history s) \<le> 301"

lemma yields_tick_stress:
  assumes "wf_sstate s"
  shows "yields (tick_stress s) (\<lambda>s'. wf_sstate s' \<and> ss_name s' = ss_name s)"
  unfolding tick_stress_def Let_def
proof (intro yields_rules, goal_cases)
  case 1
  then show ?case using assms by (auto simp: wf_sstate_def)
next
  case (2 r k)
  note k = this
  have "yields (rnd 5 14) (\<lambda>x. 5 \<le> x \<and> x \<le> 14 \<and> is_double x)" by (rule yields_rnd) simp_all
  then show ?case
  proof (elim yields_bind, intro yields_return, goal_cases)
    case (1 t)
    then have "pick_kind k \<noteq> None" "5 \<le> \<lfloor>t\<rfloor>" "\<lfloor>t\<rfloor> \<le> 14"
      using pick_kind_total [of k] k by (simp_all add: le_floor_iff floor_le_iff)
    moreover from this have "\<lfloor>t\<rfloor> \<noteq> 0" by linarith
    ultimately show ?case using assms by (simp add: wf_sstate_def)
  qed
qed (use assms in simp)

definition wf_targets :: "targets \<Rightarrow> bool" where
  "wf_targets t \<longleftrightarrow> tgt (tg_cpu t) \<and> tgt (tg_io t) \<and> tgt (tg_mem t) \<and> tgt (tg_throttle t)"

lemma yields_pick_targets: "yields (pick_targets k) wf_targets"
  unfolding pick_targets_def Let_def
proof (intro yields_rand_bind, goal_cases)
  case (19 cpu io mem)
  then show ?case
  proof (cases k)
    case None
    with 19 show ?thesis by (auto intro!: yields_return simp: wf_targets_def tgt_def)
  next
    case (Some kind)
    with 19 show ?thesis by (cases kind)
      (auto intro!: yields_return yields_rand_bind simp: wf_targets_def, auto simp: tgt_def)
  qed
qed simp_all

lemma move_service_wf:
  assumes "wf_sstate s" "wf_targets t"
  shows "wf_sstate (move_service t now s)" "ss_name (move_service t now s) = ss_name s"
proof -
  have "0 \<le> fl (4/10)" "fl (4/10) \<le> 1" "0 \<le> fl (3/10)" "fl (3/10) \<le> 1"
    by (simp_all add: f64.rnd_nonneg f64.rnd_le)
  with assms show "wf_sstate (move_service t now s)"
    by (simp add: wf_sstate_def wf_targets_def move_service_def Let_def pct_approach)
  show "ss_name (move_service t now s) = ss_name s" by (simp add: move_service_def Let_def)
qed

lemma yields_tickService:
  assumes "wf_sstate s"
  shows "yields (tickService s) (\<lambda>s'. wf_sstate s' \<and> ss_name s' = ss_name s)"
  unfolding tickService_def
  by (intro yields_bind [OF yields_tick_stress [OF assms]] yields_bind [OF yields_pick_targets]
      yields_now_bind yields_return) (auto simp: move_service_wf)

section \<open>Percentiles\<close>

definition wf_percs :: "percs \<Rightarrow> bool" where
  "wf_percs p \<longleftrightarrow> 100 \<le> pc_p50_us p \<and> pc_p50_us p \<le> pc_p95_us p \<and> pc_p95_us p \<le> pc_p99_us p \<and>
     0 \<le> pc_jitter_us p \<and> 0 \<le> pc_avg_us p"

lemma sorted_samples:
  assumes "\<forall>x \<in> set xs. is_double x"
  shows "sorted (js_sort (\<lambda>a b. fsub a b) xs)"
proof -
  have "consistent_cmp (set xs) (\<lambda>a b. fsub a b)" using assms consistent_by_number(1) [of "set xs" "\<lambda>x. x"] by simp
  from js_sort_sorted [OF this] have "sorted_wrt (\<lambda>x y. fsub x y \<le> 0) (js_sort (\<lambda>a b. fsub a b) xs)" .
  then show ?thesis by (rule sorted_wrt_mono_rel [rotated]) (use assms in \<open>simp add: double_diff_sign\<close>)
qed

lemma perc_indices:
  "perc_index 50 30 = 14" "perc_index 95 30 = 27" "perc_index 99 30 = 28" "perc_index 75 30 = 21"
  "perc_index 25 30 = 7"
proof -
  have "\<lfloor>fmul (fdiv 50 100) 29\<rfloor> = 14" "\<lfloor>fmul (fdiv 95 100) 29\<rfloor> = 27" "\<lfloor>fmul (fdiv 99 100) 29\<rfloor> = 28"
    "\<lfloor>fmul (fdiv 75 100) 29\<rfloor> = 21" "\<lfloor>fmul (fdiv 25 100) 29\<rfloor> = 7" by code_simp+
  then show "perc_index 50 30 = 14" "perc_index 95 30 = 27" "perc_index 99 30 = 28" "perc_index 75 30 = 21"
    "perc_index 25 30 = 7" by (simp_all add: perc_index_def)
qed

lemma percs_of_wf:
  assumes "length xs = SAMPLES" "\<forall>x \<in> set xs. is_double x \<and> fl (1/10) \<le> x"
  shows "wf_percs (percs_of xs)"
proof -
  let ?a = "js_sort (\<lambda>a b. fsub a b) xs"
  have len: "length ?a = 30" using assms(1) by (simp add: SAMPLES_def)
  have srt: "?a ! i \<le> ?a ! j" if "i \<le> j" "j < 30" for i j
    using sorted_samples [of xs] assms(2) len that by (simp add: sorted_iff_nth_mono)
  have ge: "fl (1/10) \<le> x" if "x \<in> set ?a" for x using assms(2) that by simp
  have "fl (fl (1/10) * 1000) = 100" by code_simp
  then have p: "100 \<le> fmul (?a ! 14) 1000"
    unfolding fmul_def using fl_mono [of "fl (1/10) * 1000" "?a ! 14 * 1000"] ge [OF nth_mem, of 14] len by simp
  have "0 \<le> fsub x y" if "y \<le> x" for x y using that by (simp add: fsub_def f64.rnd_nonneg)
  then have "0 \<le> fsub (?a ! 21) (?a ! 7)" using srt [of 7 21] by simp
  then have j: "0 \<le> fmul (fsub (?a ! 21) (?a ! 7)) 1000" by (simp add: fmul_nonneg)
  have "0 \<le> fl (1/10)" by (simp add: f64.rnd_nonneg)
  then have "0 \<le> fsum (\<lambda>v. v) ?a" using ge by (intro fsum_nonneg) force
  then have a: "0 \<le> fmul (fdiv (fsum (\<lambda>v. v) ?a) (of_nat (length ?a))) 1000"
    by (simp add: fmul_nonneg fdiv_nonneg)
  have m: "fmul (?a ! 14) 1000 \<le> fmul (?a ! 27) 1000" "fmul (?a ! 27) 1000 \<le> fmul (?a ! 28) 1000"
    unfolding fmul_def using srt [of 14 27] srt [of 27 28] by (auto intro!: fl_mono)
  from p j a m len show ?thesis by (simp add: wf_percs_def percs_of_def Let_def perc_indices)
qed

lemma yields_sample: "yields (sample base noise) (\<lambda>x. is_double x \<and> fl (1/10) \<le> x)"
  unfolding sample_def
  by (intro yields_bind [OF yields_rnd_any] yields_return) (simp add: max_def)

lemma yields_genPercs: "yields (genPercs c) wf_percs"
proof -
  have s: "yields (State_Monad.traverse_list (\<lambda>_. sample b n) [0..<SAMPLES]) (\<lambda>xs.
      length xs = SAMPLES \<and> (\<forall>x \<in> set xs. is_double x \<and> fl (1/10) \<le> x))" for b n
    by (rule yields_mono [OF yields_traverse [OF yields_sample]])
      (auto simp: list_all2_conv_all_nth in_set_conv_nth)
  have "yields (if cn_isSpike c then do { x \<leftarrow> rnd 8 25; State_Monad.return (fmul (cn_baseMs c) x) }
      else State_Monad.return (cn_baseMs c)) (\<lambda>_. True)"
    by (intro yields_if yields_return yields_bind [OF yields_rnd_any]) simp_all
  then show ?thesis unfolding genPercs_def Let_def
    by (elim yields_bind) (intro yields_bind [OF s] yields_return percs_of_wf, auto)
qed

text \<open>
  Whatever the random draws, the generated percentiles come out in order (p50 at least
  100 us, then p95, then p99), and the jitter and the average are not negative, with the
  rounding of every operation accounted for.
\<close>

lemma genPercs_ordered:
  assumes "valid_env e"
  shows "wf_percs (fst (run_state (genPercs c) e))"
  using yields_genPercs assms by (rule yieldsD)

section \<open>Connections\<close>

definition wf_cstate :: "ConnState \<Rightarrow> bool" where
  "wf_cstate c \<longleftrightarrow> cn_key c = connKey (cn_src c) (cn_dst c) \<and> cn_spikeTimer c \<le> 8 \<and>
     (cn_isSpike c \<longleftrightarrow> 0 < cn_spikeTimer c) \<and> 0 \<le> cn_spikeTimer c \<and> 0 \<le> cn_retransmitCount c \<and>
     0 \<le> cn_sampleCount c \<and> length (cn_history c) \<le> 301"

text \<open>One step of the spike state machine: a spike counts down, a new one lasts 3 to 8 ticks.\<close>

definition spike_rel :: "ConnState \<Rightarrow> ConnState \<Rightarrow> bool" where
  "spike_rel c c' \<longleftrightarrow> cn_src c' = cn_src c \<and> cn_dst c' = cn_dst c \<and> cn_key c' = cn_key c \<and>
     (if cn_isSpike c then cn_spikeTimer c' = cn_spikeTimer c - 1
      else cn_isSpike c' \<longrightarrow> 3 \<le> cn_spikeTimer c')"

lemma yields_close_one: "yields (close_one cs) (\<lambda>_. True)"
  unfolding close_one_def by (intro yields_rules) simp_all

lemma yields_spike_step:
  assumes "wf_cstate c"
  shows "yields (spike_step d c) (\<lambda>c'. wf_cstate c' \<and> spike_rel c c' \<and> cn_history c' = cn_history c)"
  unfolding spike_step_def Let_def
proof (intro yields_rules, goal_cases)
  case 1
  then show ?case using assms by (auto simp: wf_cstate_def spike_rel_def)
next
  case (2 r)
  have t: "yields (rnd 3 8) (\<lambda>x. 3 \<le> x \<and> x \<le> 8 \<and> is_double x)"
    and n: "yields (rnd 1 5) (\<lambda>x. 1 \<le> x \<and> x \<le> 5 \<and> is_double x)" by (rule yields_rnd; simp)+
  show ?case
  proof (intro yields_bind [OF t] yields_bind [OF n] yields_bind [OF yields_close_one] yields_return, goal_cases)
    case (1 t n cs)
    then have b: "3 \<le> \<lfloor>t\<rfloor>" "\<lfloor>t\<rfloor> \<le> 8" "1 \<le> \<lfloor>n\<rfloor>" by (simp_all add: le_floor_iff floor_le_iff)
    then have "0 < \<lfloor>t\<rfloor>" "0 \<le> \<lfloor>n\<rfloor>" by linarith+
    with b assms 2 show ?case by (simp add: wf_cstate_def spike_rel_def)
  qed
qed (use assms in \<open>simp add: spike_rel_def\<close>)

text \<open>What the body of the loop guarantees of its output.\<close>

definition conn_post :: "ServiceState \<Rightarrow> ConnState \<Rightarrow> conn_out \<Rightarrow> bool" where
  "conn_post d c o1 \<longleftrightarrow> (let c' = co_state o1; s = co_snap o1 in
     wf_cstate c' \<and> spike_rel c c' \<and> snapKey s = cn_key c \<and> is_spike s = cn_isSpike c' \<and>
     p50_us s \<le> p95_us s \<and> p95_us s \<le> p99_us s \<and> length (cn_history c') = Suc (min 300 (length (cn_history c))) \<and>
     dst_cpu_pct s = Some (ss_cpu_pct d) \<and> dst_io_wait_pct s = Some (ss_io_wait_pct d) \<and>
     dst_mem_pressure_pct s = Some (ss_mem_pressure_pct d) \<and> (cause_kind s \<noteq> None \<longleftrightarrow> is_spike s) \<and>
     (case co_event o1 of None \<Rightarrow> \<not> (cn_isSpike c' \<and> \<not> cn_isSpike c)
      | Some e \<Rightarrow> cn_isSpike c' \<and> \<not> cn_isSpike c \<and> wf_event e \<and> ev_key e = cn_key c))"

lemma classifyCause_total: "classifyCause c (Some d) \<noteq> None"
  by (auto simp: classifyCause_def split: option.split StressKind.split)

lemma yields_conn_tick:
  assumes "wf_cstate c" "obj_get svcs (cn_dst c) = Some d"
  shows "yields (conn_tick svcs n c) (\<lambda>r. \<exists>o1. r = Some o1 \<and> conn_post d c o1)"
  unfolding conn_tick_def Let_def assms(2)
proof (intro yields_bind [OF yields_spike_step [OF assms(1)]] yields_bind [OF yields_genPercs]
    yields_rules, goal_cases)
  case (1 c1 p)
  then show ?case using classifyCause_total by blast
next
  case (2 c1 p now t_id t_ev)
  then show ?case using assms(1) classifyCause_total
    by (auto simp: conn_post_def wf_cstate_def spike_rel_def wf_percs_def mock_snapshot_def snapKey_def
        mock_event_def wf_event_def SAMPLES_def Let_def)
next
  case (3 c1 p now)
  then show ?case using assms(1) classifyCause_total
    by (auto simp: conn_post_def wf_cstate_def spike_rel_def wf_percs_def mock_snapshot_def snapKey_def SAMPLES_def)
qed

definition add_conns :: "ConnState obj \<Rightarrow> conn_out list \<Rightarrow> tick_acc \<Rightarrow> tick_acc" where
  "add_conns cs os acc = fold (\<lambda>(kc, o1). add_conn (fst kc) o1) (zip cs os) acc"

definition knows :: "ServiceState obj \<Rightarrow> ConnState \<Rightarrow> bool" where
  "knows svcs c \<longleftrightarrow> obj_get svcs (cn_dst c) \<noteq> None"

lemma yields_conns_tick:
  assumes "obj_all (\<lambda>k c. wf_cstate c \<and> knows svcs c) cs"
  shows "yields (conns_tick svcs cs acc) (\<lambda>r. \<exists>os. r = Some (add_conns cs os acc) \<and>
    list_all2 (\<lambda>kc. conn_post (the (obj_get svcs (cn_dst (snd kc)))) (snd kc)) cs os)"
  using assms
proof (induction cs arbitrary: acc)
  case Nil
  show ?case by (simp add: yields_return add_conns_def)
next
  case (Cons kc cs)
  obtain k c where kc: "kc = (k, c)" by force
  with Cons.prems obtain d where d: "wf_cstate c" "obj_get svcs (cn_dst c) = Some d"
    by (auto simp: obj_all_def knows_def)
  have cs: "obj_all (\<lambda>k c. wf_cstate c \<and> knows svcs c) cs" using Cons.prems by (simp add: obj_all_def)
  show ?case unfolding kc conns_tick.simps
  proof (rule yields_bind [OF yields_conn_tick [OF d]], elim exE conjE, simp only: option.case)
    fix r o1 assume o1: "conn_post d c o1"
    show "yields (conns_tick svcs cs (add_conn k o1 acc)) (\<lambda>r. \<exists>os. r = Some (add_conns ((k, c) # cs) os acc) \<and>
      list_all2 (\<lambda>kc. conn_post (the (obj_get svcs (cn_dst (snd kc)))) (snd kc)) ((k, c) # cs) os)"
    proof (rule yields_mono [OF Cons.IH [OF cs, of "add_conn k o1 acc"]], elim exE conjE)
      fix x os assume "x = Some (add_conns cs os (add_conn k o1 acc))"
        "list_all2 (\<lambda>kc. conn_post (the (obj_get svcs (cn_dst (snd kc)))) (snd kc)) cs os"
      with o1 d show "\<exists>os. x = Some (add_conns ((k, c) # cs) os acc) \<and>
        list_all2 (\<lambda>kc. conn_post (the (obj_get svcs (cn_dst (snd kc)))) (snd kc)) ((k, c) # cs) os"
        by (intro exI [of _ "o1 # os"]) (simp add: add_conns_def)
    qed
  qed
qed

lemma add_conns_Nil [simp]: "add_conns [] os acc = acc"
  by (simp add: add_conns_def)

lemma add_conns_Cons [simp]: "add_conns ((k, c) # cs) (o1 # os) acc = add_conns cs os (add_conn k o1 acc)"
  by (simp add: add_conns_def)

lemma add_conn_fields [simp]:
  "ta_conns (add_conn k o1 acc) = ta_conns acc @ [(k, co_state o1)]"
  "ta_snapshots (add_conn k o1 acc) = obj_put (cn_key (co_state o1)) (co_snap o1) (ta_snapshots acc)"
  "ta_history (add_conn k o1 acc) = obj_put (cn_key (co_state o1))
     (map publish_point (cn_history (co_state o1))) (ta_history acc)"
  "ta_new (add_conn k o1 acc) = ta_new acc @ (case co_event o1 of None \<Rightarrow> [] | Some e \<Rightarrow> [e])"
  "ta_all (add_conn k o1 acc) = (case co_event o1 of None \<Rightarrow> ta_all acc | Some e \<Rightarrow> take 100 (e # ta_all acc))"
  by (simp_all add: add_conn_def Let_def split: option.split)

definition new_events :: "conn_out list \<Rightarrow> SpikeEvent list" where
  "new_events os = concat (map (\<lambda>o1. case co_event o1 of None \<Rightarrow> [] | Some e \<Rightarrow> [e]) os)"

lemma add_conns_fields:
  assumes "length cs = length os"
  shows "ta_conns (add_conns cs os acc) = ta_conns acc @ zip (map fst cs) (map co_state os)"
    and "ta_snapshots (add_conns cs os acc) =
      obj_puts (map (\<lambda>o1. (cn_key (co_state o1), co_snap o1)) os) (ta_snapshots acc)"
    and "ta_history (add_conns cs os acc) =
      obj_puts (map (\<lambda>o1. (cn_key (co_state o1), map publish_point (cn_history (co_state o1)))) os) (ta_history acc)"
    and "ta_new (add_conns cs os acc) = ta_new acc @ new_events os"
  using assms
  by (induction cs os arbitrary: acc rule: list_induct2) (auto simp: obj_puts_def new_events_def)

lemma add_conns_all:
  assumes "length cs = length os" "length (ta_all acc) \<le> 100"
  shows "ta_all (add_conns cs os acc) = take 100 (rev (new_events os) @ ta_all acc)"
  using assms
proof (induction cs os arbitrary: acc rule: list_induct2)
  case (Cons kc cs o1 os)
  then show ?case
  proof (cases "co_event o1")
    case (Some e)
    have "take 100 (xs @ e # take 99 ys) = take 100 (xs @ e # ys)" for xs ys :: "SpikeEvent list"
      by (simp add: take_Cons' min_def)
    with Some Cons show ?thesis
      using Cons.IH [of "add_conn (fst kc) o1 acc"] by (cases kc) (simp add: new_events_def del: take_append)
  qed (cases kc, simp add: new_events_def)
qed (simp add: new_events_def)

section \<open>The tick keeps the invariant\<close>

definition wf_mock_snapshot :: "StatSnapshot \<Rightarrow> bool" where
  "wf_mock_snapshot s \<longleftrightarrow> p50_us s \<le> p95_us s \<and> p95_us s \<le> p99_us s \<and> (cause_kind s \<noteq> None \<longleftrightarrow> is_spike s) \<and>
     (case dst_cpu_pct s of None \<Rightarrow> False | Some x \<Rightarrow> pct x) \<and>
     (case dst_io_wait_pct s of None \<Rightarrow> False | Some x \<Rightarrow> pct x) \<and>
     (case dst_mem_pressure_pct s of None \<Rightarrow> False | Some x \<Rightarrow> pct x)"

definition mock_inv :: "mock_hook \<Rightarrow> bool" where
  "mock_inv h \<longleftrightarrow>
     wf_obj (serviceState h) \<and> obj_all (\<lambda>k s. ss_name s = k \<and> wf_sstate s) (serviceState h) \<and>
     wf_obj (connState h) \<and>
     obj_all (\<lambda>k c. cn_key c = k \<and> wf_cstate c \<and> knows (serviceState h) c) (connState h) \<and>
     wf_obj (snapshots h) \<and> obj_all (\<lambda>k s. snapKey s = k \<and> wf_mock_snapshot s) (snapshots h) \<and>
     wf_obj (services h) \<and> obj_all (\<lambda>k s. sv_name s = k) (services h) \<and>
     obj_all (\<lambda>k ps. length ps \<le> 301) (conn_history h) \<and>
     events h = allEvents h \<and> length (events h) \<le> 100 \<and> list_all wf_event (events h)"

lemma knows_cong: "map fst svcs = map fst svcs' \<Longrightarrow> knows svcs c = knows svcs' c"
  unfolding knows_def obj_get_def by (metis map_of_eq_None_iff list.set_map)

text \<open>The services after their ticks: the same keys, each one well-formed.\<close>

definition svcs_post :: "ServiceState obj \<Rightarrow> ServiceState obj \<Rightarrow> bool" where
  "svcs_post svcs svcs' \<longleftrightarrow>
     list_all2 (\<lambda>ks ks'. fst ks' = fst ks \<and> wf_sstate (snd ks') \<and> ss_name (snd ks') = ss_name (snd ks)) svcs svcs'"

lemma svcs_post_keys: "svcs_post svcs svcs' \<Longrightarrow> map fst svcs' = map fst svcs"
  unfolding svcs_post_def by (induction rule: list_all2_induct) auto

lemma svcs_post_all:
  assumes "svcs_post svcs svcs'" "obj_all (\<lambda>k s. ss_name s = k \<and> wf_sstate s) svcs"
  shows "obj_all (\<lambda>k s. ss_name s = k \<and> wf_sstate s) svcs'"
  using assms unfolding svcs_post_def obj_all_def by (induction rule: list_all2_induct) auto

lemma yields_tick_services:
  assumes "obj_all (\<lambda>k s. ss_name s = k \<and> wf_sstate s) svcs"
  shows "yields (tick_services svcs) (svcs_post svcs)"
  unfolding svcs_post_def tick_services_def
proof (rule yields_traverse)
  fix ks assume "ks \<in> set svcs"
  then have "wf_sstate (snd ks)" using assms by (auto simp: obj_all_def list_all_iff)
  from yields_tickService [OF this]
  show "yields (case ks of (k, s) \<Rightarrow> do { s' \<leftarrow> tickService s; State_Monad.return (k, s') })
    (\<lambda>ks'. fst ks' = fst ks \<and> wf_sstate (snd ks') \<and> ss_name (snd ks') = ss_name (snd ks))"
    unfolding case_prod_beta by (elim yields_bind) (intro yields_return, simp)
qed

definition conns_post :: "ServiceState obj \<Rightarrow> ConnState obj \<Rightarrow> conn_out list \<Rightarrow> bool" where
  "conns_post svcs cs os \<longleftrightarrow> list_all2 (\<lambda>kc. conn_post (the (obj_get svcs (cn_dst (snd kc)))) (snd kc)) cs os"

lemma conns_post_conns:
  assumes "conns_post svcs cs os" "obj_all (\<lambda>k c. cn_key c = k \<and> wf_cstate c \<and> knows svcs c) cs"
  shows "obj_all (\<lambda>k c. cn_key c = k \<and> wf_cstate c \<and> knows svcs c) (zip (map fst cs) (map co_state os))"
  using assms unfolding conns_post_def obj_all_def
  by (induction rule: list_all2_induct) (auto simp: conn_post_def spike_rel_def knows_def Let_def)

lemma conns_post_snapshots:
  assumes "conns_post svcs cs os" "obj_all (\<lambda>k c. cn_key c = k \<and> wf_cstate c \<and> knows svcs c) cs"
    "obj_all (\<lambda>k s. ss_name s = k \<and> wf_sstate s) svcs"
  shows "list_all (\<lambda>(k, s). snapKey s = k \<and> wf_mock_snapshot s)
    (map (\<lambda>o1. (cn_key (co_state o1), co_snap o1)) os)"
  using assms(1,2) unfolding conns_post_def
proof (induction rule: list_all2_induct)
  case (Cons kc cs o1 os)
  then obtain d where d: "obj_get svcs (cn_dst (snd kc)) = Some d" by (auto simp: obj_all_def knows_def)
  then have "wf_sstate d" using obj_all_get [OF assms(3)] by blast
  with Cons d show ?case
    by (auto simp: obj_all_def conn_post_def Let_def spike_rel_def wf_mock_snapshot_def wf_sstate_def)
qed simp

lemma conns_post_history:
  assumes "conns_post svcs cs os"
  shows "list_all (\<lambda>(k, ps). length ps \<le> 301)
    (map (\<lambda>o1. (cn_key (co_state o1), map publish_point (cn_history (co_state o1)))) os)"
  using assms unfolding conns_post_def
  by (induction rule: list_all2_induct) (auto simp: conn_post_def Let_def wf_cstate_def)

lemma conns_post_events: "conns_post svcs cs os \<Longrightarrow> list_all wf_event (new_events os)"
  unfolding conns_post_def new_events_def
  by (induction rule: list_all2_induct) (auto simp: conn_post_def Let_def split: option.splits)

lemma conns_post_edges: "conns_post svcs cs os \<Longrightarrow>
    map ev_key (new_events os) =
    map (cn_key \<circ> snd \<circ> fst) (filter (\<lambda>(kc, o1). \<not> cn_isSpike (snd kc) \<and> cn_isSpike (co_state o1)) (zip cs os))"
  unfolding conns_post_def new_events_def
  by (induction rule: list_all2_induct) (auto simp: conn_post_def Let_def split: option.splits)

text \<open>The connections whose spike started between two states, in order.\<close>

definition started :: "ConnState obj \<Rightarrow> ConnState obj \<Rightarrow> string list" where
  "started cs cs' = map (fst \<circ> fst)
     (filter (\<lambda>(kc, kc'). \<not> cn_isSpike (snd kc) \<and> cn_isSpike (snd kc')) (zip cs cs'))"

definition step_rel :: "string \<times> ConnState \<Rightarrow> string \<times> ConnState \<Rightarrow> bool" where
  "step_rel kc kc' \<longleftrightarrow> fst kc' = fst kc \<and> spike_rel (snd kc) (snd kc') \<and>
     length (cn_history (snd kc')) = Suc (min 300 (length (cn_history (snd kc))))"

definition tick_rel :: "mock_hook \<Rightarrow> mock_hook \<Rightarrow> bool" where
  "tick_rel h h' \<longleftrightarrow>
     list_all2 step_rel (connState h) (connState h') \<and>
     conn_history h' = map (\<lambda>(k, c). (k, map publish_point (cn_history c))) (connState h') \<and>
     obj_keys (snapshots h') = obj_keys (connState h') \<and>
     (\<exists>new. events h' = take 100 (rev new @ events h) \<and> map ev_key new = started (connState h) (connState h'))"

lemma conns_post_started:
  assumes "conns_post svcs cs os" "obj_all (\<lambda>k c. cn_key c = k \<and> wf_cstate c \<and> knows svcs c) cs"
  shows "map ev_key (new_events os) = started cs (zip (map fst cs) (map co_state os))"
    and "list_all2 step_rel cs (zip (map fst cs) (map co_state os))"
    and "map (\<lambda>o1. (cn_key (co_state o1), map publish_point (cn_history (co_state o1)))) os =
      map (\<lambda>(k, c). (k, map publish_point (cn_history c))) (zip (map fst cs) (map co_state os))"
    and "map (cn_key \<circ> co_state) os = map fst cs"
proof -
  show "map ev_key (new_events os) = started cs (zip (map fst cs) (map co_state os))"
    using assms unfolding conns_post_def new_events_def obj_all_def
    by (induction rule: list_all2_induct)
      (auto simp: started_def conn_post_def Let_def split: option.splits)
  show "list_all2 step_rel cs (zip (map fst cs) (map co_state os))"
    using assms(1) unfolding conns_post_def
    by (induction rule: list_all2_induct) (auto simp: conn_post_def step_rel_def Let_def)
  show "map (\<lambda>o1. (cn_key (co_state o1), map publish_point (cn_history (co_state o1)))) os =
      map (\<lambda>(k, c). (k, map publish_point (cn_history c))) (zip (map fst cs) (map co_state os))"
    using assms unfolding conns_post_def obj_all_def
    by (induction rule: list_all2_induct) (auto simp: conn_post_def spike_rel_def Let_def)
  show "map (cn_key \<circ> co_state) os = map fst cs"
    using assms unfolding conns_post_def obj_all_def
    by (induction rule: list_all2_induct) (auto simp: conn_post_def spike_rel_def Let_def)
qed

lemma acc0_fields [simp]: "ta_conns (acc0 h) = []" "ta_snapshots (acc0 h) = []" "ta_history (acc0 h) = []"
  "ta_new (acc0 h) = []" "ta_all (acc0 h) = allEvents h"
  by (simp_all add: acc0_def)

lemma publish_tick_inv:
  assumes inv: "mock_inv h" and post: "svcs_post (serviceState h) svcs"
    and cs: "obj_all (\<lambda>k c. cn_key c = k \<and> wf_cstate c \<and> knows svcs c) (connState h)"
    and p: "conns_post svcs (connState h) os"
  shows "mock_inv (publish_tick svcs h (add_conns (connState h) os (acc0 h))) \<and>
    tick_rel h (publish_tick svcs h (add_conns (connState h) os (acc0 h)))" (is "mock_inv ?h \<and> _")
proof -
  have len: "length (connState h) = length os" using p by (simp add: conns_post_def list_all2_lengthD)
  note f = add_conns_fields [OF len, of "acc0 h"] add_conns_all [OF len, of "acc0 h"]
  have keys: "map fst svcs = map fst (serviceState h)" using post by (rule svcs_post_keys)
  have sv: "obj_all (\<lambda>k s. ss_name s = k \<and> wf_sstate s) svcs"
    using svcs_post_all [OF post] inv by (simp add: mock_inv_def)
  have e: "events h = allEvents h" "length (allEvents h) \<le> 100" using inv by (auto simp: mock_inv_def)
  have ev: "list_all wf_event (take 100 (rev (new_events os) @ allEvents h))"
    using conns_post_events [OF p] inv by (intro list_all_take) (auto simp: mock_inv_def)
  have wf: "wf_obj (zip (map fst (connState h)) (map co_state os))" "wf_obj svcs"
    using inv len keys by (simp_all add: wf_obj_def mock_inv_def)
  note s = conns_post_started [OF p cs]
  have d: "distinct (map fst (connState h))" using inv by (simp add: mock_inv_def wf_obj_def)
  have k: "map fst (map (\<lambda>o1. (cn_key (co_state o1), f o1)) os) = map fst (connState h)" for f :: "_ \<Rightarrow> 'b"
    using s(4) by (simp add: comp_def)
  have pu: "obj_puts (map (\<lambda>o1. (cn_key (co_state o1), f o1)) os) [] = map (\<lambda>o1. (cn_key (co_state o1), f o1)) os"
    for f :: "_ \<Rightarrow> 'b"
    using obj_puts_distinct [of "[]" "map (\<lambda>o1. (cn_key (co_state o1), f o1)) os"] d k [of f] by simp
  have "conn_history ?h = map (\<lambda>(k, c). (k, map publish_point (cn_history c))) (connState ?h)"
    by (simp add: publish_tick_def f pu) (rule s(3))
  moreover have "obj_keys (snapshots ?h) = obj_keys (connState ?h)"
    using k [of co_snap] len by (simp add: publish_tick_def f pu obj_keys_def)
  moreover have "obj_all (\<lambda>k s. sv_name s = k) (services ?h)"
    by (simp add: publish_tick_def mock_service_def list_all_iff obj_all_puts)
  ultimately show ?thesis
    using wf sv conns_post_conns [OF p cs] s(1,2) ev e
      obj_all_puts [OF obj_all_empty conns_post_snapshots [OF p cs sv]]
      obj_all_puts [OF obj_all_empty conns_post_history [OF p]]
    by (auto simp: mock_inv_def tick_rel_def publish_tick_def f simp del: take_append)
qed

lemma yields_tick:
  assumes "mock_inv h"
  shows "yields (tick h) (\<lambda>r. \<exists>h'. r = Some h' \<and> mock_inv h' \<and> tick_rel h h')"
proof -
  have sv: "obj_all (\<lambda>k s. ss_name s = k \<and> wf_sstate s) (serviceState h)"
    using assms by (simp add: mock_inv_def)
  show ?thesis unfolding tick_def
  proof (rule yields_bind [OF yields_tick_services [OF sv]])
    fix svcs assume post: "svcs_post (serviceState h) svcs"
    have cs: "obj_all (\<lambda>k c. cn_key c = k \<and> wf_cstate c \<and> knows svcs c) (connState h)"
      using assms knows_cong [OF svcs_post_keys [OF post]] by (simp add: obj_all_def mock_inv_def)
    then have cs': "obj_all (\<lambda>k c. wf_cstate c \<and> knows svcs c) (connState h)"
      by (auto simp: obj_all_def list_all_iff)
    show "yields (do { r \<leftarrow> conns_tick svcs (connState h) (acc0 h);
        State_Monad.return (map_option (publish_tick svcs h) r) })
        (\<lambda>r. \<exists>h'. r = Some h' \<and> mock_inv h' \<and> tick_rel h h')"
      by (rule yields_bind [OF yields_conns_tick [OF cs']], elim exE conjE, rule yields_return)
        (use publish_tick_inv [OF assms post cs] in \<open>simp add: conns_post_def\<close>)
  qed
qed

section \<open>Every tick of the hook\<close>

lemma yields_init_service: "yields (init_service svc) (\<lambda>ks. fst ks = svc \<and> ss_name (snd ks) = svc \<and> wf_sstate (snd ks))"
  unfolding init_service_def
  by (intro yields_rand_bind yields_return) (auto simp: wf_sstate_def, simp add: pct_def)

lemma conn_defs_known: "list_all (\<lambda>d. cd_dst d \<in> set (INTERNAL_SERVICES @ EXTERNAL_SERVICES)) CONN_DEFS"
  by (simp add: CONN_DEFS_def INTERNAL_SERVICES_def EXTERNAL_SERVICES_def)

lemma yields_mock_init: "yields mock_init mock_inv"
  unfolding mock_init_def
proof (rule yields_bind [OF yields_traverse [OF yields_init_service]], rule yields_return)
  fix svcs
  assume a: "list_all2 (\<lambda>svc ks. fst ks = svc \<and> ss_name (snd ks) = svc \<and> wf_sstate (snd ks))
    (INTERNAL_SERVICES @ EXTERNAL_SERVICES) svcs"
  have fst: "map fst svcs = INTERNAL_SERVICES @ EXTERNAL_SERVICES"
    using a by (induction rule: list_all2_induct) auto
  have "list_all (\<lambda>(k, s). ss_name s = k \<and> wf_sstate s) svcs"
    using a by (induction rule: list_all2_induct) auto
  then have "obj_all (\<lambda>k s. ss_name s = k \<and> wf_sstate s) (obj_puts svcs [])" by (intro obj_all_puts) simp_all
  moreover have "knows (obj_puts svcs []) (snd (init_conn d))" if "d \<in> set CONN_DEFS" for d
    using conn_defs_known that set_keys_obj_puts [of svcs "[]"] fst
    unfolding knows_def js_obj.keys_get [symmetric] by (simp add: list_all_iff init_conn_def Let_def)
  then have "obj_all (\<lambda>k c. cn_key c = k \<and> wf_cstate c \<and> knows (obj_puts svcs []) c)
      (obj_puts (map init_conn CONN_DEFS) [])"
    by (intro obj_all_puts) (auto simp: list_all_iff init_conn_def wf_cstate_def Let_def)
  ultimately show "mock_inv (ws_state.extend ws_init
      \<lparr>serviceState = obj_puts svcs [], connState = obj_puts (map init_conn CONN_DEFS) [],
       allEvents = [], eventCounter = 0\<rparr>)"
    by (simp add: mock_inv_def ws_init_def ws_state.defs)
qed

lemma yields_mock_ticks: "yields (mock_ticks n) (\<lambda>r. \<exists>h. r = Some h \<and> mock_inv h)"
proof (induction n)
  case 0
  show ?case unfolding mock_ticks.simps
    by (rule yields_bind [OF yields_mock_init], rule yields_mono [OF yields_tick]) auto
next
  case (Suc n)
  show ?case unfolding mock_ticks.simps
    by (rule yields_bind [OF Suc], elim exE conjE, simp, rule yields_mono [OF yields_tick]) auto
qed

text \<open>
  C6: the simulated source runs for ever without an exception: after any number of ticks,
  whatever the random draws, the hook's state satisfies its invariant. All load percentages
  stay in \<open>[0, 100]\<close> (each step is rounded three times); stress and spike flags agree with
  their timers; every connection's destination is a known service; every snapshot has
  ordered percentiles, a cause exactly while it is spiking, and its own key; the histories
  hold at most 301 points and the log at most 100 events.
\<close>

theorem mock_ticks_ok:
  assumes "valid_env e"
  shows "\<exists>h. fst (run_state (mock_ticks n) e) = Some h \<and> mock_inv h"
  using yieldsD [OF yields_mock_ticks assms] by simp

text \<open>
  C26: one tick of the simulated source. The event log gains exactly one event for each
  connection whose spike starts in this tick, in the order of the connections, newest
  first and cut to a hundred; a spike counts down by one and a new one gets at least three
  ticks; and the published maps have exactly the simulated connections.
\<close>

theorem mock_tick_step:
  assumes "valid_env e" "mock_inv h"
  shows "\<exists>h'. fst (run_state (tick h) e) = Some h' \<and> tick_rel h h'"
  using yieldsD [OF yields_tick [OF assms(2)] assms(1)] by blast

section \<open>Spikes end\<close>

fun ticks_from :: "nat \<Rightarrow> mock_hook \<Rightarrow> (env, mock_hook option) state" where
  "ticks_from 0 h = State_Monad.return (Some h)"
| "ticks_from (Suc n) h = do {
     r \<leftarrow> tick h;
     case r of None \<Rightarrow> State_Monad.return None | Some h' \<Rightarrow> ticks_from n h' }"

lemma step_rel_get:
  "list_all2 step_rel cs cs' \<Longrightarrow> obj_get cs k = Some c \<Longrightarrow> \<exists>c'. obj_get cs' k = Some c' \<and> step_rel (k, c) (k, c')"
  unfolding obj_get_def by (induction rule: list_all2_induct) (auto simp: step_rel_def split: if_splits)

lemma mock_inv_conn: "mock_inv h \<Longrightarrow> obj_get (connState h) k = Some c \<Longrightarrow> wf_cstate c"
  unfolding mock_inv_def using obj_all_get by fastforce

lemma yields_ticks_from:
  assumes "mock_inv h" "obj_get (connState h) k = Some c" "cn_spikeTimer c = int n + t" "0 \<le> t"
  shows "yields (ticks_from n h) (\<lambda>r. \<exists>h' c'. r = Some h' \<and> mock_inv h' \<and>
    obj_get (connState h') k = Some c' \<and> cn_spikeTimer c' = t)"
  using assms(1-3)
proof (induction n arbitrary: h c)
  case 0
  then show ?case by (auto intro: yields_return)
next
  case (Suc n)
  have "0 < cn_spikeTimer c" using Suc.prems(3) assms(4) by simp
  then have sp: "cn_isSpike c" using mock_inv_conn [OF Suc.prems(1,2)] by (simp add: wf_cstate_def)
  show ?case unfolding ticks_from.simps
  proof (rule yields_bind [OF yields_tick [OF Suc.prems(1)]], elim exE conjE, simp only: option.case)
    fix r h' assume h': "mock_inv h'" "tick_rel h h'"
    then obtain c' where c': "obj_get (connState h') k = Some c'" "step_rel (k, c) (k, c')"
      using step_rel_get [OF _ Suc.prems(2)] by (auto simp: tick_rel_def)
    then have "cn_spikeTimer c' = int n + t" using sp Suc.prems(3) by (simp add: step_rel_def spike_rel_def)
    with Suc.IH [OF h'(1) c'(1)] show "yields (ticks_from n h') (\<lambda>r. \<exists>h' c'. r = Some h' \<and> mock_inv h' \<and>
      obj_get (connState h') k = Some c' \<and> cn_spikeTimer c' = t)" by simp
  qed
qed

text \<open>
  A spike ends when its timer says: a connection that is spiking with \<open>t\<close> ticks left
  (never more than eight) is still spiking after any fewer ticks and is not after \<open>t\<close>.
\<close>

lemma mock_spike_ends:
  assumes "valid_env e" "mock_inv h" "obj_get (connState h) k = Some c" "cn_isSpike c"
    "int n \<le> cn_spikeTimer c"
  shows "cn_spikeTimer c \<le> 8 \<and> (\<exists>h' c'. fst (run_state (ticks_from n h) e) = Some h' \<and>
    obj_get (connState h') k = Some c' \<and> (cn_isSpike c' \<longleftrightarrow> int n < cn_spikeTimer c))"
proof -
  have "yields (ticks_from n h) (\<lambda>r. \<exists>h' c'. r = Some h' \<and> mock_inv h' \<and>
    obj_get (connState h') k = Some c' \<and> cn_spikeTimer c' = cn_spikeTimer c - int n)"
    by (rule yields_ticks_from [OF assms(2,3)]) (use assms(5) in simp_all)
  from yieldsD [OF this assms(1)] obtain h' c' where h': "fst (run_state (ticks_from n h) e) = Some h'"
    "mock_inv h'" "obj_get (connState h') k = Some c'" "cn_spikeTimer c' = cn_spikeTimer c - int n" by blast
  moreover have "cn_isSpike c' \<longleftrightarrow> 0 < cn_spikeTimer c'" using mock_inv_conn [OF h'(2,3)] by (simp add: wf_cstate_def)
  ultimately show ?thesis using mock_inv_conn [OF assms(2,3)] by (simp add: wf_cstate_def)
qed

section \<open>How long the histories get\<close>

definition hist_len :: "nat \<Rightarrow> mock_hook \<Rightarrow> bool" where
  "hist_len n h \<longleftrightarrow> list_all (\<lambda>(k, c). length (cn_history c) = n) (connState h)"

lemma hist_len_tick: "tick_rel h h' \<Longrightarrow> hist_len n h \<Longrightarrow> hist_len (Suc (min 300 n)) h'"
  unfolding tick_rel_def hist_len_def
proof (elim conjE)
  assume "list_all2 step_rel (connState h) (connState h')" "list_all (\<lambda>(k, c). length (cn_history c) = n) (connState h)"
  then show "list_all (\<lambda>(k, c). length (cn_history c) = Suc (min 300 n)) (connState h')"
    by (induction rule: list_all2_induct) (auto simp: step_rel_def)
qed

lemma yields_mock_init_len: "yields mock_init (\<lambda>h. mock_inv h \<and> hist_len 0 h)"
proof (rule yields_conj [OF yields_mock_init])
  have "hist_len 0 (ws_state.extend ws_init \<lparr>serviceState = s, connState = obj_puts (map init_conn CONN_DEFS) [],
      allEvents = [], eventCounter = 0\<rparr>)" for s
    unfolding hist_len_def
    using obj_all_puts [of "\<lambda>k c. length (cn_history c) = 0" "[]" "map init_conn CONN_DEFS"]
    by (simp add: obj_all_def list_all_iff init_conn_def Let_def ws_state.defs)
  then show "yields mock_init (hist_len 0)" unfolding mock_init_def
    by (intro yields_bind [OF yields_traverse [OF yields_init_service]] yields_return)
qed

lemma yields_mock_ticks_len:
  "yields (mock_ticks n) (\<lambda>r. \<exists>h. r = Some h \<and> mock_inv h \<and> hist_len (min (Suc n) 301) h \<and>
    conn_history h = map (\<lambda>(k, c). (k, map publish_point (cn_history c))) (connState h))"
proof (induction n)
  case 0
  have "yields (tick h) (\<lambda>r. \<exists>h. r = Some h \<and> mock_inv h \<and> hist_len (min (Suc 0) 301) h \<and>
      conn_history h = map (\<lambda>(k, c). (k, map publish_point (cn_history c))) (connState h))"
    if "mock_inv h \<and> hist_len 0 h" for h
    using that hist_len_tick [of h _ 0] by (intro yields_mono [OF yields_tick]) (auto simp: tick_rel_def)
  then show ?case unfolding mock_ticks.simps by (rule yields_bind [OF yields_mock_init_len])
next
  case (Suc n)
  have m: "Suc (min 300 (min (Suc n) 301)) = min (Suc (Suc n)) 301" by simp
  show ?case unfolding mock_ticks.simps
  proof (rule yields_bind [OF Suc], elim exE conjE, simp only: option.case)
    fix h assume h: "mock_inv h" "hist_len (min (Suc n) 301) h"
    show "yields (tick h) (\<lambda>r. \<exists>h. r = Some h \<and> mock_inv h \<and> hist_len (min (Suc (Suc n)) 301) h \<and>
      conn_history h = map (\<lambda>(k, c). (k, map publish_point (cn_history c))) (connState h))"
      using hist_len_tick [OF _ h(2)] m h(1) by (intro yields_mono [OF yields_tick]) (auto simp: tick_rel_def)
  qed
qed

text \<open>
  After its first tick and \<open>n\<close> more, every published history of the simulated source
  holds exactly \<open>min (n + 1) 301\<close> points: one more than the 300 that the slice names, since
  the new point is appended after the cut.
\<close>

lemma mock_history_length:
  assumes "valid_env e"
  shows "\<exists>h. fst (run_state (mock_ticks n) e) = Some h \<and>
    list_all (\<lambda>(k, ps). length ps = min (Suc n) 301) (conn_history h)"
  using yieldsD [OF yields_mock_ticks_len assms, of n] by (fastforce simp: hist_len_def list_all_iff)

section \<open>Concrete instances\<close>

definition env0 :: env where
  "env0 = \<lparr>draws = \<lambda>_. 1/2, drawn = 0, clock = int, ticked = 0\<rparr>"

definition hook0 :: mock_hook where
  "hook0 = ws_state.extend ws_init
     \<lparr>serviceState = [(''db'', \<lparr>ss_name = ''db'', ss_cpu_pct = 20, ss_io_wait_pct = 4, ss_mem_pressure_pct = 10,
        ss_cpu_throttle_pct = 0, ss_stressKind = None, ss_stressTimer = 0, ss_history = []\<rparr>)],
      connState = [(connKey ''web'' ''db'', (snd (init_conn
        \<lparr>cd_src = ''web'', cd_dst = ''db'', cd_baseMs = 3, cd_noiseMs = 1\<rparr>))\<lparr>cn_isSpike := True, cn_spikeTimer := 2\<rparr>)],
      allEvents = [], eventCounter = 0\<rparr>"

lemma valid_env0: "valid_env env0"
proof -
  have "fl (1/2) = 1/2" by code_simp
  then show ?thesis by (simp add: valid_env_def env0_def is_double_def)
qed

lemma mock_inv_hook0: "mock_inv hook0"
  by (simp add: mock_inv_def hook0_def ws_state.defs ws_init_def wf_obj_def obj_all_def wf_sstate_def pct_def
      wf_cstate_def init_conn_def knows_def obj_get_def Let_def)

theorem mock_ticks_ok_witness: "\<exists>h. fst (run_state (mock_ticks 5) env0) = Some h \<and> mock_inv h"
  by (rule mock_ticks_ok [OF valid_env0])

theorem mock_tick_step_witness: "\<exists>h'. fst (run_state (tick hook0) env0) = Some h' \<and> tick_rel hook0 h'"
  by (rule mock_tick_step [OF valid_env0 mock_inv_hook0])

end
