(* ===== verification/ConnectionList.thy ===== *)
theory ConnectionList
  imports Format
begin

text \<open>
  \<open>components/ConnectionListView.tsx\<close>: the filter chips, the sorted table and its rows.
  \<open>String.prototype.localeCompare\<close> depends on the locale and is the argument \<open>lc\<close>; what the
  table relies on is that it is a consistent comparison. The other arithmetic of the
  comparison function is exact in sign on doubles.
\<close>

datatype FilterMode = F_all | F_spiking | F_stressed

datatype SortCol = C_connection | C_p50 | C_p95 | C_p99 | C_retrans

datatype SortDir = Asc | Desc

record list_state =
  filterMode :: FilterMode
  sortCol :: SortCol
  sortDir :: SortDir

definition list_init :: list_state where
  "list_init = \<lparr>filterMode = F_all, sortCol = C_p99, sortDir = Desc\<rparr>"

definition dst_stressed :: "StatSnapshot \<Rightarrow> bool" where
  "dst_stressed s \<longleftrightarrow> nullish (dst_cpu_pct s) 0 > 70 \<or> nullish (dst_io_wait_pct s) 0 > 30 \<or>
     nullish (dst_mem_pressure_pct s) 0 > 70"

text \<open>The number on the chip asks for a defined cpu percentage as well.\<close>

definition stressed_chip :: "SnapshotMap \<Rightarrow> nat" where
  "stressed_chip snapshots =
     length (filter (\<lambda>s. dst_cpu_pct s \<noteq> None \<and> dst_stressed s) (obj_values snapshots))"

definition spiking_chip :: "SnapshotMap \<Rightarrow> nat" where
  "spiking_chip snapshots = length (filter is_spike (obj_values snapshots))"

fun keeps :: "FilterMode \<Rightarrow> StatSnapshot \<Rightarrow> bool" where
  "keeps F_all s = True"
| "keeps F_spiking s = is_spike s"
| "keeps F_stressed s = dst_stressed s"

fun col_value :: "SortCol \<Rightarrow> StatSnapshot \<Rightarrow> number" where
  "col_value C_connection s = 0"
| "col_value C_p50 s = p50_us s"
| "col_value C_p95 s = p95_us s"
| "col_value C_p99 s = p99_us s"
| "col_value C_retrans s = retransmit_count s"

definition sort_cmp ::
  "(string \<Rightarrow> string \<Rightarrow> number) \<Rightarrow> SortCol \<Rightarrow> SortDir \<Rightarrow> StatSnapshot \<Rightarrow> StatSnapshot \<Rightarrow> number" where
  "sort_cmp lc col dir a b =
     (let av = col_value col a; bv = col_value col b
      in if col = C_connection then
           (let ak = snapKey a; bk = snapKey b in if dir = Asc then lc ak bk else lc bk ak)
         else if dir = Asc then fsub av bv else fsub bv av)"

definition filtered ::
  "(string \<Rightarrow> string \<Rightarrow> number) \<Rightarrow> list_state \<Rightarrow> SnapshotMap \<Rightarrow> StatSnapshot list" where
  "filtered lc st snapshots =
     js_sort (sort_cmp lc (sortCol st) (sortDir st)) (filter (keeps (filterMode st)) (obj_values snapshots))"

definition flip :: "SortDir \<Rightarrow> SortDir" where
  "flip d = (if d = Asc then Desc else Asc)"

definition handleSort :: "SortCol \<Rightarrow> list_state \<Rightarrow> list_state" where
  "handleSort col st =
     (if col = sortCol st then st\<lparr>sortDir := flip (sortDir st)\<rparr>
      else st\<lparr>sortCol := col, sortDir := Desc\<rparr>)"

definition setFilter :: "FilterMode \<Rightarrow> list_state \<Rightarrow> list_state" where
  "setFilter mode st = st\<lparr>filterMode := mode\<rparr>"

definition sortIcon :: "list_state \<Rightarrow> SortCol \<Rightarrow> string" where
  "sortIcon st col =
     (if sortCol st = col then (if sortDir st = Asc then '' '' @ utf8 [0xE2, 0x96, 0xB2] else '' '' @ utf8 [0xE2, 0x96, 0xBC])
      else [])"

section \<open>Rows\<close>

record pill =
  pl_text :: string
  pl_color :: string
  pl_bg :: string

definition CausePill :: "CauseKind \<Rightarrow> pill" where
  "CausePill cause =
     (let meta = CAUSE_META cause
      in \<lparr>pl_text = cm_icon meta @ '' '' @ cm_label meta, pl_color = cm_color meta, pl_bg = cm_color meta @ ''14''\<rparr>)"

record list_row =
  lr_key :: string
  lr_selected :: bool
  lr_spike_dot :: bool
  lr_edge :: string
  lr_ext :: bool
  lr_p50 :: string
  lr_p95 :: string
  lr_p99 :: string
  lr_p99_color :: string
  lr_retrans :: number
  lr_retrans_color :: string
  lr_status :: pill

definition list_row :: "string option \<Rightarrow> StatSnapshot \<Rightarrow> list_row" where
  "list_row selectedKey snap =
     (let key = snapKey snap; status = latencyStatus (p99_us snap)
      in \<lparr>lr_key = key, lr_selected = (selectedKey = Some key), lr_spike_dot = is_spike snap,
          lr_edge = src_service snap @ '' '' @ arrow @ '' '' @ dst_service snap,
          lr_ext = (dst_type snap = External), lr_p50 = fmtUs (p50_us snap), lr_p95 = fmtUs (p95_us snap),
          lr_p99 = fmtUs (p99_us snap), lr_p99_color = STATUS_COLOR status,
          lr_retrans = retransmit_count snap,
          lr_retrans_color = (if retransmit_count snap > 0 then ''#ea580c'' else ''var(--text-faint)''),
          lr_status = (if is_spike snap \<and> cause_kind snap \<noteq> None then CausePill (the (cause_kind snap))
            else \<lparr>pl_text = status_text status, pl_color = STATUS_COLOR status, pl_bg = STATUS_BG status\<rparr>)\<rparr>)"

record list_view =
  lv_chips :: "(FilterMode \<times> string \<times> bool) list"
  lv_head :: "string list"
  lv_rows :: "list_row list"

definition ConnectionListView ::
  "(string \<Rightarrow> string \<Rightarrow> number) \<Rightarrow> list_state \<Rightarrow> SnapshotMap \<Rightarrow> string option \<Rightarrow> list_view" where
  "ConnectionListView lc st snapshots selectedKey =
     (let dot = utf8 [0xC2, 0xB7]
      in \<lparr>lv_chips = map (\<lambda>(mode, label). (mode, label, filterMode st = mode))
           [(F_all, ''All '' @ dot @ '' '' @ show_nat (length (obj_values snapshots))),
            (F_spiking, utf8 [0xF0, 0x9F, 0x94, 0xB4] @ '' Spiking '' @ dot @ '' '' @ show_nat (spiking_chip snapshots)),
            (F_stressed, utf8 [0xE2, 0x9A, 0xA1] @ '' Stressed '' @ dot @ '' '' @ show_nat (stressed_chip snapshots))],
          lv_head = [''Connection'' @ sortIcon st C_connection, ''P50'' @ sortIcon st C_p50, ''P95'' @ sortIcon st C_p95,
            ''P99'' @ sortIcon st C_p99, ''Retrans'' @ sortIcon st C_retrans, ''Status''],
          lv_rows = map (list_row selectedKey) (filtered lc st snapshots)\<rparr>)"

section \<open>The table\<close>

text \<open>The order a reader expects of two rows in the chosen column and direction.\<close>

definition in_order ::
  "(string \<Rightarrow> string \<Rightarrow> number) \<Rightarrow> list_state \<Rightarrow> StatSnapshot \<Rightarrow> StatSnapshot \<Rightarrow> bool" where
  "in_order lc st a b \<longleftrightarrow>
     (let (x, y) = (if sortDir st = Asc then (a, b) else (b, a))
      in if sortCol st = C_connection then lc (snapKey x) (snapKey y) \<le> 0
         else col_value (sortCol st) x \<le> col_value (sortCol st) y)"

lemma sort_cmp_in_order:
  assumes "is_double (col_value (sortCol st) a)" "is_double (col_value (sortCol st) b)"
  shows "sort_cmp lc (sortCol st) (sortDir st) a b \<le> 0 \<longleftrightarrow> in_order lc st a b"
  using assms by (cases "sortDir st") (auto simp: sort_cmp_def in_order_def double_diff_sign Let_def)

lemma sort_cmp_consistent:
  fixes st :: list_state
  assumes "consistent_cmp UNIV lc" "\<And>s. s \<in> A \<Longrightarrow> is_double (col_value (sortCol st) s)"
  shows "consistent_cmp A (sort_cmp lc (sortCol st) (sortDir st))"
proof -
  have "in_order lc st a b \<or> in_order lc st b a" for a b
    using assms(1) by (auto simp: in_order_def consistent_cmp_def)
  moreover have "in_order lc st a b \<Longrightarrow> in_order lc st b c \<Longrightarrow> in_order lc st a c" for a b c
    using assms(1) unfolding consistent_cmp_def in_order_def by (auto split: if_splits)
  ultimately show ?thesis unfolding consistent_cmp_def
    by (simp add: sort_cmp_in_order assms(2))
qed

text \<open>
  C7: the table shows exactly the connections that the chosen filter keeps, each once, in
  the order of the chosen column and direction; connections that tie keep the order in which
  they first appeared. The comparison of connection names is any consistent one.
\<close>

theorem table_sorted:
  assumes "consistent_cmp UNIV lc"
    and "\<forall>s \<in> set (obj_values snapshots). is_double (col_value (sortCol st) s)"
  shows "sorted_wrt (in_order lc st) (filtered lc st snapshots) \<and>
    mset (filtered lc st snapshots) = filter_mset (keeps (filterMode st)) (mset (obj_values snapshots)) \<and>
    (\<forall>a \<in> set (filtered lc st snapshots).
      filter (\<lambda>b. in_order lc st a b \<and> in_order lc st b a) (filtered lc st snapshots) =
      filter (\<lambda>b. in_order lc st a b \<and> in_order lc st b a \<and> keeps (filterMode st) b) (obj_values snapshots))"
proof -
  let ?xs = "filter (keeps (filterMode st)) (obj_values snapshots)"
  let ?cmp = "sort_cmp lc (sortCol st) (sortDir st)"
  have dbl: "is_double (col_value (sortCol st) s)" if "s \<in> set ?xs" for s using that assms(2) by simp
  have c: "consistent_cmp (set ?xs) ?cmp" using assms(1) dbl by (rule sort_cmp_consistent)
  have io: "?cmp a b \<le> 0 \<longleftrightarrow> in_order lc st a b" if "a \<in> set ?xs" "b \<in> set ?xs" for a b
    using sort_cmp_in_order dbl that by blast
  have "sorted_wrt (\<lambda>a b. ?cmp a b \<le> 0) (filtered lc st snapshots)"
    unfolding filtered_def by (rule js_sort_sorted [OF c])
  then have s: "sorted_wrt (in_order lc st) (filtered lc st snapshots)"
    by (rule sorted_wrt_mono_rel [rotated]) (use io in \<open>simp add: filtered_def\<close>)
  have "filter (\<lambda>b. in_order lc st a b \<and> in_order lc st b a) (filtered lc st snapshots) =
      filter (\<lambda>b. in_order lc st a b \<and> in_order lc st b a \<and> keeps (filterMode st) b) (obj_values snapshots)"
    if a: "a \<in> set ?xs" for a
  proof -
    have "filter (\<lambda>b. in_order lc st a b \<and> in_order lc st b a) (js_sort ?cmp ?xs) =
        filter (\<lambda>b. ?cmp a b \<le> 0 \<and> ?cmp b a \<le> 0) (js_sort ?cmp ?xs)"
      by (rule filter_cong) (use io a in simp_all)
    also have "\<dots> = filter (\<lambda>b. ?cmp a b \<le> 0 \<and> ?cmp b a \<le> 0) ?xs"
      by (rule js_sort_stable) (use c a in \<open>simp add: insert_absorb\<close>)
    also have "\<dots> = filter (\<lambda>b. in_order lc st a b \<and> in_order lc st b a) ?xs"
      by (rule filter_cong) (use io a in simp_all)
    finally show ?thesis by (simp add: filtered_def conj_commute conj_left_commute)
  qed
  with s show ?thesis by (simp add: filtered_def)
qed

theorem table_sorted_witness:
  "sorted_wrt (in_order str_cmp list_init) (filtered str_cmp list_init
     [(''a'', sample_snap False 100), (''b'', sample_snap True 90000)])"
  using table_sorted [of str_cmp "[(''a'', sample_snap False 100), (''b'', sample_snap True 90000)]" list_init]
    consistent_str_cmp [of UNIV]
  by (simp add: list_init_def sample_snap_def obj_values_def)

lemma flip_flip [simp]: "flip (flip d) = d"
  by (cases d) (simp_all add: flip_def)

text \<open>
  Clicking the header of another column sorts by it, largest first; clicking the same
  header again reverses the rows' order, and a third click restores it. The filter is kept.
\<close>

lemma handleSort_cycle:
  "(col \<noteq> sortCol st \<longrightarrow> sortCol (handleSort col st) = col \<and> sortDir (handleSort col st) = Desc) \<and>
   filterMode (handleSort col st) = filterMode st \<and>
   (in_order lc (handleSort col (handleSort col st)) a b \<longleftrightarrow> in_order lc (handleSort col st) b a) \<and>
   handleSort col (handleSort col (handleSort col st)) = handleSort col st"
  by (cases "sortDir st") (auto simp: handleSort_def in_order_def flip_def)

text \<open>
  The number on the \<open>Stressed\<close> chip never exceeds the number of rows the chip's filter
  shows, and the two agree when every snapshot carries a cpu percentage; a snapshot without
  one whose I/O wait is high is listed but not counted.
\<close>

lemma stressed_chip_vs_rows:
  shows "stressed_chip snapshots \<le> length (filtered lc (setFilter F_stressed st) snapshots) \<and>
    ((\<forall>s \<in> set (obj_values snapshots). dst_cpu_pct s \<noteq> None) \<longrightarrow>
      stressed_chip snapshots = length (filtered lc (setFilter F_stressed st) snapshots)) \<and>
    (\<exists>snaps. stressed_chip snaps = 0 \<and> length (filtered lc (setFilter F_stressed st) snaps) = 1)"
proof (intro conjI impI)
  show "stressed_chip snapshots \<le> length (filtered lc (setFilter F_stressed st) snapshots)"
    unfolding stressed_chip_def filtered_def setFilter_def by (simp, rule length_filter_mono, simp)
  show "stressed_chip snapshots = length (filtered lc (setFilter F_stressed st) snapshots)"
    if "\<forall>s \<in> set (obj_values snapshots). dst_cpu_pct s \<noteq> None"
    unfolding stressed_chip_def filtered_def setFilter_def
    using that by (auto intro!: arg_cong [where f = length] filter_cong)
  show "\<exists>snaps. stressed_chip snaps = 0 \<and> length (filtered lc (setFilter F_stressed st) snaps) = 1"
    by (rule exI [of _ "[(''k'', (sample_snap False 100)\<lparr>dst_cpu_pct := None, dst_io_wait_pct := Some 80\<rparr>)]"])
      (simp add: stressed_chip_def filtered_def setFilter_def obj_values_def sample_snap_def dst_stressed_def)
qed

end
