(* ===== verification/HeatmapMatrix.thy ===== *)
theory HeatmapMatrix
  imports Format
begin

text \<open>
  \<open>components/HeatmapMatrixView.tsx\<close>: the adjacency matrix of the connections, one row per
  source and one column per destination, both in the default order of strings.
\<close>

definition srcs :: "SnapshotMap \<Rightarrow> string list" where
  "srcs snapshots = sort_strings (set_adds (map src_service (obj_values snapshots)) [])"

definition dsts :: "SnapshotMap \<Rightarrow> string list" where
  "dsts snapshots = sort_strings (set_adds (map dst_service (obj_values snapshots)) [])"

definition snapMap :: "SnapshotMap \<Rightarrow> SnapshotMap" where
  "snapMap snapshots = obj_puts (map (\<lambda>s. (snapKey s, s)) (obj_values snapshots)) []"

text \<open>\<open>svc?.stress_kind !== null\<close>: an unknown service gives \<open>undefined\<close>, which is not \<open>null\<close>.\<close>

definition isStressed :: "ServiceMap \<Rightarrow> string \<Rightarrow> bool" where
  "isStressed services name =
     (case obj_get services name of None \<Rightarrow> True | Some svc \<Rightarrow> sv_stress_kind svc \<noteq> None)"

record label_view =
  lb_text :: string
  lb_color :: string
  lb_weight :: nat

definition label_view :: "ServiceMap \<Rightarrow> string \<Rightarrow> label_view" where
  "label_view services name =
     \<lparr>lb_text = name, lb_color = (if isStressed services name then ''#dc2626'' else ''var(--text-muted)''),
      lb_weight = (if isStressed services name then 600 else 400)\<rparr>"

record cell =
  ce_title :: string
  ce_select :: string
  ce_background :: string
  ce_border :: string
  ce_boxShadow :: "string option"
  ce_animation :: "string option"
  ce_dot :: bool

text \<open>An empty cell is \<open>None\<close>.\<close>

definition cell :: "SnapshotMap \<Rightarrow> string option \<Rightarrow> string \<Rightarrow> string \<Rightarrow> cell option" where
  "cell snapshots selectedKey src dst =
     (let key = connKey src dst; selected = (selectedKey = Some key)
      in case obj_get (snapMap snapshots) key of
           None \<Rightarrow> None
         | Some snap \<Rightarrow>
             (let status = latencyStatus (p99_us snap)
              in Some \<lparr>ce_title = src @ '' '' @ arrow @ '' '' @ dst @ [CHR 0x0A] @ ''P99 '' @ fmtUs (p99_us snap) @
                    '' '' @ utf8 [0xC2, 0xB7] @ '' '' @ (if is_spike snap then ''SPIKE'' else status_text status),
                  ce_select = key, ce_background = STATUS_COLOR status,
                  ce_border = (if selected then ''2px solid #0f172a''
                    else if is_spike snap then ''2px solid #dc2626'' else ''1px solid transparent''),
                  ce_boxShadow = (if selected then Some ''0 0 0 2px #2563eb55'' else None),
                  ce_animation = (if is_spike snap then Some ''matrixPulse 1.2s infinite'' else None),
                  ce_dot = is_spike snap\<rparr>))"

definition legend :: "(string \<times> string) list" where
  "legend = [(''#16a34a'', ''OK''), (''#d97706'', ''Warn''), (''#ea580c'', ''High''), (''#dc2626'', ''Critical'')]"

record matrix_view =
  mv_legend :: "(string \<times> string) list"
  mv_cols :: "label_view list"
  mv_rows :: "(label_view \<times> cell option list) list"

definition HeatmapMatrixView :: "SnapshotMap \<Rightarrow> ServiceMap \<Rightarrow> string option \<Rightarrow> matrix_view" where
  "HeatmapMatrixView snapshots services selectedKey =
     \<lparr>mv_legend = legend,
      mv_cols = map (label_view services) (dsts snapshots),
      mv_rows = map (\<lambda>src. (label_view services src,
        map (cell snapshots selectedKey src) (dsts snapshots))) (srcs snapshots)\<rparr>"

section \<open>The matrix shows the connections\<close>

text \<open>What the data source guarantees of its map: each connection under its own key.\<close>

definition keyed :: "SnapshotMap \<Rightarrow> bool" where
  "keyed snapshots \<longleftrightarrow> wf_obj snapshots \<and> obj_all (\<lambda>k s. snapKey s = k) snapshots"

definition plain_names :: "SnapshotMap \<Rightarrow> bool" where
  "plain_names snapshots \<longleftrightarrow> list_all (\<lambda>s. no_arrow (src_service s)) (obj_values snapshots)"

lemma snapMap_id:
  assumes "keyed snapshots" shows "snapMap snapshots = snapshots"
proof -
  have "map (\<lambda>s. (snapKey s, s)) (map snd m) = m" if "obj_all (\<lambda>k s. snapKey s = k) m" for m
    using that unfolding obj_all_def by (induction m) auto
  with assms show ?thesis unfolding snapMap_def keyed_def obj_values_def wf_obj_def
    by (simp add: obj_puts_distinct)
qed

lemma keyed_get:
  assumes "keyed snapshots" "plain_names snapshots" "no_arrow src"
  shows "obj_get snapshots (connKey src dst) = Some s \<longleftrightarrow>
    s \<in> set (obj_values snapshots) \<and> src_service s = src \<and> dst_service s = dst"
proof
  assume g: "obj_get snapshots (connKey src dst) = Some s"
  then have v: "s \<in> set (obj_values snapshots)"
    using js_obj.vals_get [of snapshots s] assms(1) by (auto simp: keyed_def)
  have "snapKey s = connKey src dst" using obj_all_get [OF _ g] assms(1) by (fastforce simp: keyed_def)
  moreover have "no_arrow (src_service s)" using v assms(2) by (simp add: plain_names_def list_all_iff)
  ultimately show "s \<in> set (obj_values snapshots) \<and> src_service s = src \<and> dst_service s = dst"
    using v assms(3) by (simp add: snapKey_def connKey_inj)
next
  assume s: "s \<in> set (obj_values snapshots) \<and> src_service s = src \<and> dst_service s = dst"
  then obtain k where k: "obj_get snapshots k = Some s"
    using js_obj.vals_get [of snapshots s] assms(1) by (auto simp: keyed_def)
  then have "snapKey s = k" using obj_all_get assms(1) by (fastforce simp: keyed_def)
  with k s show "obj_get snapshots (connKey src dst) = Some s" by (simp add: snapKey_def)
qed

text \<open>
  What a reader sees of a drawn matrix: the names of its rows and columns, and the cell in the row
  named \<open>a\<close> and the column named \<open>b\<close>, by position in that row.
\<close>

definition row_names :: "matrix_view \<Rightarrow> string list" where
  "row_names v = map (\<lambda>r. lb_text (fst r)) (mv_rows v)"

definition col_names :: "matrix_view \<Rightarrow> string list" where
  "col_names v = map lb_text (mv_cols v)"

definition cell_at :: "matrix_view \<Rightarrow> string \<Rightarrow> string \<Rightarrow> cell option" where
  "cell_at v a b =
     (case map_of (map (\<lambda>r. (lb_text (fst r), snd r)) (mv_rows v)) a of
        None \<Rightarrow> None
      | Some cs \<Rightarrow> (case map_of (zip (col_names v) cs) b of None \<Rightarrow> None | Some c \<Rightarrow> c))"

text \<open>A matrix built from a list of rows, a list of columns and a function for the cells.\<close>

lemma cell_at_grid:
  assumes "map lb_text (mv_cols v) = cols" "map (\<lambda>r. (lb_text (fst r), snd r)) (mv_rows v) = map (\<lambda>a. (a, map (f a) cols)) rows"
  shows "cell_at v a b = (if a \<in> set rows \<and> b \<in> set cols then f a b else None)"
proof -
  have "map_of (map (\<lambda>a. (a, map (f a) cols)) rows) a = (if a \<in> set rows then Some (map (f a) cols) else None)"
    by (induction rows) auto
  moreover have "map_of (zip cols (map (f a) cols)) b = (if b \<in> set cols then Some (f a b) else None)"
    by (simp add: map_of_zip_map)
  ultimately show ?thesis unfolding cell_at_def col_names_def assms by simp
qed

lemma label_text [simp]: "lb_text (label_view services name) = name"
  by (simp add: label_view_def)

lemma matrix_names [simp]:
  "row_names (HeatmapMatrixView snapshots services sel) = srcs snapshots"
  "col_names (HeatmapMatrixView snapshots services sel) = dsts snapshots"
  by (simp_all add: row_names_def col_names_def HeatmapMatrixView_def comp_def)

lemma matrix_cell_at:
  "cell_at (HeatmapMatrixView snapshots services sel) a b =
    (if a \<in> set (srcs snapshots) \<and> b \<in> set (dsts snapshots) then cell snapshots sel a b else None)"
  by (rule cell_at_grid) (simp_all add: HeatmapMatrixView_def comp_def)

lemma cell_of_conn:
  assumes "keyed snapshots" "plain_names snapshots" "s \<in> set (obj_values snapshots)"
  shows "\<exists>c. cell snapshots sel (src_service s) (dst_service s) = Some c \<and>
    ce_background c = STATUS_COLOR (latencyStatus (p99_us s)) \<and> ce_select c = snapKey s \<and>
    ce_dot c = is_spike s \<and> (ce_boxShadow c \<noteq> None \<longleftrightarrow> sel = Some (snapKey s))"
proof -
  have "no_arrow (src_service s)" using assms(2,3) by (auto simp: plain_names_def list_all_iff)
  then have "obj_get snapshots (connKey (src_service s) (dst_service s)) = Some s"
    using keyed_get [OF assms(1,2)] assms(3) by simp
  then show ?thesis unfolding cell_def Let_def snapMap_id [OF assms(1)] by (simp add: snapKey_def)
qed

lemma cell_needs_conn:
  assumes "keyed snapshots" "plain_names snapshots" "src \<in> set (srcs snapshots)"
    "cell snapshots sel src dst \<noteq> None"
  shows "\<exists>s \<in> set (obj_values snapshots). src_service s = src \<and> dst_service s = dst"
proof -
  have "no_arrow src" using assms(2,3) by (auto simp: srcs_def plain_names_def list_all_iff)
  note g = keyed_get [OF assms(1,2) this, of dst]
  show ?thesis using assms(4) g unfolding cell_def Let_def snapMap_id [OF assms(1)]
    by (cases "obj_get snapshots (connKey src dst)") auto
qed

text \<open>
  C8: the drawn matrix is the set of connections, for snapshots stored under their own keys
  (which both hooks guarantee) and source names without the arrow. Its rows are named by the
  distinct sources and its columns by the distinct destinations, both in the order of strings, and
  every row has a cell for each column. The cell in the row of a source and the column of
  a destination is filled exactly when there is a connection from the one to the other; it
  then has the colour of that connection's p99, its click selects the connection's key, the dot
  shows its spike and the selection mark that it is selected.
\<close>

theorem matrix_faithful:
  assumes "keyed snapshots" "plain_names snapshots"
  shows "let v = HeatmapMatrixView snapshots services sel; conns = set (obj_values snapshots) in
    distinct (row_names v) \<and> sorted_wrt str_le (row_names v) \<and> set (row_names v) = src_service ` conns \<and>
    distinct (col_names v) \<and> sorted_wrt str_le (col_names v) \<and> set (col_names v) = dst_service ` conns \<and>
    list_all (\<lambda>r. length (snd r) = length (mv_cols v)) (mv_rows v) \<and>
    (\<forall>src dst. cell_at v src dst \<noteq> None \<longleftrightarrow> (\<exists>s \<in> conns. src_service s = src \<and> dst_service s = dst)) \<and>
    (\<forall>s \<in> conns. \<exists>c. cell_at v (src_service s) (dst_service s) = Some c \<and>
      ce_background c = STATUS_COLOR (latencyStatus (p99_us s)) \<and> ce_select c = snapKey s \<and>
      ce_dot c = is_spike s \<and> (ce_boxShadow c \<noteq> None \<longleftrightarrow> sel = Some (snapKey s)))"
proof -
  have sets: "set (srcs snapshots) = src_service ` set (obj_values snapshots)"
    "set (dsts snapshots) = dst_service ` set (obj_values snapshots)"
    "distinct (srcs snapshots)" "distinct (dsts snapshots)"
    "sorted_wrt str_le (srcs snapshots)" "sorted_wrt str_le (dsts snapshots)"
    by (auto simp: srcs_def dsts_def sort_strings_sorted)
  have len: "list_all (\<lambda>r. length (snd r) = length (mv_cols (HeatmapMatrixView snapshots services sel)))
      (mv_rows (HeatmapMatrixView snapshots services sel))"
    by (simp add: HeatmapMatrixView_def list_all_iff)
  have at: "cell_at (HeatmapMatrixView snapshots services sel) (src_service s) (dst_service s) =
      cell snapshots sel (src_service s) (dst_service s)" if "s \<in> set (obj_values snapshots)" for s
    using that by (simp add: matrix_cell_at sets(1,2))
  have "cell_at (HeatmapMatrixView snapshots services sel) src dst \<noteq> None \<longleftrightarrow>
      (\<exists>s \<in> set (obj_values snapshots). src_service s = src \<and> dst_service s = dst)" for src dst
  proof
    assume "cell_at (HeatmapMatrixView snapshots services sel) src dst \<noteq> None"
    then show "\<exists>s \<in> set (obj_values snapshots). src_service s = src \<and> dst_service s = dst"
      by (intro cell_needs_conn [OF assms]) (auto simp: matrix_cell_at split: if_splits)
  next
    assume "\<exists>s \<in> set (obj_values snapshots). src_service s = src \<and> dst_service s = dst"
    then show "cell_at (HeatmapMatrixView snapshots services sel) src dst \<noteq> None"
      using at cell_of_conn [OF assms, of _ sel] by (elim bexE conjE) (metis option.distinct(1))
  qed
  with sets len at cell_of_conn [OF assms, where sel = sel] show ?thesis unfolding Let_def matrix_names by simp
qed

text \<open>
  A service the dashboard has no resource data for is drawn as stressed, in bold red,
  like one under stress, while a known service without stress is not.
\<close>

lemma unknown_service_drawn_stressed:
  "(obj_get services n = None \<longrightarrow> label_view services n = \<lparr>lb_text = n, lb_color = ''#dc2626'', lb_weight = 600\<rparr>) \<and>
   (\<forall>svc. obj_get services n = Some svc \<and> sv_stress_kind svc = None \<longrightarrow>
     label_view services n = \<lparr>lb_text = n, lb_color = ''var(--text-muted)'', lb_weight = 400\<rparr>)"
  by (simp add: label_view_def isStressed_def)

lemma keyed_sample: "keyed [(connKey ''web'' ''db'', sample_snap False 100)]"
  by (simp add: keyed_def wf_obj_def obj_all_def snapKey_def sample_snap_def)

lemma plain_sample: "plain_names [(connKey ''web'' ''db'', sample_snap False 100)]"
  by (simp add: plain_names_def obj_values_def sample_snap_def no_arrow_ascii)

theorem matrix_faithful_witness:
  "\<exists>c. cell_at (HeatmapMatrixView [(connKey ''web'' ''db'', sample_snap False 100)] [] None) ''web'' ''db'' = Some c \<and>
     ce_background c = ''#16a34a''"
  using matrix_faithful [OF keyed_sample plain_sample, of "[]" None]
  by (auto simp: Let_def obj_values_def latencyStatus_def sample_snap_def)

end
