(* ===== verification/Overview.thy ===== *)
theory Overview
  imports Format
begin

text \<open>
  The panels that summarise the whole state: \<open>StatCard\<close>, \<open>GlobalMetrics\<close>, \<open>TopBar\<close>,
  \<open>SectionHeader\<close>, \<open>SpikeLog\<close> and \<open>ViewSwitcher\<close>. A component's render function is a
  function from its props to a record of the values it renders: the texts, counts and the
  colours and styles that depend on the data. Fixed styling is left out. \<open>Date.now()\<close> and
  the time zone are arguments.
\<close>

section \<open>Texts outside ASCII\<close>

definition ellipsis :: string where "ellipsis = utf8 [0xE2, 0x80, 0xA6]"
definition em_dash :: string where "em_dash = utf8 [0xE2, 0x80, 0x94]"
definition times_sign :: string where "times_sign = utf8 [0xC3, 0x97]"
definition bolt :: string where "bolt = utf8 [0xE2, 0x9A, 0xA1]"
definition red_dot :: string where "red_dot = utf8 [0xF0, 0x9F, 0x94, 0xB4]"

section \<open>StatCard.tsx\<close>

text \<open>A child that React renders: a string or a number.\<close>

datatype card_value = Text string | Num number

record stat_props =
  sc_label :: string
  sc_value :: card_value
  sc_color :: "string option"
  sc_sub :: "string option"
  sc_highlight :: bool

record stat_view =
  sw_borderTop :: string
  sw_boxShadow :: string
  sw_label :: string
  sw_value :: card_value
  sw_color :: string
  sw_sub :: "string option"

definition StatCard :: "stat_props \<Rightarrow> stat_view" where
  "StatCard p =
     (let color = nullish (sc_color p) ''var(--text-primary)''
      in \<lparr>sw_borderTop = (if sc_highlight p then ''2px solid '' @ color else ''1px solid var(--border)''),
          sw_boxShadow = (if sc_highlight p then ''0 1px 3px '' @ color @ ''22'' else ''var(--shadow-card)''),
          sw_label = sc_label p, sw_value = sc_value p, sw_color = color,
          sw_sub = (if nullish (sc_sub p) [] \<noteq> [] then sc_sub p else None)\<rparr>)"

section \<open>GlobalMetrics.tsx\<close>

text \<open>\<open>snaps.length > 0 ? snaps.reduce(...) / snaps.length : 0\<close>\<close>

definition mean_of :: "(StatSnapshot \<Rightarrow> number) \<Rightarrow> StatSnapshot list \<Rightarrow> number" where
  "mean_of f snaps = (if snaps \<noteq> [] then fdiv (fsum f snaps) (of_nat (length snaps)) else 0)"

definition spike_count :: "SnapshotMap \<Rightarrow> nat" where
  "spike_count snapshots = length (filter is_spike (obj_values snapshots))"

definition stressed_count :: "ServiceMap \<Rightarrow> nat" where
  "stressed_count services = length (filter (\<lambda>s. sv_stress_kind s \<noteq> None) (obj_values services))"

definition kind_count :: "StressKind \<Rightarrow> ServiceMap \<Rightarrow> nat" where
  "kind_count k services = length (filter (\<lambda>s. sv_stress_kind s = Some k) (obj_values services))"

text \<open>\<open>snaps.forEach(s => { names.add(s.src_service); names.add(s.dst_service) })\<close>\<close>

definition service_names :: "SnapshotMap \<Rightarrow> string list" where
  "service_names snapshots =
     set_adds (concat (map (\<lambda>s. [src_service s, dst_service s]) (obj_values snapshots))) []"

definition GlobalMetrics :: "SnapshotMap \<Rightarrow> ServiceMap \<Rightarrow> stat_view list" where
  "GlobalMetrics snapshots services =
     (let snaps = obj_values snapshots;
          gp95 = mean_of p95_us snaps;
          gp99 = mean_of p99_us snaps;
          spikeCount = spike_count snapshots;
          retransmits = fsum retransmit_count snaps;
          svcList = obj_values services;
          stressedCount = stressed_count services
      in [StatCard \<lparr>sc_label = ''Global P95'', sc_value = Text (fmtUs gp95), sc_color = Some ''#d97706'',
            sc_sub = None, sc_highlight = False\<rparr>,
          StatCard \<lparr>sc_label = ''Global P99'', sc_value = Text (fmtUs gp99),
            sc_color = Some (STATUS_COLOR (latencyStatus gp99)), sc_sub = None, sc_highlight = gp99 > 20000\<rparr>,
          StatCard \<lparr>sc_label = ''Active Spikes'', sc_value = Num (of_nat spikeCount),
            sc_color = Some (if spikeCount > 0 then ''#dc2626'' else ''var(--text-faint)''),
            sc_sub = Some (if spikeCount > 0 then ''analyzing causes'' @ ellipsis else ''all normal''),
            sc_highlight = spikeCount > 0\<rparr>] @
         (if svcList \<noteq> [] then
           [StatCard \<lparr>sc_label = ''Stressed Svcs'', sc_value = Num (of_nat stressedCount),
             sc_color = Some (if stressedCount > 0 then ''#ea580c'' else ''var(--text-faint)''),
             sc_sub = (if stressedCount > 0 then Some (''CPU:'' @ show_nat (kind_count Stress_cpu services) @
               '' IO:'' @ show_nat (kind_count Stress_io services) @
               '' MEM:'' @ show_nat (kind_count Stress_memory services)) else None),
             sc_highlight = stressedCount > 0\<rparr>] else []) @
         [StatCard \<lparr>sc_label = ''Retransmits'', sc_value = Num retransmits,
            sc_color = Some (if retransmits > 20 then ''#ea580c'' else ''var(--text-secondary)''),
            sc_sub = Some ''cumulative'', sc_highlight = False\<rparr>,
          StatCard \<lparr>sc_label = ''Connections'', sc_value = Num (of_nat (length snaps)), sc_color = Some ''#2563eb'',
            sc_sub = Some (show_nat (length (service_names snapshots)) @ '' svcs''), sc_highlight = False\<rparr>])"

section \<open>TopBar.tsx\<close>

record topbar =
  tb_dot :: string
  tb_halo :: string
  tb_status :: string
  tb_services :: string
  tb_stressed :: "string option"
  tb_spikes :: "string option"
  tb_clock :: string

text \<open>The clock shows the wall time of its last tick.\<close>

definition TopBar :: "int \<Rightarrow> int \<Rightarrow> bool \<Rightarrow> SnapshotMap \<Rightarrow> ServiceMap \<Rightarrow> topbar" where
  "TopBar tz now up snapshots services =
     (let spikeCount = spike_count snapshots; stressedCount = stressed_count services
      in \<lparr>tb_dot = (if up then ''#16a34a'' else ''#dc2626''),
          tb_halo = (if up then ''0 0 0 2px #16a34a33'' else ''0 0 0 2px #dc262633''),
          tb_status = (if up then ''collector connected'' else ''reconnecting'' @ ellipsis),
          tb_services = show_nat (length (service_names snapshots)) @ '' services'',
          tb_stressed = (if stressedCount > 0 then Some (bolt @ '' '' @ show_nat stressedCount @ '' stressed'') else None),
          tb_spikes = (if spikeCount > 0
            then Some (red_dot @ '' '' @ show_nat spikeCount @ '' spike'' @ (if spikeCount > 1 then ''s'' else []))
            else None),
          tb_clock = fmtTime tz (of_int now)\<rparr>)"

section \<open>SectionHeader.tsx\<close>

record section_view =
  sh_label :: string
  sh_count :: "string option"

definition SectionHeader :: "string \<Rightarrow> string option \<Rightarrow> section_view" where
  "SectionHeader label cnt = \<lparr>sh_label = label, sh_count = cnt\<rparr>"

section \<open>SpikeLog.tsx\<close>

record spike_row =
  sr_id :: string
  sr_select :: string
  sr_dot :: string
  sr_time :: string
  sr_edge :: string
  sr_cause :: string
  sr_cause_color :: string
  sr_p99 :: string
  sr_p99_color :: string
  sr_ratio :: string
  sr_ratio_bg :: string
  sr_ago :: string

definition spike_ratio :: "SpikeEvent \<Rightarrow> string" where
  "spike_ratio ev =
     (if ev_baseline_us ev > 0 then toFixed 1 (fdiv (ev_p99_us ev) (ev_baseline_us ev)) @ times_sign else em_dash)"

definition spike_row :: "int \<Rightarrow> int \<Rightarrow> SpikeEvent \<Rightarrow> spike_row" where
  "spike_row tz now ev =
     (let meta = CAUSE_META (ev_cause_kind ev); isCrit = (ev_severity ev = Sev_critical);
          c = (if isCrit then ''#dc2626'' else ''#d97706'')
      in \<lparr>sr_id = ev_id ev, sr_select = ev_key ev, sr_dot = c, sr_time = fmtTime tz (ev_timestamp ev),
          sr_edge = ev_src ev @ '' '' @ arrow @ '' '' @ ev_dst ev,
          sr_cause = cm_icon meta @ '' '' @ cm_label meta, sr_cause_color = cm_color meta,
          sr_p99 = ''P99 '' @ fmtUs (ev_p99_us ev), sr_p99_color = c, sr_ratio = spike_ratio ev,
          sr_ratio_bg = (if isCrit then ''#fef2f2'' else ''#fef3c7''),
          sr_ago = timeAgo (of_int now) (ev_timestamp ev)\<rparr>)"

text \<open>\<open>None\<close> is the placeholder that says there are no events.\<close>

definition SpikeLog :: "int \<Rightarrow> int \<Rightarrow> SpikeEvent list \<Rightarrow> spike_row list option" where
  "SpikeLog tz now events = (if events = [] then None else Some (map (spike_row tz now) events))"

section \<open>ViewSwitcher.tsx\<close>

datatype ViewMode = V_graph | V_list | V_matrix

record tab =
  tab_value :: ViewMode
  tab_label :: string
  tab_icon :: string

definition TABS :: "tab list" where
  "TABS = [\<lparr>tab_value = V_graph, tab_label = ''Graph'', tab_icon = ''M''\<rparr>,
           \<lparr>tab_value = V_list, tab_label = ''List'', tab_icon = ''L''\<rparr>,
           \<lparr>tab_value = V_matrix, tab_label = ''Matrix'', tab_icon = ''H''\<rparr>]"

text \<open>Each tab with whether it is active; a click passes its value to \<open>onChange\<close>.\<close>

definition ViewSwitcher :: "ViewMode \<Rightarrow> (tab \<times> bool) list" where
  "ViewSwitcher current = map (\<lambda>t. (t, tab_value t = current)) TABS"

section \<open>Lemmas\<close>

lemma mean_of_mono:
  assumes "\<And>s. s \<in> set snaps \<Longrightarrow> f s \<le> g s"
  shows "mean_of f snaps \<le> mean_of g snaps"
  using fsum_mono [of snaps f g] assms
  by (simp add: mean_of_def fdiv_def fl_mono divide_right_mono)

lemma set_service_names: "set (service_names snapshots) =
    src_service ` set (obj_values snapshots) \<union> dst_service ` set (obj_values snapshots)"
proof -
  have "set (concat (map (\<lambda>s. [src_service s, dst_service s]) xs)) = src_service ` set xs \<union> dst_service ` set xs"
    for xs :: "StatSnapshot list" by (induction xs) auto
  then show ?thesis unfolding service_names_def by simp
qed

lemma distinct_service_names: "distinct (service_names snapshots)"
  by (simp add: service_names_def)

lemma length_service_names:
  "length (service_names snapshots) =
    card (src_service ` set (obj_values snapshots) \<union> dst_service ` set (obj_values snapshots))"
  using distinct_card [OF distinct_service_names] by (simp add: set_service_names)

lemma kinds_partition:
  "stressed_count services =
    kind_count Stress_cpu services + kind_count Stress_io services + kind_count Stress_memory services"
proof -
  have "length (filter (\<lambda>s. sv_stress_kind s \<noteq> None) xs) =
      length (filter (\<lambda>s. sv_stress_kind s = Some Stress_cpu) xs) +
      length (filter (\<lambda>s. sv_stress_kind s = Some Stress_io) xs) +
      length (filter (\<lambda>s. sv_stress_kind s = Some Stress_memory) xs)" for xs :: "ServiceSnapshot list"
  proof (induction xs)
    case (Cons s xs)
    then show ?case by (cases "sv_stress_kind s" rule: option.exhaust; cases "the (sv_stress_kind s)") auto
  qed simp
  then show ?thesis by (simp add: stressed_count_def kind_count_def)
qed

text \<open>
  The top bar and the metric cards tell the same numbers. The spike card is the number
  of spiking connections, and the badge is there exactly when it is not zero; the number of
  services in both is the number of distinct endpoints; and the stress card's total is the
  sum of the three kinds it lists.
\<close>

lemma overview_agrees:
  fixes snapshots services tz now up
  defines "cards \<equiv> GlobalMetrics snapshots services" and "bar \<equiv> TopBar tz now up snapshots services"
  shows "sw_value (cards ! 2) = Num (of_nat (length (filter is_spike (obj_values snapshots)))) \<and>
    (tb_spikes bar = None \<longleftrightarrow> (\<forall>s \<in> set (obj_values snapshots). \<not> is_spike s)) \<and>
    (tb_stressed bar = None \<longleftrightarrow> (\<forall>s \<in> set (obj_values services). sv_stress_kind s = None)) \<and>
    (\<exists>n. n = card (src_service ` set (obj_values snapshots) \<union> dst_service ` set (obj_values snapshots)) \<and>
      tb_services bar = show_nat n @ '' services'' \<and> sw_sub (last cards) = Some (show_nat n @ '' svcs'')) \<and>
    (services \<noteq> [] \<longrightarrow> sw_value (cards ! 3) = Num (of_nat
      (kind_count Stress_cpu services + kind_count Stress_io services + kind_count Stress_memory services)))"
  unfolding cards_def bar_def GlobalMetrics_def TopBar_def Let_def StatCard_def
  by (auto simp: length_service_names kinds_partition [symmetric] spike_count_def stressed_count_def
      filter_empty_conv obj_values_def)

text \<open>
  The two global latencies cannot contradict each other: when every connection's p95 is
  at most its p99, so is the rounded mean of the one to that of the other, and the colour
  band of the p99 card is at least as severe as that of the p95.
\<close>

lemma global_means_ordered:
  assumes "\<forall>s \<in> set (obj_values snapshots). p95_us s \<le> p99_us s"
  shows "mean_of p95_us (obj_values snapshots) \<le> mean_of p99_us (obj_values snapshots) \<and>
    latencyStatus (mean_of p95_us (obj_values snapshots)) \<le> latencyStatus (mean_of p99_us (obj_values snapshots))"
  using mean_of_mono [of "obj_values snapshots" p95_us p99_us] assms latencyStatus_mono by simp

text \<open>
  The retransmit card is exact: it shows the sum of the counts, with no rounding, as
  long as the sum is at most \<open>2^53\<close>.
\<close>

lemma retransmits_exact:
  assumes "\<forall>s \<in> set (obj_values snapshots). retransmit_count s = of_nat (n s)"
    and "sum_list (map n (obj_values snapshots)) \<le> 2 ^ 53"
  shows "Num (of_nat (sum_list (map n (obj_values snapshots)))) \<in> sw_value ` set (GlobalMetrics snapshots services)"
  using fsum_integers [of "obj_values snapshots" retransmit_count n] assms
  by (simp add: GlobalMetrics_def Let_def StatCard_def)

end
