(* ===== verification/TopoGraph.thy ===== *)
theory TopoGraph
  imports Overview
begin

text \<open>
  \<open>components/TopoGraph.tsx\<close> with \<open>constants/topology.ts\<close>: the draggable, zoomable map of the
  services. The interaction is a function from an event to a new state and the selections
  it reports; the drawing is a function to records of the values that depend on the data.
  \<open>Math.cos\<close>, \<open>Math.sin\<close> and \<open>Math.sqrt\<close> are arguments; \<open>Math.PI\<close> is the double it is.
\<close>

section \<open>constants/topology.ts\<close>

record pos =
  px :: number
  py :: number

definition hundredths :: "nat \<Rightarrow> nat \<Rightarrow> pos" where
  "hundredths a b = \<lparr>px = fl (of_nat a / 100), py = fl (of_nat b / 100)\<rparr>"

definition NODE_POS :: "pos obj" where
  "NODE_POS =
     [(''api-gateway'', hundredths 50 8), (''auth-svc'', hundredths 18 35), (''order-svc'', hundredths 78 35),
      (''redis'', hundredths 5 66), (''payment-svc'', hundredths 50 64), (''inventory-svc'', hundredths 95 66),
      (''notif-svc'', hundredths 78 93), (''postgres'', hundredths 28 93), (''kafka'', hundredths 96 96),
      (''stripe-api'', hundredths 52 93)]"

section \<open>Geometry\<close>

definition NODE_W :: number where "NODE_W = 156"
definition NODE_H :: number where "NODE_H = 56"
definition EXT_W :: number where "EXT_W = 112"
definition EXT_H :: number where "EXT_H = 36"
definition GRAPH_W :: number where "GRAPH_W = 1000"
definition GRAPH_H :: number where "GRAPH_H = 700"

text \<open>\<open>Math.fsqrt(...) || 1\<close>: a zero length is replaced by one.\<close>

definition bezierCtrl :: "(number \<Rightarrow> number) \<Rightarrow> number \<Rightarrow> number \<Rightarrow> number \<Rightarrow> number \<Rightarrow> number \<times> number" where
  "bezierCtrl fsqrt sx sy ex ey =
     (let mx = fdiv (fadd sx ex) 2; my = fdiv (fadd sy ey) 2; dx = fsub ex sx; dy = fsub ey sy;
          l = fsqrt (fadd (fmul dx dx) (fmul dy dy)); len = (if l = 0 then 1 else l)
      in (fadd mx (fmul (fdiv (- dy) len) 26), fadd my (fmul (fdiv dx len) 26)))"

definition bezierMid :: "number \<Rightarrow> number \<Rightarrow> number \<Rightarrow> number \<Rightarrow> number \<Rightarrow> number \<Rightarrow> number \<times> number" where
  "bezierMid sx sy cx cy ex ey =
     (fadd (fadd (fmul (1/4) sx) (fmul (1/2) cx)) (fmul (1/4) ex),
      fadd (fadd (fmul (1/4) sy) (fmul (1/2) cy)) (fmul (1/4) ey))"

definition node_pos :: "pos obj \<Rightarrow> string \<Rightarrow> pos" where
  "node_pos positions name =
     (case obj_get positions name of Some p \<Rightarrow> p
      | None \<Rightarrow> nullish (obj_get NODE_POS name) \<lparr>px = 1/2, py = 1/2\<rparr>)"

definition nodeLeft :: "string \<Rightarrow> pos obj \<Rightarrow> number" where
  "nodeLeft name positions = fmul (px (node_pos positions name)) GRAPH_W"

definition nodeTop :: "string \<Rightarrow> pos obj \<Rightarrow> number" where
  "nodeTop name positions = fmul (py (node_pos positions name)) GRAPH_H"

definition nodeCx :: "string \<Rightarrow> bool \<Rightarrow> pos obj \<Rightarrow> number" where
  "nodeCx name isInternal positions = fadd (nodeLeft name positions) (fdiv (if isInternal then NODE_W else EXT_W) 2)"

definition nodeCy :: "string \<Rightarrow> bool \<Rightarrow> pos obj \<Rightarrow> number" where
  "nodeCy name isInternal positions = fadd (nodeTop name positions) (fdiv (if isInternal then NODE_H else EXT_H) 2)"

section \<open>State and events\<close>

record transform =
  tx :: number
  ty :: number
  scale :: number

record pan_start =
  pn_startX :: number
  pn_startY :: number
  pn_tx :: number
  pn_ty :: number

record node_drag =
  nd_name :: string
  nd_startX :: number
  nd_startY :: number
  nd_ox :: number
  nd_oy :: number

record topo_state =
  tf :: transform
  positions :: "pos obj"
  panRef :: "pan_start option"
  nodeDragRef :: "node_drag option"
  didDragRef :: bool

definition fit_transform :: transform where
  "fit_transform = \<lparr>tx = 0, ty = 0, scale = 1\<rparr>"

definition topo_init :: topo_state where
  "topo_init = \<lparr>tf = fit_transform, positions = NODE_POS, panRef = None, nodeDragRef = None, didDragRef = False\<rparr>"

definition MATH_PI :: number where
  "MATH_PI = 884279719003555 / 281474976710656"

definition spiral_pos :: "(number \<Rightarrow> number) \<Rightarrow> (number \<Rightarrow> number) \<Rightarrow> nat \<Rightarrow> pos" where
  "spiral_pos fcos fsin idx =
     (let angle = fdiv (fmul (fmul (of_nat idx) (275/2)) MATH_PI) 180
      in \<lparr>px = min (fl (9/10)) (max (fl (1/10)) (fadd (1/2) (fmul (fl (32/100)) (fcos angle)))),
          py = min (fl (9/10)) (max (fl (1/10)) (fadd (1/2) (fmul (fl (32/100)) (fsin angle))))\<rparr>)"

text \<open>The effect on the list of services: a position for each that has none.\<close>

fun place_services :: "(number \<Rightarrow> number) \<Rightarrow> (number \<Rightarrow> number) \<Rightarrow> nat \<Rightarrow> string list \<Rightarrow> pos obj \<Rightarrow> pos obj" where
  "place_services fcos fsin idx [] ps = ps"
| "place_services fcos fsin idx (n # ns) ps =
     (if obj_get ps n \<noteq> None then place_services fcos fsin idx ns ps
      else place_services fcos fsin (Suc idx) ns (obj_put n (spiral_pos fcos fsin idx) ps))"

definition place_all :: "(number \<Rightarrow> number) \<Rightarrow> (number \<Rightarrow> number) \<Rightarrow> string list \<Rightarrow> topo_state \<Rightarrow> topo_state" where
  "place_all fcos fsin names st =
     st\<lparr>positions := place_services fcos fsin (length (obj_keys (positions st))) names (positions st)\<rparr>"

record rect =
  rc_left :: number
  rc_top :: number

definition handleWheel :: "rect \<Rightarrow> number \<Rightarrow> number \<Rightarrow> number \<Rightarrow> topo_state \<Rightarrow> topo_state" where
  "handleWheel rect cx cy deltaY st =
     (let prev = tf st; factor = (if deltaY < 0 then fl (11/10) else fl (9/10));
          newScale = min 3 (max (fl (2/10)) (fmul (scale prev) factor));
          mx = fsub cx (rc_left rect); my = fsub cy (rc_top rect); q = fdiv newScale (scale prev)
      in st\<lparr>tf := \<lparr>tx = fsub mx (fmul (fsub mx (tx prev)) q), ty = fsub my (fmul (fsub my (ty prev)) q),
                  scale = newScale\<rparr>\<rparr>)"

text \<open>What the pointer is on: an edge, a node or the background.\<close>

datatype target = On_edge string | On_node string | On_background

definition onMouseDown :: "target \<Rightarrow> number \<Rightarrow> number \<Rightarrow> topo_state \<Rightarrow> topo_state" where
  "onMouseDown target cx cy st =
     (let st' = st\<lparr>didDragRef := False\<rparr>
      in case target of
           On_node name \<Rightarrow>
             (let cur = node_pos (positions st) name
              in st'\<lparr>nodeDragRef := Some \<lparr>nd_name = name, nd_startX = cx, nd_startY = cy, nd_ox = px cur, nd_oy = py cur\<rparr>\<rparr>)
         | _ \<Rightarrow> st'\<lparr>panRef := Some \<lparr>pn_startX = cx, pn_startY = cy, pn_tx = tx (tf st), pn_ty = ty (tf st)\<rparr>\<rparr>)"

definition moved :: "number \<Rightarrow> number \<Rightarrow> bool" where
  "moved dx dy \<longleftrightarrow> \<bar>dx\<bar> > 2 \<or> \<bar>dy\<bar> > 2"

definition onMouseMove :: "number \<Rightarrow> number \<Rightarrow> topo_state \<Rightarrow> topo_state" where
  "onMouseMove cx cy st =
     (case nodeDragRef st of
        Some d \<Rightarrow>
          (let dx = fsub cx (nd_startX d); dy = fsub cy (nd_startY d)
           in st\<lparr>didDragRef := didDragRef st \<or> moved dx dy,
                 positions := obj_put (nd_name d)
                   \<lparr>px = max 0 (min 1 (fadd (nd_ox d) (fdiv dx (fmul (scale (tf st)) GRAPH_W)))),
                    py = max 0 (min 1 (fadd (nd_oy d) (fdiv dy (fmul (scale (tf st)) GRAPH_H))))\<rparr> (positions st)\<rparr>)
      | None \<Rightarrow>
          (case panRef st of
             Some p \<Rightarrow>
               (let dx = fsub cx (pn_startX p); dy = fsub cy (pn_startY p)
                in st\<lparr>didDragRef := didDragRef st \<or> moved dx dy,
                      tf := (tf st)\<lparr>tx := fadd (pn_tx p) dx, ty := fadd (pn_ty p) dy\<rparr>\<rparr>)
           | None \<Rightarrow> st))"

definition onMouseUp :: "topo_state \<Rightarrow> topo_state" where
  "onMouseUp st = st\<lparr>nodeDragRef := None, panRef := None\<rparr>"

datatype selection = Select "string option" | SelectNode "string option"

definition onSvgClick :: "target \<Rightarrow> topo_state \<Rightarrow> selection list" where
  "onSvgClick target st =
     (if didDragRef st then []
      else case target of
          On_edge key \<Rightarrow> [Select (Some key)]
        | On_node name \<Rightarrow> [SelectNode (Some name)]
        | On_background \<Rightarrow> [Select None, SelectNode None])"

definition fitView :: "topo_state \<Rightarrow> topo_state" where
  "fitView st = st\<lparr>tf := fit_transform\<rparr>"

definition zoomIn :: "topo_state \<Rightarrow> topo_state" where
  "zoomIn st = st\<lparr>tf := (tf st)\<lparr>scale := min 3 (fmul (scale (tf st)) (fl (12/10)))\<rparr>\<rparr>"

definition zoomOut :: "topo_state \<Rightarrow> topo_state" where
  "zoomOut st = st\<lparr>tf := (tf st)\<lparr>scale := max (fl (2/10)) (fdiv (scale (tf st)) (fl (12/10)))\<rparr>\<rparr>"

datatype topo_event =
    Wheel rect number number number
  | Mouse_down target number number
  | Mouse_move number number
  | Mouse_up
  | Click target
  | Double_click
  | Zoom_in
  | Zoom_out
  | Fit
  | Services "string list"

fun topo_handle ::
  "(number \<Rightarrow> number) \<Rightarrow> (number \<Rightarrow> number) \<Rightarrow> topo_event \<Rightarrow> topo_state \<Rightarrow> topo_state \<times> selection list" where
  "topo_handle fcos fsin (Wheel r x y d) st = (handleWheel r x y d st, [])"
| "topo_handle fcos fsin (Mouse_down t x y) st = (onMouseDown t x y st, [])"
| "topo_handle fcos fsin (Mouse_move x y) st = (onMouseMove x y st, [])"
| "topo_handle fcos fsin Mouse_up st = (onMouseUp st, [])"
| "topo_handle fcos fsin (Click t) st = (st, onSvgClick t st)"
| "topo_handle fcos fsin Double_click st = (fitView st, [])"
| "topo_handle fcos fsin Zoom_in st = (zoomIn st, [])"
| "topo_handle fcos fsin Zoom_out st = (zoomOut st, [])"
| "topo_handle fcos fsin Fit st = (fitView st, [])"
| "topo_handle fcos fsin (Services ns) st = (place_all fcos fsin ns st, [])"

fun topo_run ::
  "(number \<Rightarrow> number) \<Rightarrow> (number \<Rightarrow> number) \<Rightarrow> topo_event list \<Rightarrow> topo_state \<Rightarrow> topo_state \<times> selection list" where
  "topo_run fcos fsin [] st = (st, [])"
| "topo_run fcos fsin (e # es) st =
     (let (st1, s1) = topo_handle fcos fsin e st; (st2, s2) = topo_run fcos fsin es st1 in (st2, s1 @ s2))"

section \<open>Drawing\<close>

definition serviceTypeMap :: "SnapshotMap \<Rightarrow> NodeType obj" where
  "serviceTypeMap snapshots =
     obj_puts (concat (map (\<lambda>s. [(src_service s, src_type s), (dst_service s, dst_type s)]) (obj_values snapshots))) []"

definition is_internal :: "SnapshotMap \<Rightarrow> string \<Rightarrow> bool" where
  "is_internal snapshots name \<longleftrightarrow> obj_get (serviceTypeMap snapshots) name \<noteq> Some External"

definition marker_colors :: "string list" where
  "marker_colors = [''#16a34a'', ''#d97706'', ''#ea580c'', ''#dc2626'', ''#2563eb'']"

definition marker_id :: "string \<Rightarrow> string" where
  "marker_id color = ''arr-'' @ drop 1 color"

record edge_view =
  eg_key :: string
  eg_from :: "number \<times> number"
  eg_ctrl :: "number \<times> number"
  eg_to :: "number \<times> number"
  eg_mid :: "number \<times> number"
  eg_color :: string
  eg_hit_width :: number
  eg_selected :: bool
  eg_width :: number
  eg_opacity :: number
  eg_dash :: "string option"
  eg_marker :: string
  eg_glow :: bool
  eg_label :: string
  eg_label_weight :: nat

definition edge_view :: "(number \<Rightarrow> number) \<Rightarrow> SnapshotMap \<Rightarrow> string option \<Rightarrow> topo_state \<Rightarrow> StatSnapshot \<Rightarrow> edge_view" where
  "edge_view fsqrt snapshots selectedKey st snap =
     (let key = snapKey snap;
          sx = nodeCx (src_service snap) (is_internal snapshots (src_service snap)) (positions st);
          sy = nodeCy (src_service snap) (is_internal snapshots (src_service snap)) (positions st);
          ex = nodeCx (dst_service snap) (is_internal snapshots (dst_service snap)) (positions st);
          ey = nodeCy (dst_service snap) (is_internal snapshots (dst_service snap)) (positions st);
          ctrl = bezierCtrl fsqrt sx sy ex ey;
          color = (if is_spike snap then ''#dc2626'' else STATUS_COLOR (latencyStatus (p99_us snap)));
          selected = (selectedKey = Some key)
      in \<lparr>eg_key = key, eg_from = (sx, sy), eg_ctrl = ctrl, eg_to = (ex, ey),
          eg_mid = bezierMid sx sy (fst ctrl) (snd ctrl) ex ey, eg_color = color,
          eg_hit_width = fdiv 16 (scale (tf st)), eg_selected = selected,
          eg_width = (if is_spike snap then 2 else if selected then fl (24/10) else fl (16/10)),
          eg_opacity = (if selected then 1 else 3/4), eg_dash = (if is_spike snap then Some ''7,4'' else None),
          eg_marker = marker_id color, eg_glow = is_spike snap, eg_label = fmtUs (p50_us snap),
          eg_label_weight = (if selected then 600 else 500)\<rparr>)"

fun stressColor :: "StressKind option \<Rightarrow> string option" where
  "stressColor (Some Stress_cpu) = Some ''#dc2626''"
| "stressColor (Some Stress_io) = Some ''#7c3aed''"
| "stressColor (Some Stress_memory) = Some ''#ea580c''"
| "stressColor None = None"

text \<open>An empty \<open>selectedKey\<close> is falsy.\<close>

definition isSelectedNode :: "string option \<Rightarrow> string option \<Rightarrow> string \<Rightarrow> bool" where
  "isSelectedNode selectedNode selectedKey name \<longleftrightarrow>
     selectedNode = Some name \<or>
     (case selectedKey of None \<Rightarrow> False
      | Some k \<Rightarrow> k \<noteq> [] \<and> (startsWith k (name @ arrow) \<or> endsWith k (arrow @ name)))"

record bar_view =
  br_x :: number
  br_width :: number
  br_fill :: string
  br_opacity :: number

definition bar_view :: "number \<Rightarrow> nat \<Rightarrow> number \<times> bool \<times> string \<Rightarrow> bar_view" where
  "bar_view x i b =
     (case b of (pct, high, color) \<Rightarrow>
        \<lparr>br_x = fadd x (of_nat i * (36 + 8)), br_width = min 36 (fmul (fdiv pct 100) 36),
         br_fill = (if high then color else ''#94a3b8''), br_opacity = (if high then 1 else fl (55/100))\<rparr>)"

definition MicroBars :: "number \<Rightarrow> ServiceSnapshot option \<Rightarrow> bar_view list" where
  "MicroBars x svc =
     (let cpu = nullish (map_option sv_cpu_pct svc) 0; io = nullish (map_option sv_io_wait_pct svc) 0;
          mem = nullish (map_option sv_mem_pressure_pct svc) 0
      in map (\<lambda>(i, b). bar_view x i b)
           [(0, cpu, cpu > 70, ''#dc2626''), (1, io, io > 30, ''#7c3aed''), (2, mem, mem > 70, ''#ea580c'')])"

record node_view =
  nv_name :: string
  nv_x :: number
  nv_y :: number
  nv_w :: number
  nv_h :: number
  nv_halo :: "string option"
  nv_fill :: string
  nv_stroke :: string
  nv_stroke_width :: number
  nv_dash :: "string option"
  nv_bars :: "bar_view list"

definition node_view ::
  "SnapshotMap \<Rightarrow> ServiceMap \<Rightarrow> string option \<Rightarrow> string option \<Rightarrow> topo_state \<Rightarrow> string \<Rightarrow> node_view" where
  "node_view snapshots services selectedKey selectedNode st name =
     (let isInt = is_internal snapshots name; x = nodeLeft name (positions st);
          w = (if isInt then NODE_W else EXT_W); svc = obj_get services name;
          sc = stressColor (case svc of None \<Rightarrow> None | Some s \<Rightarrow> sv_stress_kind s);
          sel = isSelectedNode selectedNode selectedKey name
      in \<lparr>nv_name = name, nv_x = x, nv_y = nodeTop name (positions st), nv_w = w,
          nv_h = (if isInt then NODE_H else EXT_H), nv_halo = sc, nv_fill = (if isInt then ''#ffffff'' else ''#f8fafc''),
          nv_stroke = (if sel then ''#2563eb'' else nullish sc ''#cbd5e1''),
          nv_stroke_width = (if sel then fl (18/10) else fl (12/10)), nv_dash = (if isInt then None else Some ''5,3''),
          nv_bars = (if isInt then MicroBars (fsub (fadd x (fdiv w 2)) 60) svc else [])\<rparr>)"

text \<open>\<open>None\<close> is the placeholder shown while there is no traffic.\<close>

definition TopoGraph ::
  "(number \<Rightarrow> number) \<Rightarrow> SnapshotMap \<Rightarrow> ServiceMap \<Rightarrow> string option \<Rightarrow> string option \<Rightarrow> topo_state \<Rightarrow>
   (edge_view list \<times> node_view list) option" where
  "TopoGraph fsqrt snapshots services selectedKey selectedNode st =
     (if obj_values snapshots = [] then None
      else Some (map (edge_view fsqrt snapshots selectedKey st) (obj_values snapshots),
                 map (node_view snapshots services selectedKey selectedNode st) (service_names snapshots)))"

section \<open>The invariant of the map\<close>

definition in_unit :: "pos \<Rightarrow> bool" where
  "in_unit p \<longleftrightarrow> 0 \<le> px p \<and> px p \<le> 1 \<and> 0 \<le> py p \<and> py p \<le> 1"

definition topo_inv :: "topo_state \<Rightarrow> bool" where
  "topo_inv st \<longleftrightarrow> obj_all (\<lambda>k p. in_unit p) (positions st) \<and> fl (2/10) \<le> scale (tf st) \<and> scale (tf st) \<le> 3"

lemma hundredths_in_unit: "a \<le> 100 \<Longrightarrow> b \<le> 100 \<Longrightarrow> in_unit (hundredths a b)"
  by (simp add: in_unit_def hundredths_def f64.rnd_nonneg f64.rnd_le)

lemma NODE_POS_in_unit: "obj_all (\<lambda>k p. in_unit p) NODE_POS"
  by (simp add: obj_all_def NODE_POS_def hundredths_in_unit)

lemma node_pos_in_unit:
  assumes "obj_all (\<lambda>k p. in_unit p) ps" shows "in_unit (node_pos ps name)"
proof -
  have "in_unit p" if "obj_get NODE_POS name = Some p" for p using obj_all_get [OF NODE_POS_in_unit that] .
  moreover have "in_unit p" if "obj_get ps name = Some p" for p using obj_all_get [OF assms that] .
  moreover have "in_unit \<lparr>px = 1/2, py = 1/2\<rparr>" by (simp add: in_unit_def)
  ultimately show ?thesis unfolding node_pos_def nullish_def by (simp split: option.split)
qed

lemma scale_limits: "0 \<le> fl (2/10)" "fl (2/10) \<le> 1" "fl (2/10) \<le> 3" "1 \<le> fl (12/10)"
  by (auto intro: f64.rnd_le f64.rnd_nonneg fl_pos_int)

lemma spiral_in_unit: "in_unit (spiral_pos fcos fsin i)"
proof -
  have "0 \<le> fl (1/10)" "0 \<le> fl (9/10)" "fl (9/10) \<le> 1" by (auto intro: f64.rnd_nonneg f64.rnd_le)
  then have "0 \<le> min (fl (9/10)) (max (fl (1/10)) x) \<and> min (fl (9/10)) (max (fl (1/10)) x) \<le> 1" for x by auto
  then show ?thesis by (simp add: in_unit_def spiral_pos_def Let_def)
qed

lemma place_services_in_unit:
  "obj_all (\<lambda>k p. in_unit p) ps \<Longrightarrow> obj_all (\<lambda>k p. in_unit p) (place_services fcos fsin i ns ps)"
  by (induction ns arbitrary: i ps) (simp_all add: obj_all_put spiral_in_unit)

lemma zoomIn_inv:
  assumes "topo_inv st" shows "topo_inv (zoomIn st)"
proof -
  have s: "fl (2/10) \<le> scale (tf st)" using assms by (simp add: topo_inv_def)
  have "fl (2/10) * 1 \<le> scale (tf st) * fl (12/10)" using s scale_limits by (intro mult_mono) linarith+
  then have "fl (2/10) \<le> fmul (scale (tf st)) (fl (12/10))" unfolding fmul_def by (intro f64.le_rnd) simp_all
  with assms scale_limits(3) show ?thesis by (simp add: topo_inv_def zoomIn_def)
qed

lemma zoomOut_inv:
  assumes "topo_inv st" shows "topo_inv (zoomOut st)"
proof -
  have s: "0 \<le> scale (tf st)" "scale (tf st) \<le> 3" using assms scale_limits(1) unfolding topo_inv_def by linarith+
  have "scale (tf st) / fl (12/10) \<le> scale (tf st) / 1"
    by (rule divide_left_mono) (use s scale_limits(4) in simp_all)
  then have "fdiv (scale (tf st)) (fl (12/10)) \<le> 3" unfolding fdiv_def using s(2) by (intro f64.rnd_le) simp_all
  with assms scale_limits(3) show ?thesis by (simp add: topo_inv_def zoomOut_def)
qed

lemma topo_handle_inv:
  assumes "topo_inv st" shows "topo_inv (fst (topo_handle fcos fsin e st))"
proof (cases e)
  case (Wheel r x y d)
  then show ?thesis using assms scale_limits(3) by (simp add: topo_inv_def handleWheel_def Let_def)
next
  case (Mouse_down t x y)
  then show ?thesis using assms by (cases t) (simp_all add: topo_inv_def onMouseDown_def Let_def)
next
  case (Mouse_move x y)
  then show ?thesis using assms
    by (auto simp: topo_inv_def onMouseMove_def Let_def in_unit_def intro!: obj_all_put split: option.split)
next
  case (Services ns)
  then show ?thesis using assms by (simp add: topo_inv_def place_all_def place_services_in_unit)
qed (use assms zoomIn_inv zoomOut_inv scale_limits in
      \<open>simp_all add: topo_inv_def onMouseUp_def fitView_def fit_transform_def\<close>)

lemma topo_run_inv: "topo_inv st \<Longrightarrow> topo_inv (fst (topo_run fcos fsin es st))"
proof (induction es arbitrary: st)
  case (Cons e es)
  then show ?case using topo_handle_inv [OF Cons.prems, of fcos fsin e]
    by (simp add: case_prod_beta Let_def)
qed simp

lemma topo_init_inv: "topo_inv topo_init"
  using scale_limits by (simp add: topo_inv_def topo_init_def fit_transform_def NODE_POS_in_unit)

lemma unit_times: "0 \<le> x \<Longrightarrow> x \<le> 1 \<Longrightarrow> 0 \<le> b \<Longrightarrow> is_double b \<Longrightarrow> 0 \<le> fmul x b \<and> fmul x b \<le> b"
  using f64.rnd_scale_le [of b x] fmul_nonneg [of x b] by (simp add: fmul_def is_double_def)

lemma corner_in_area:
  assumes "topo_inv st"
  shows "0 \<le> nodeLeft name (positions st) \<and> nodeLeft name (positions st) \<le> 1000"
    "0 \<le> nodeTop name (positions st) \<and> nodeTop name (positions st) \<le> 700"
proof -
  have "in_unit (node_pos (positions st) name)" using assms by (intro node_pos_in_unit) (simp add: topo_inv_def)
  then show "0 \<le> nodeLeft name (positions st) \<and> nodeLeft name (positions st) \<le> 1000"
    "0 \<le> nodeTop name (positions st) \<and> nodeTop name (positions st) \<le> 700"
    using unit_times [of "px (node_pos (positions st) name)" 1000] unit_times [of "py (node_pos (positions st) name)" 700]
    by (simp_all add: nodeLeft_def nodeTop_def in_unit_def GRAPH_W_def GRAPH_H_def)
qed

lemma node_view_box:
  "nv_name (node_view snapshots services key node st name) = name"
  "nv_x (node_view snapshots services key node st name) = nodeLeft name (positions st)"
  "nv_y (node_view snapshots services key node st name) = nodeTop name (positions st)"
  "(nv_w (node_view snapshots services key node st name), nv_h (node_view snapshots services key node st name)) =
    (if is_internal snapshots name then (NODE_W, NODE_H) else (EXT_W, EXT_H))"
  by (simp_all add: node_view_def Let_def)

text \<open>A drag by a million pixels to the right, on the map as it is first shown.\<close>

lemma drag_to_edge:
  "nodeLeft name (positions (fst (topo_run fcos fsin [Mouse_down (On_node name) 0 0, Mouse_move 1000000 0] topo_init))) = 1000"
proof -
  have "0 \<le> px (node_pos NODE_POS name)"
    using node_pos_in_unit [OF NODE_POS_in_unit] by (simp add: in_unit_def)
  then have "1 \<le> fadd (px (node_pos NODE_POS name)) 1000" unfolding fadd_def by (intro f64.le_rnd) simp_all
  then show ?thesis
    by (simp add: onMouseDown_def onMouseMove_def topo_init_def fit_transform_def Let_def nodeLeft_def node_pos_def
        GRAPH_W_def fsub_def fdiv_def fmul_def)
qed

text \<open>
  C29: the limits of the map. After any sequence of wheel, drag, click, button and data events
  the zoom factor is between 0.2 and 3, and the graph draws, while there are connections, one
  node per service, whose top-left corner has graph coordinates (before pan and zoom) between 0 and 1000 and
  between 0 and 700 and whose box is 156 by 56 or, for an external service, 112 by
  36. The limits are for the corner only: a drag reaches the right edge, so that the box of
  the node lies wholly outside the area of 1000 by 700, and panning is not limited.
\<close>

theorem topo_corners_in_area:
  fixes es fcos fsin
  defines "st \<equiv> fst (topo_run fcos fsin es topo_init)"
  shows "fl (2/10) \<le> scale (tf st) \<and> scale (tf st) \<le> 3 \<and>
    (case TopoGraph fsqrt snapshots services key node st of
       None \<Rightarrow> obj_values snapshots = []
     | Some (edges, nodes) \<Rightarrow> map nv_name nodes = service_names snapshots \<and>
         list_all (\<lambda>n. 0 \<le> nv_x n \<and> nv_x n \<le> 1000 \<and> 0 \<le> nv_y n \<and> nv_y n \<le> 700 \<and>
           (nv_w n, nv_h n) = (if is_internal snapshots (nv_name n) then (156, 56) else (112, 36))) nodes) \<and>
    nodeLeft name (positions (fst (topo_run fcos fsin [Mouse_down (On_node name) 0 0, Mouse_move 1000000 0] topo_init))) = 1000"
proof -
  have inv: "topo_inv st" unfolding st_def by (rule topo_run_inv [OF topo_init_inv])
  have "map nv_name (map (node_view snapshots services key node st) ns) = ns" for ns
    by (induction ns) (simp_all add: node_view_box)
  then have "case TopoGraph fsqrt snapshots services key node st of
       None \<Rightarrow> obj_values snapshots = []
     | Some (edges, nodes) \<Rightarrow> map nv_name nodes = service_names snapshots \<and>
         list_all (\<lambda>n. 0 \<le> nv_x n \<and> nv_x n \<le> 1000 \<and> 0 \<le> nv_y n \<and> nv_y n \<le> 700 \<and>
           (nv_w n, nv_h n) = (if is_internal snapshots (nv_name n) then (156, 56) else (112, 36))) nodes"
    using corner_in_area [OF inv]
    by (simp add: TopoGraph_def list_all_iff node_view_box NODE_W_def NODE_H_def EXT_W_def EXT_H_def del: map_map)
  with inv drag_to_edge show ?thesis by (simp add: topo_inv_def)
qed

section \<open>Placing new services\<close>

lemma place_services_keeps:
  "obj_get ps k = Some p \<Longrightarrow> obj_get (place_services fcos fsin i ns ps) k = Some p"
proof (induction ns arbitrary: i ps)
  case (Cons n ns)
  then show ?case by (cases "n = k") auto
qed simp

lemma place_services_places:
  "n \<in> set ns \<Longrightarrow> obj_get (place_services fcos fsin i ns ps) n \<noteq> None"
proof (induction ns arbitrary: i ps)
  case (Cons m ns)
  then show ?case
  proof (cases "n = m")
    case True
    then show ?thesis by (auto simp: place_services_keeps)
  qed auto
qed simp

text \<open>
  When the set of services changes, every service gets a position and none that had one, by the table or by a drag, is moved.
\<close>

lemma place_all_total:
  "(\<forall>n \<in> set names. obj_get (positions (place_all fcos fsin names st)) n \<noteq> None) \<and>
   (\<forall>k p. obj_get (positions st) k = Some p \<longrightarrow> obj_get (positions (place_all fcos fsin names st)) k = Some p)"
  using place_services_places place_services_keeps by (simp add: place_all_def)

section \<open>Clicks and drags\<close>

definition idle :: "topo_state \<Rightarrow> bool" where
  "idle st \<longleftrightarrow> nodeDragRef st = None \<and> panRef st = None"

text \<open>A press at a point, a path of moves, a release and the click the browser then sends.\<close>

definition gesture :: "target \<Rightarrow> number \<Rightarrow> number \<Rightarrow> (number \<times> number) list \<Rightarrow> target \<Rightarrow> topo_event list" where
  "gesture t x y path t' = Mouse_down t x y # map (\<lambda>(a, b). Mouse_move a b) path @ [Mouse_up, Click t']"

definition dragging_from :: "number \<Rightarrow> number \<Rightarrow> topo_state \<Rightarrow> bool" where
  "dragging_from x y st \<longleftrightarrow>
     (case nodeDragRef st of Some d \<Rightarrow> nd_startX d = x \<and> nd_startY d = y
      | None \<Rightarrow> (case panRef st of Some p \<Rightarrow> pn_startX p = x \<and> pn_startY p = y | None \<Rightarrow> False))"

lemma move_drag:
  assumes "dragging_from x y st"
  shows "dragging_from x y (onMouseMove a b st)"
    "didDragRef (onMouseMove a b st) = (didDragRef st \<or> moved (fsub a x) (fsub b y))"
  using assms by (auto simp: dragging_from_def onMouseMove_def Let_def split: option.splits)

lemma path_drag:
  assumes "dragging_from x y st"
  shows "\<exists>st'. topo_run fcos fsin (map (\<lambda>(a, b). Mouse_move a b) path @ rest) st = topo_run fcos fsin rest st' \<and>
    dragging_from x y st' \<and>
    didDragRef st' = (didDragRef st \<or> (\<exists>(a, b) \<in> set path. moved (fsub a x) (fsub b y)))"
  using assms
proof (induction path arbitrary: st)
  case (Cons ab path)
  obtain a b where ab: "ab = (a, b)" by force
  from Cons.IH [OF move_drag(1) [OF Cons.prems, of a b]] show ?case
    by (auto simp: ab move_drag(2) [OF Cons.prems] case_prod_beta Let_def)
qed auto

text \<open>
  C9: a drag is not a click. A press, any path of pointer moves, a release and the click
  event that follows report a selection exactly when the pointer never went more than two
  pixels from the press; then it is the edge or the node under it, or, on the background,
  the selection is cleared.
\<close>

theorem drag_is_not_click:
  assumes "idle st"
  shows "snd (topo_run fcos fsin (gesture t x y path t') st) =
    (if \<exists>(a, b) \<in> set path. moved (fsub a x) (fsub b y) then []
     else case t' of On_edge k \<Rightarrow> [Select (Some k)] | On_node n \<Rightarrow> [SelectNode (Some n)]
       | On_background \<Rightarrow> [Select None, SelectNode None])"
proof -
  have "dragging_from x y (onMouseDown t x y st)" "\<not> didDragRef (onMouseDown t x y st)"
    using assms by (auto simp: dragging_from_def onMouseDown_def idle_def Let_def split: target.split)
  from path_drag [OF this(1), of fcos fsin path "[Mouse_up, Click t']"] this(2)
  show ?thesis by (auto simp: gesture_def case_prod_beta Let_def onSvgClick_def onMouseUp_def)
qed

theorem drag_is_not_click_witness:
  "snd (topo_run (\<lambda>x. 0) (\<lambda>x. 0) (gesture (On_node ''db'') 10 10 [(11, 10)] (On_node ''db'')) topo_init) =
     [SelectNode (Some ''db'')] \<and>
   snd (topo_run (\<lambda>x. 0) (\<lambda>x. 0) (gesture (On_node ''db'') 10 10 [(50, 10)] (On_node ''db'')) topo_init) = []"
proof -
  have "idle topo_init" by (simp add: idle_def topo_init_def)
  from drag_is_not_click [OF this] show ?thesis by (simp add: moved_def fsub_def)
qed

section \<open>What is drawn\<close>

text \<open>
  Selecting a connection highlights its two services and no other: for names without an
  arrow, the test by prefix and suffix of the key is the test for being an endpoint.
\<close>

lemma selected_nodes_are_endpoints:
  assumes "no_arrow a" "no_arrow b" "no_arrow name"
  shows "isSelectedNode None (Some (connKey a b)) name \<longleftrightarrow> name = a \<or> name = b"
  using assms by (auto simp: isSelectedNode_def connKey_startsWith connKey_endsWith)

text \<open>
  Every edge refers to an arrow head that the drawing defines, spiking edges are always
  drawn in the colour of the critical band, dashed and glowing, and the graph draws one edge
  per connection and one node per endpoint.
\<close>

lemma edges_well_drawn:
  assumes "obj_values snapshots \<noteq> []"
  shows "\<exists>edges nodes. TopoGraph fsqrt snapshots services selectedKey selectedNode st = Some (edges, nodes) \<and>
    list_all2 (\<lambda>e s. eg_key e = snapKey s \<and> eg_marker e \<in> marker_id ` set marker_colors \<and>
      (is_spike s \<longrightarrow> eg_color e = STATUS_COLOR St_critical \<and> eg_glow e \<and> eg_dash e \<noteq> None)) edges (obj_values snapshots) \<and>
    distinct (map nv_name nodes) \<and>
    set (map nv_name nodes) = src_service ` set (obj_values snapshots) \<union> dst_service ` set (obj_values snapshots)"
proof -
  have c: "marker_id (STATUS_COLOR x) \<in> marker_id ` set marker_colors" for x
    by (cases x) (simp_all add: marker_colors_def)
  have e: "eg_key (edge_view fsqrt snapshots selectedKey st s) = snapKey s \<and>
      eg_marker (edge_view fsqrt snapshots selectedKey st s) \<in> marker_id ` set marker_colors \<and>
      (is_spike s \<longrightarrow> eg_color (edge_view fsqrt snapshots selectedKey st s) = STATUS_COLOR St_critical \<and>
        eg_glow (edge_view fsqrt snapshots selectedKey st s) \<and> eg_dash (edge_view fsqrt snapshots selectedKey st s) \<noteq> None)"
    for s using c [of "latencyStatus (p99_us s)"] c [of St_critical]
    by (simp add: edge_view_def Let_def)
  have n: "map nv_name (map (node_view snapshots services selectedKey selectedNode st) ns) = ns" for ns
    by (induction ns) (simp_all add: node_view_def Let_def)
  have g: "TopoGraph fsqrt snapshots services selectedKey selectedNode st =
      Some (map (edge_view fsqrt snapshots selectedKey st) (obj_values snapshots),
            map (node_view snapshots services selectedKey selectedNode st) (service_names snapshots))"
    using assms by (simp add: TopoGraph_def)
  have l: "list_all2 (\<lambda>e s. eg_key e = snapKey s \<and> eg_marker e \<in> marker_id ` set marker_colors \<and>
      (is_spike s \<longrightarrow> eg_color e = STATUS_COLOR St_critical \<and> eg_glow e \<and> eg_dash e \<noteq> None))
      (map (edge_view fsqrt snapshots selectedKey st) (obj_values snapshots)) (obj_values snapshots)"
    unfolding list_all2_map1 list_all2_same using e by blast
  show ?thesis
    by (intro exI conjI, rule g, rule l) (simp_all only: n distinct_service_names set_service_names)
qed

end
