(* ===== verification/DetailPanel.thy ===== *)
theory DetailPanel
  imports Overview
begin

text \<open>
  \<open>components/DetailPanel.tsx\<close>: the panel of the selected connection or service. The
  history it shows is the live one or, after a click on a time range, the answer of the
  collector's history interface. The requests in flight are part of the state, since their
  answers may come in any order and after the selection has changed. The collector is the
  argument \<open>server\<close>, from a request to its rows; \<open>None\<close> is a failed request, which the code
  logs and ignores.
\<close>

section \<open>Ranges and requests\<close>

datatype RangeKey = R_1h | R_6h | R_24h | R_7d | R_all

fun range_text :: "RangeKey \<Rightarrow> string" where
  "range_text R_1h = ''1h''"
| "range_text R_6h = ''6h''"
| "range_text R_24h = ''24h''"
| "range_text R_7d = ''7d''"
| "range_text R_all = ''all''"

definition RANGE_LABELS :: "(RangeKey \<times> string) list" where
  "RANGE_LABELS = [(R_1h, ''1h''), (R_6h, ''6h''), (R_24h, ''24h''), (R_7d, ''7d''), (R_all, ''All'')]"

record request =
  rq_src :: string
  rq_dst :: string
  rq_range :: RangeKey

record api_row =
  ar_ts :: number
  ar_p50_us :: number
  ar_p95_us :: number
  ar_p99_us :: number
  ar_avg_us :: number
  ar_jitter_us :: number

text \<open>The address asked; \<open>encodeURIComponent\<close> is the argument \<open>enc\<close>.\<close>

definition request_url :: "string \<Rightarrow> (string \<Rightarrow> string) \<Rightarrow> request \<Rightarrow> string" where
  "request_url hostname enc rq =
     ''http://'' @ hostname @ '':9090/api/history?src='' @ enc (rq_src rq) @ ''&dst='' @ enc (rq_dst rq) @
     ''&range='' @ range_text (rq_range rq)"

definition row_point :: "api_row \<Rightarrow> HistoryPoint" where
  "row_point row =
     \<lparr>hp_time = ar_ts row, hp_latest_srtt_us = ar_p99_us row, hp_avg_us = ar_avg_us row, hp_p50_us = ar_p50_us row,
      hp_p95_us = ar_p95_us row, hp_p99_us = ar_p99_us row, hp_jitter_us = ar_jitter_us row\<rparr>"

section \<open>State and handlers\<close>

record detail_state =
  d_snap :: "StatSnapshot option"
  d_range :: "RangeKey option"
  dbHistory :: "HistoryPoint list option"
  inflight :: "request list"

definition detail_init :: detail_state where
  "detail_init = \<lparr>d_snap = None, d_range = None, dbHistory = None, inflight = []\<rparr>"

definition conn_of :: "StatSnapshot option \<Rightarrow> (string \<times> string) option" where
  "conn_of s = map_option (\<lambda>s. (src_service s, dst_service s)) s"

definition handleLive :: "detail_state \<Rightarrow> detail_state" where
  "handleLive st = st\<lparr>d_range := None, dbHistory := None\<rparr>"

text \<open>New props: the effect runs when the source or the destination changed.\<close>

definition new_props :: "StatSnapshot option \<Rightarrow> detail_state \<Rightarrow> detail_state" where
  "new_props s st =
     (let st' = st\<lparr>d_snap := s\<rparr> in if conn_of (d_snap st) \<noteq> conn_of s then handleLive st' else st')"

definition handleRange :: "RangeKey \<Rightarrow> detail_state \<Rightarrow> detail_state" where
  "handleRange r st =
     (case d_snap st of None \<Rightarrow> st
      | Some s \<Rightarrow> st\<lparr>d_range := Some r,
          inflight := inflight st @ [\<lparr>rq_src = src_service s, rq_dst = dst_service s, rq_range = r\<rparr>]\<rparr>)"

text \<open>An answer to the request at place \<open>i\<close> of those in flight.\<close>

definition fetched :: "(request \<Rightarrow> api_row list option) \<Rightarrow> nat \<Rightarrow> detail_state \<Rightarrow> detail_state" where
  "fetched server i st =
     (if i < length (inflight st) then
        (let st' = st\<lparr>inflight := take i (inflight st) @ drop (Suc i) (inflight st)\<rparr>
         in case server (inflight st ! i) of None \<Rightarrow> st'
            | Some rows \<Rightarrow> st'\<lparr>dbHistory := Some (map row_point rows)\<rparr>)
      else st)"

datatype detail_event = Props "StatSnapshot option" | Range RangeKey | Live | Response nat

fun detail_handle :: "(request \<Rightarrow> api_row list option) \<Rightarrow> detail_event \<Rightarrow> detail_state \<Rightarrow> detail_state" where
  "detail_handle server (Props s) st = new_props s st"
| "detail_handle server (Range r) st = handleRange r st"
| "detail_handle server Live st = handleLive st"
| "detail_handle server (Response i) st = fetched server i st"

definition detail_run :: "(request \<Rightarrow> api_row list option) \<Rightarrow> detail_event list \<Rightarrow> detail_state \<Rightarrow> detail_state" where
  "detail_run server es st = fold (detail_handle server) es st"

definition displayHistory :: "detail_state \<Rightarrow> HistoryPoint list \<Rightarrow> HistoryPoint list" where
  "displayHistory st history =
     (case (d_range st, dbHistory st) of (Some _, Some h) \<Rightarrow> h | _ \<Rightarrow> history)"

section \<open>The panels\<close>

definition closeTotal :: "StatSnapshot \<Rightarrow> number" where
  "closeTotal s =
     fadd (fadd (nullish (map_option cs_fin (close_states s)) 0) (nullish (map_option cs_rst (close_states s)) 0))
       (nullish (map_option cs_timeout (close_states s)) 0)"

definition bar_widths :: "CloseStates \<Rightarrow> number \<Rightarrow> number list" where
  "bar_widths c tot =
     [fmul (fdiv (cs_fin c) tot) 100, fmul (fdiv (cs_rst c) tot) 100, fmul (fdiv (cs_timeout c) tot) 100]"

record banner =
  bn_color :: string
  bn_title :: string
  bn_desc :: string
  bn_ratio :: "string option"
  bn_chips :: "(string \<times> card_value) list"

text \<open>
  The evidence chips: a label and its value. A baseline of zero is falsy: React then prints
  the zero itself in the place of the ratio.
\<close>

definition chips :: "StatSnapshot \<Rightarrow> (string \<times> card_value) list" where
  "chips s =
     (if nullish (dst_cpu_pct s) 0 > 50 then [(''CPU: '', Text (toFixed 0 (nullish (dst_cpu_pct s) 0) @ ''%''))] else []) @
     (if nullish (dst_io_wait_pct s) 0 > 20
      then [(''IO wait: '', Text (toFixed 0 (nullish (dst_io_wait_pct s) 0) @ ''%''))] else []) @
     (if nullish (dst_mem_pressure_pct s) 0 > 50
      then [(''Mem: '', Text (toFixed 0 (nullish (dst_mem_pressure_pct s) 0) @ ''%''))] else []) @
     (if retransmit_count s > 0 then [(''Retrans: '', Num (retransmit_count s))] else [])"

definition banner :: "StatSnapshot \<Rightarrow> banner option" where
  "banner s =
     (case cause_kind s of
        Some k \<Rightarrow>
          (if is_spike s then
             (let m = CAUSE_META k
              in Some \<lparr>bn_color = cm_color m, bn_title = cm_icon m @ '' '' @ cm_label m, bn_desc = cm_desc m,
                   bn_ratio = (case baseline_us s of None \<Rightarrow> None
                     | Some b \<Rightarrow> if b = 0 then Some ''0''
                         else Some (toFixed 1 (fdiv (p99_us s) b) @ times_sign @ '' baseline'')),
                   bn_chips = chips s\<rparr>)
           else None)
      | None \<Rightarrow> None)"

record close_bar =
  cb_total :: number
  cb_widths :: "number list"
  cb_legend :: "(string \<times> string \<times> number) list"

definition close_bar :: "StatSnapshot \<Rightarrow> close_bar option" where
  "close_bar s =
     (case close_states s of None \<Rightarrow> None
      | Some c \<Rightarrow>
          (if closeTotal s > 0 then
             Some \<lparr>cb_total = closeTotal s, cb_widths = bar_widths c (closeTotal s),
               cb_legend = [(''#16a34a'', ''FIN'', cs_fin c), (''#dc2626'', ''RST'', cs_rst c),
                 (''#ea580c'', ''TIMEOUT'', cs_timeout c)]\<rparr>
           else None))"

record range_button =
  rb_label :: string
  rb_active :: bool
  rb_border :: string
  rb_background :: string
  rb_color :: string

definition RangeBtn :: "string \<Rightarrow> bool \<Rightarrow> bool \<Rightarrow> range_button" where
  "RangeBtn label active accent =
     \<lparr>rb_label = label, rb_active = active,
      rb_border = ''1px solid '' @ (if active then (if accent then ''#6366f1'' else ''#64748b'') else ''var(--border)''),
      rb_background = (if active then (if accent then ''#6366f1'' else ''#334155'') else ''var(--bg-surface)''),
      rb_color = (if active then ''#fff'' else ''var(--text-muted)'')\<rparr>"

definition range_buttons :: "detail_state \<Rightarrow> range_button list" where
  "range_buttons st =
     RangeBtn ''Live'' (d_range st = None) True #
     map (\<lambda>(key, label). RangeBtn label (d_range st = Some key) False) RANGE_LABELS"

text \<open>A chart's title and the lines of its legend: colour, label and dash pattern.\<close>

record chart_header =
  hd_title :: string
  hd_legend :: "(string \<times> string \<times> string option) list"

definition ChartHeader :: "string \<Rightarrow> (string \<times> string \<times> bool) list \<Rightarrow> chart_header" where
  "ChartHeader title legend =
     \<lparr>hd_title = title,
      hd_legend = map (\<lambda>(color, label, dash). (color, label, if dash then Some ''4,2'' else None)) legend\<rparr>"

record conn_panel =
  cp_src :: string
  cp_dst :: string
  cp_banner :: "banner option"
  cp_cards :: "(string \<times> string \<times> string) list"
  cp_secondary :: "(string \<times> card_value \<times> string) list"
  cp_close :: "close_bar option"
  cp_header :: chart_header
  cp_buttons :: "range_button list"
  cp_history :: "HistoryPoint list"
  cp_isSpike :: bool

definition conn_panel :: "detail_state \<Rightarrow> StatSnapshot \<Rightarrow> HistoryPoint list \<Rightarrow> conn_panel" where
  "conn_panel st s history =
     \<lparr>cp_src = src_service s, cp_dst = dst_service s, cp_banner = banner s,
      cp_cards = [(''AVG'', fmtUs (avg_us s), ''#2563eb''), (''P50'', fmtUs (p50_us s), ''#16a34a''),
        (''P95'', fmtUs (p95_us s), ''#d97706''), (''P99'', fmtUs (p99_us s), STATUS_COLOR (latencyStatus (p99_us s)))],
      cp_secondary = [(''Jitter'', Text (fmtUs (jitter_us s)), ''var(--text-muted)''),
        (''Retransmits'', Num (retransmit_count s), if retransmit_count s > 0 then ''#ea580c'' else ''var(--text-muted)''),
        (''Samples'', Num (sample_count s), ''var(--text-muted)''),
        (''Threshold'', Text (fmtUs (spike_threshold_us s)), ''var(--text-muted)'')],
      cp_close = close_bar s,
      cp_header = ChartHeader ''Latency'' [(''#2563eb'', ''AVG'', True), (''#16a34a'', ''P50'', False),
        (''#d97706'', ''P95'', False), (''#ea580c'', ''P99'', False)],
      cp_buttons = range_buttons st, cp_history = displayHistory st history,
      cp_isSpike = is_spike s\<rparr>"

record metric_view =
  me_label :: string
  me_text :: string
  me_color :: string
  me_width :: number
  me_bar :: string

definition metric_view :: "string \<Rightarrow> number \<Rightarrow> string \<Rightarrow> metric_view" where
  "metric_view label v color =
     \<lparr>me_label = label, me_text = toFixed 2 v @ ''%'', me_color = (if v > 70 then color else ''var(--text-primary)''),
      me_width = min 100 v, me_bar = (if v > 70 then color else ''#94a3b8'')\<rparr>"

record node_panel =
  np_name :: string
  np_metrics :: "metric_view list option"
  np_header :: "chart_header option"
  np_history :: "ResourcePoint list"

text \<open>Without resource data only the header and a note are shown.\<close>

definition NodePanel :: "string \<Rightarrow> ServiceSnapshot option \<Rightarrow> node_panel" where
  "NodePanel name svc =
     (case svc of
        None \<Rightarrow> \<lparr>np_name = name, np_metrics = None, np_header = None, np_history = []\<rparr>
      | Some s \<Rightarrow> \<lparr>np_name = name,
          np_metrics = Some [metric_view ''CPU'' (sv_cpu_pct s) ''#dc2626'', metric_view ''IO Wait'' (sv_io_wait_pct s) ''#7c3aed'',
            metric_view ''Mem Pressure'' (sv_mem_pressure_pct s) ''#ea580c'',
            metric_view ''CPU Throttle'' (sv_cpu_throttle_pct s) ''#f59e0b''],
          np_header = Some (ChartHeader ''Resource History'' [(''#dc2626'', ''CPU'', False),
            (''#7c3aed'', ''IO wait'', False), (''#ea580c'', ''Mem'', False)]),
          np_history = sv_history s\<rparr>)"

datatype panel = Show_node node_panel | Show_empty | Show_conn conn_panel

text \<open>The order of the source: a selected node first, then the connection.\<close>

definition DetailPanel ::
  "detail_state \<Rightarrow> HistoryPoint list \<Rightarrow> string option \<Rightarrow> ServiceSnapshot option \<Rightarrow> panel" where
  "DetailPanel st history selectedNode nodeService =
     (if nullish selectedNode [] \<noteq> [] then Show_node (NodePanel (the selectedNode) nodeService)
      else case d_snap st of None \<Rightarrow> Show_empty | Some s \<Rightarrow> Show_conn (conn_panel st s history))"

section \<open>Which history is shown\<close>

text \<open>
  A step is orderly when a time range is asked and the connection changes only while no
  request is in flight. The invariant says what the state is waiting for.
\<close>

fun orderly :: "detail_event \<Rightarrow> detail_state \<Rightarrow> bool" where
  "orderly (Props s) st \<longleftrightarrow> conn_of s = conn_of (d_snap st) \<or> inflight st = []"
| "orderly (Range r) st \<longleftrightarrow> inflight st = []"
| "orderly Live st \<longleftrightarrow> True"
| "orderly (Response i) st \<longleftrightarrow> True"

fun orderly_run :: "(request \<Rightarrow> api_row list option) \<Rightarrow> detail_event list \<Rightarrow> detail_state \<Rightarrow> bool" where
  "orderly_run server [] st \<longleftrightarrow> True"
| "orderly_run server (e # es) st \<longleftrightarrow> orderly e st \<and> orderly_run server es (detail_handle server e st)"

definition request_of :: "StatSnapshot \<Rightarrow> RangeKey \<Rightarrow> request" where
  "request_of s r = \<lparr>rq_src = src_service s, rq_dst = dst_service s, rq_range = r\<rparr>"

definition settled :: "(request \<Rightarrow> api_row list) \<Rightarrow> detail_state \<Rightarrow> bool" where
  "settled answer st \<longleftrightarrow>
     (case d_snap st of None \<Rightarrow> d_range st = None \<and> inflight st = []
      | Some s \<Rightarrow>
          (case d_range st of
             None \<Rightarrow> (\<exists>r. inflight st = [request_of s r]) \<or> inflight st = []
           | Some r \<Rightarrow> inflight st = [request_of s r] \<or>
               inflight st = [] \<and> dbHistory st = Some (map row_point (answer (request_of s r)))))"

lemma request_of_conn: "conn_of (Some s) = conn_of (Some s') \<Longrightarrow> request_of s = request_of s'"
  by (simp add: conn_of_def request_of_def fun_eq_iff)

lemma settled_new_props:
  assumes "settled answer st" "orderly (Props s) st"
  shows "settled answer (new_props s st)"
proof (cases "conn_of (d_snap st) = conn_of s")
  case same: True
  show ?thesis
  proof (cases s)
    case None
    then show ?thesis using same assms(1) by (simp add: settled_def new_props_def conn_of_def)
  next
    case (Some v)
    then obtain u where u: "d_snap st = Some u" using same by (auto simp: conn_of_def)
    then have "request_of u = request_of v" using same Some request_of_conn by metis
    then show ?thesis using same Some u assms(1) by (cases "d_range st") (simp_all add: settled_def new_props_def)
  qed
next
  case False
  then have "inflight st = []" using assms(2) by auto
  then show ?thesis using False by (simp add: settled_def new_props_def handleLive_def split: option.split)
qed

lemma settled_fetched:
  assumes "settled answer st" shows "settled answer (fetched (Some \<circ> answer) i st)"
  using assms by (cases "i < length (inflight st)") (auto simp: settled_def fetched_def Let_def split: option.splits)

lemma settled_step:
  assumes "settled answer st" "orderly e st"
  shows "settled answer (detail_handle (Some \<circ> answer) e st)"
proof (cases e)
  case (Range r)
  then show ?thesis using assms
    by (cases "d_snap st") (simp_all add: settled_def handleRange_def request_of_def)
next
  case Live
  then show ?thesis using assms by (auto simp: settled_def handleLive_def split: option.splits)
qed (use assms settled_new_props settled_fetched in auto)

lemma settled_run:
  "settled answer st \<Longrightarrow> orderly_run (Some \<circ> answer) es st \<Longrightarrow>
   settled answer (detail_run (Some \<circ> answer) es st)"
  by (induction es arbitrary: st) (simp_all add: detail_run_def settled_step)

lemma settled_init: "settled answer detail_init"
  by (simp add: settled_def detail_init_def)

text \<open>
  C10: When every request is answered, and a time range is asked and the connection changed
  only while no answer is awaited, then as soon as no answer is awaited any more the chart
  shows exactly the server's answer for the connection shown and the range whose button is
  active, and the live history when Live is active.
\<close>

theorem detail_settled:
  assumes "orderly_run (Some \<circ> answer) es detail_init"
    and "st = detail_run (Some \<circ> answer) es detail_init" "inflight st = []" "d_snap st = Some s"
  shows "cp_history (conn_panel st s live) =
    (case d_range st of None \<Rightarrow> live | Some r \<Rightarrow> map row_point (answer (request_of s r)))"
  using settled_run [OF settled_init assms(1)] assms(2-)
  by (auto simp: settled_def conn_panel_def displayHistory_def split: option.splits)

definition one_row :: "request \<Rightarrow> api_row list" where
  "one_row rq = [\<lparr>ar_ts = of_nat (length (rq_dst rq)), ar_p50_us = 1, ar_p95_us = 2, ar_p99_us = 3, ar_avg_us = 1,
     ar_jitter_us = 0\<rparr>]"

theorem detail_settled_witness:
  "map hp_time (cp_history (conn_panel
     (detail_run (Some \<circ> one_row) [Props (Some (sample_snap False 9)), Range R_6h, Response 0] detail_init)
     (sample_snap False 9) [])) = [2]"
proof -
  let ?es = "[Props (Some (sample_snap False 9)), Range R_6h, Response 0]"
  let ?st = "detail_run (Some \<circ> one_row) ?es detail_init"
  note ds = detail_run_def detail_init_def new_props_def handleLive_def conn_of_def handleRange_def
    fetched_def one_row_def
  have 1: "orderly_run (Some \<circ> one_row) ?es detail_init" by (simp add: ds)
  have 2: "inflight ?st = []" "d_snap ?st = Some (sample_snap False 9)" "d_range ?st = Some R_6h"
    by (simp_all add: ds)
  show ?thesis
    using detail_settled [OF 1 refl 2(1,2), of "[]"] 2(3) by (simp add: row_point_def one_row_def request_of_def)
qed

text \<open>
  C35: When answers come out of order the panel can end up wrong: for any two different connections, a
  range asked for the first, a change to the second, the same range asked there, and the two
  answers arriving in the opposite order leave the panel of the second connection, with
  nothing awaited, showing the rows of the first.
\<close>

theorem detail_stale_response:
  assumes "conn_of (Some a) \<noteq> conn_of (Some b)" "server (request_of a r) = Some rows"
  shows "\<exists>es st. st = detail_run server (Props (Some a) # es) detail_init \<and> inflight st = [] \<and>
    DetailPanel st live None None = Show_conn (conn_panel st b live) \<and>
    cp_history (conn_panel st b live) = map row_point rows"
proof (intro exI conjI)
  let ?es = "[Range r, Props (Some b), Range r, Response 1, Response 0]"
  let ?st = "detail_run server (Props (Some a) # ?es) detail_init"
  note ds = detail_run_def detail_init_def new_props_def handleLive_def conn_of_def handleRange_def fetched_def
    request_of_def Let_def
  show "?st = ?st" ..
  have *: "d_snap ?st = Some b" "inflight ?st = []" "d_range ?st = Some r" "dbHistory ?st = Some (map row_point rows)"
    using assms by (cases "server (request_of b r)"; auto simp: ds)+
  show "inflight ?st = []" by (fact *)
  show "DetailPanel ?st live None None = Show_conn (conn_panel ?st b live)"
    by (simp add: DetailPanel_def * del: One_nat_def)
  show "cp_history (conn_panel ?st b live) = map row_point rows"
    by (simp add: conn_panel_def displayHistory_def * del: One_nat_def)
qed

theorem detail_stale_response_witness:
  "\<exists>es st. st = detail_run (Some \<circ> one_row) (Props (Some (sample_snap False 9)) # es) detail_init \<and>
    inflight st = [] \<and>
    map hp_time (cp_history (conn_panel st (sample_snap False 9\<lparr>dst_service := ''cache''\<rparr>) [])) = [2]"
  using detail_stale_response [of "sample_snap False 9" "sample_snap False 9\<lparr>dst_service := ''cache''\<rparr>"
      "Some \<circ> one_row" R_1h "one_row (request_of (sample_snap False 9) R_1h)" "[]"]
  by (auto simp: conn_of_def one_row_def row_point_def request_of_def)

section \<open>The close states\<close>

lemma closeTotal_exact:
  assumes "close_states s = Some c" "cs_fin c = of_nat f" "cs_rst c = of_nat r" "cs_timeout c = of_nat t"
    and "f + r + t \<le> 2 ^ 53"
  shows "closeTotal s = of_nat (f + r + t)"
proof -
  have "fadd (of_nat f) (of_nat r) = of_nat (f + r)"
    using fl_of_nat [of "f + r"] assms(5) by (simp add: fadd_def)
  moreover have "fadd (of_nat (f + r)) (of_nat t) = of_nat (f + r + t)"
    using fl_of_nat [of "f + r + t"] assms(5) by (simp add: fadd_def)
  ultimately show ?thesis by (simp add: closeTotal_def nullish_def assms)
qed

lemma percent_error:
  assumes "0 \<le> x" "x \<le> 1"
  shows "\<bar>fmul (fl x) 100 - 100 * x\<bar> \<le> 1 / 2 ^ 44 \<and> 0 \<le> fmul (fl x) 100 \<and> fmul (fl x) 100 \<le> 100"
proof -
  have b: "0 \<le> fl x" "fl x \<le> 1" using assms by (auto intro: f64.rnd_nonneg f64.rnd_le)
  have e1: "\<bar>fl x - x\<bar> \<le> 1 / 2 ^ 53"
    using fl_abs_error [of x 1] assms by (simp add: power_int_def power_one_over)
  have e2: "\<bar>fl (fl x * 100) - fl x * 100\<bar> \<le> 1 / 2 ^ 47"
    using fl_abs_error [of "fl x * 100" 7] b by (simp add: power_int_def power_one_over)
  have "\<bar>fmul (fl x) 100 - 100 * x\<bar> \<le> 1 / 2 ^ 47 + 100 * (1 / 2 ^ 53)"
    using e1 e2 unfolding fmul_def abs_le_iff by linarith
  then show ?thesis using b by (auto simp: fmul_def intro: f64.rnd_nonneg f64.rnd_le)
qed

text \<open>
  For counts of closed connections with a positive sum up to \<open>2\<^sup>5\<^sup>3\<close> the bar is shown with
  the exact total, each part is between 0 and 100 percent wide and within \<open>2\<^sup>-\<^sup>4\<^sup>4\<close> of its exact
  share, so the three parts fill the bar up to a rounding error no pixel shows.
\<close>

lemma close_bar_full:
  assumes "close_states s = Some c" "cs_fin c = of_nat f" "cs_rst c = of_nat r" "cs_timeout c = of_nat t"
    and "0 < f + r + t" "f + r + t \<le> 2 ^ 53"
  shows "\<exists>wf wr wt leg. close_bar s = Some \<lparr>cb_total = of_nat (f + r + t), cb_widths = [wf, wr, wt], cb_legend = leg\<rparr> \<and>
    (\<forall>(w, n) \<in> {(wf, f), (wr, r), (wt, t)}. 0 \<le> w \<and> w \<le> 100 \<and>
       \<bar>w - 100 * of_nat n / of_nat (f + r + t)\<bar> \<le> 1 / 2 ^ 44) \<and>
    \<bar>wf + wr + wt - 100\<bar> \<le> 3 / 2 ^ 44"
proof -
  let ?n = "of_nat (f + r + t) :: number"
  let ?w = "\<lambda>k. fmul (fdiv (of_nat k) ?n) 100"
  have tot: "closeTotal s = ?n" by (rule closeTotal_exact [OF assms(1-4,6)])
  have pos: "0 < ?n" using assms(5) by (simp only: of_nat_0_less_iff)
  have bar: "close_bar s = Some \<lparr>cb_total = ?n, cb_widths = [?w f, ?w r, ?w t],
      cb_legend = [(''#16a34a'', ''FIN'', cs_fin c), (''#dc2626'', ''RST'', cs_rst c),
                 (''#ea580c'', ''TIMEOUT'', cs_timeout c)]\<rparr>"
    using pos by (simp only: close_bar_def assms tot bar_widths_def if_True option.case)
  have w: "\<bar>?w k - 100 * of_nat k / ?n\<bar> \<le> 1 / 2 ^ 44 \<and> 0 \<le> ?w k \<and> ?w k \<le> 100" if "k \<le> f + r + t" for k
  proof -
    have "0 \<le> of_nat k / ?n" "of_nat k / ?n \<le> 1"
      using pos that by (simp_all only: divide_le_eq_1_pos of_nat_le_iff divide_nonneg_pos of_nat_0_le_iff)
    from percent_error [OF this] show ?thesis by (simp only: fdiv_def times_divide_eq_right)
  qed
  have "100 * of_nat f / ?n + 100 * of_nat r / ?n + 100 * of_nat t / ?n = 100 * ((of_nat f + of_nat r + of_nat t) / ?n)"
    by (simp only: add_divide_distrib distrib_left times_divide_eq_right)
  also have "\<dots> = 100" using pos by simp
  finally have "\<bar>?w f + ?w r + ?w t - 100\<bar> \<le> 3 / 2 ^ 44"
    using w [of f] w [of r] w [of t] by (simp only: abs_le_iff, linarith)
  moreover have "\<forall>(u, n) \<in> {(?w f, f), (?w r, r), (?w t, t)}. 0 \<le> u \<and> u \<le> 100 \<and>
      \<bar>u - 100 * of_nat n / ?n\<bar> \<le> 1 / 2 ^ 44"
    using w [of f] w [of r] w [of t] by simp
  ultimately show ?thesis using bar by blast
qed

end
