(* ===== verification/App.thy ===== *)
theory App
  imports WsLifecycle MockInvariant ConnectionList HeatmapMatrix TopoGraph DetailPanel
begin

text \<open>
  \<open>App.tsx\<close>: the dashboard as a whole. Its state is the selection, the mounted view with the
  state of that view, and the state of the detail panel; its data come from one of the two
  hooks. \<open>rerender\<close> is what a new render hands to the children: the props of the detail panel
  and, for the graph, the effect on the list of services. The relation \<open>app_reach\<close> interleaves
  the steps of a data source with what a user can do on the rendered page. The locale
  \<open>data_source\<close> is the contract of the hooks; both are interpretations of it.

  The browser's functions that the model does not define (trigonometry, square root,
  \<open>localeCompare\<close>, the collector's HTTP answers) are the fields of the argument \<open>b\<close>.
\<close>

section \<open>State\<close>

record browser =
  b_cos :: "number \<Rightarrow> number"
  b_sin :: "number \<Rightarrow> number"
  b_sqrt :: "number \<Rightarrow> number"
  b_localeCompare :: "string \<Rightarrow> string \<Rightarrow> number"
  b_server :: "request \<Rightarrow> api_row list option"

text \<open>The mounted view; the graph remembers the dependency of its effect.\<close>

datatype view = View_graph string topo_state | View_list list_state | View_matrix

fun viewMode :: "view \<Rightarrow> ViewMode" where
  "viewMode (View_graph key st) = V_graph"
| "viewMode (View_list st) = V_list"
| "viewMode View_matrix = V_matrix"

record app_state =
  selectedKey :: "string option"
  selectedNode :: "string option"
  view :: view
  detail :: detail_state

text \<open>An empty string is falsy in \<open>selectedKey ? ... : ...\<close>.\<close>

definition truthy :: "string option \<Rightarrow> string option" where
  "truthy k = (if k = Some [] then None else k)"

definition selectedSnap :: "'a ws_state_scheme \<Rightarrow> app_state \<Rightarrow> StatSnapshot option" where
  "selectedSnap d a = (case truthy (selectedKey a) of None \<Rightarrow> None | Some k \<Rightarrow> obj_get (snapshots d) k)"

definition selectedHist :: "'a ws_state_scheme \<Rightarrow> app_state \<Rightarrow> HistoryPoint list" where
  "selectedHist d a =
     (case truthy (selectedKey a) of None \<Rightarrow> [] | Some k \<Rightarrow> nullish (obj_get (conn_history d) k) [])"

definition nodeService :: "'a ws_state_scheme \<Rightarrow> app_state \<Rightarrow> ServiceSnapshot option" where
  "nodeService d a = (case truthy (selectedNode a) of None \<Rightarrow> None | Some n \<Rightarrow> obj_get (services d) n)"

section \<open>Handlers\<close>

definition handleSelectEdge :: "string option \<Rightarrow> app_state \<Rightarrow> app_state" where
  "handleSelectEdge key a = a\<lparr>selectedKey := key, selectedNode := None\<rparr>"

definition handleSelectNode :: "string option \<Rightarrow> app_state \<Rightarrow> app_state" where
  "handleSelectNode name a = a\<lparr>selectedNode := name, selectedKey := None\<rparr>"

definition onClose :: "app_state \<Rightarrow> app_state" where
  "onClose a = a\<lparr>selectedKey := None, selectedNode := None\<rparr>"

text \<open>\<open>SpikeLog\<close> is given the bare setter.\<close>

definition setSelected :: "string option \<Rightarrow> app_state \<Rightarrow> app_state" where
  "setSelected key a = a\<lparr>selectedKey := key\<rparr>"

definition allServicesKey :: "'a ws_state_scheme \<Rightarrow> string" where
  "allServicesKey d = join '','' (sort_strings (service_names (snapshots d)))"

text \<open>A view that was not shown is mounted anew, with fresh state, and the graph's effect runs.\<close>

fun mount_view :: "browser \<Rightarrow> 'a ws_state_scheme \<Rightarrow> ViewMode \<Rightarrow> view" where
  "mount_view b d V_graph =
     View_graph (allServicesKey d) (place_all (b_cos b) (b_sin b) (service_names (snapshots d)) topo_init)"
| "mount_view b d V_list = View_list list_init"
| "mount_view b d V_matrix = View_matrix"

definition setViewMode :: "browser \<Rightarrow> 'a ws_state_scheme \<Rightarrow> ViewMode \<Rightarrow> app_state \<Rightarrow> app_state" where
  "setViewMode b d v a = (if viewMode (view a) = v then a else a\<lparr>view := mount_view b d v\<rparr>)"

fun apply_selection :: "selection \<Rightarrow> app_state \<Rightarrow> app_state" where
  "apply_selection (Select key) a = handleSelectEdge key a"
| "apply_selection (SelectNode name) a = handleSelectNode name a"

definition app_init :: "browser \<Rightarrow> 'a ws_state_scheme \<Rightarrow> app_state" where
  "app_init b d = \<lparr>selectedKey = None, selectedNode = None, view = mount_view b d V_graph, detail = detail_init\<rparr>"

definition rerender :: "browser \<Rightarrow> 'a ws_state_scheme \<Rightarrow> app_state \<Rightarrow> app_state" where
  "rerender b d a =
     a\<lparr>view := (case view a of
          View_graph key st \<Rightarrow>
            (if allServicesKey d = key then view a
             else View_graph (allServicesKey d) (place_all (b_cos b) (b_sin b) (service_names (snapshots d)) st))
        | v \<Rightarrow> v),
       detail := new_props (selectedSnap d a) (detail a)\<rparr>"

section \<open>The page\<close>

datatype main_view =
    Main_graph "(edge_view list \<times> node_view list) option"
  | Main_list list_view
  | Main_matrix matrix_view

record app_view =
  av_topbar :: topbar
  av_metrics :: "stat_view list"
  av_header :: section_view
  av_tabs :: "(tab \<times> bool) list"
  av_main :: main_view
  av_detail_header :: section_view
  av_panel :: panel
  av_log_header :: section_view
  av_log :: "spike_row list option"

definition app_main :: "browser \<Rightarrow> 'a ws_state_scheme \<Rightarrow> app_state \<Rightarrow> main_view" where
  "app_main b d a =
     (case view a of
        View_graph key st \<Rightarrow>
          Main_graph (TopoGraph (b_sqrt b) (snapshots d) (services d) (selectedKey a) (selectedNode a) st)
      | View_list st \<Rightarrow> Main_list (ConnectionListView (b_localeCompare b) st (snapshots d) (selectedKey a))
      | View_matrix \<Rightarrow> Main_matrix (HeatmapMatrixView (snapshots d) (services d) (selectedKey a)))"

definition app_panel :: "'a ws_state_scheme \<Rightarrow> app_state \<Rightarrow> panel" where
  "app_panel d a = DetailPanel (detail a) (selectedHist d a) (selectedNode a) (nodeService d a)"

definition App :: "browser \<Rightarrow> int \<Rightarrow> int \<Rightarrow> bool \<Rightarrow> 'a ws_state_scheme \<Rightarrow> app_state \<Rightarrow> app_view" where
  "App b tz now up d a =
     \<lparr>av_topbar = TopBar tz now up (snapshots d) (services d),
      av_metrics = GlobalMetrics (snapshots d) (services d),
      av_header = SectionHeader ''Service Topology'' (Some (show_nat (length (obj_keys (snapshots d))) @ '' edges'')),
      av_tabs = ViewSwitcher (viewMode (view a)), av_main = app_main b d a,
      av_detail_header = SectionHeader (''Detail '' @ utf8 [0xC2, 0xB7] @ '' Root-cause Analysis'') None,
      av_panel = app_panel d a,
      av_log_header = SectionHeader ''Spike Event Log''
        (if length (events d) > 0 then Some (show_nat (length (events d))) else None),
      av_log = SpikeLog tz now (events d)\<rparr>"

section \<open>What a user can do\<close>

datatype app_event =
    Pick_view ViewMode
  | Graph topo_event
  | List_sort SortCol
  | List_filter FilterMode
  | List_row string
  | Matrix_cell string
  | Log_row string
  | Close
  | Detail detail_event

fun app_handle :: "browser \<Rightarrow> 'a ws_state_scheme \<Rightarrow> app_event \<Rightarrow> app_state \<Rightarrow> app_state" where
  "app_handle b d (Pick_view v) a = setViewMode b d v a"
| "app_handle b d (Graph e) a =
     (case view a of
        View_graph key st \<Rightarrow>
          (let (st', sel) = topo_handle (b_cos b) (b_sin b) e st
           in fold apply_selection sel (a\<lparr>view := View_graph key st'\<rparr>))
      | _ \<Rightarrow> a)"
| "app_handle b d (List_sort col) a =
     (case view a of View_list st \<Rightarrow> a\<lparr>view := View_list (handleSort col st)\<rparr> | _ \<Rightarrow> a)"
| "app_handle b d (List_filter mode) a =
     (case view a of View_list st \<Rightarrow> a\<lparr>view := View_list (setFilter mode st)\<rparr> | _ \<Rightarrow> a)"
| "app_handle b d (List_row key) a = handleSelectEdge (Some key) a"
| "app_handle b d (Matrix_cell key) a = handleSelectEdge (Some key) a"
| "app_handle b d (Log_row key) a = setSelected (Some key) a"
| "app_handle b d Close a = onClose a"
| "app_handle b d (Detail e) a = a\<lparr>detail := detail_handle (b_server b) e (detail a)\<rparr>"

text \<open>The elements that are on the page.\<close>

fun on_page :: "SnapshotMap \<Rightarrow> target \<Rightarrow> bool" where
  "on_page snaps (On_edge key) \<longleftrightarrow> key \<in> set (map snapKey (obj_values snaps))"
| "on_page snaps (On_node name) \<longleftrightarrow> name \<in> set (service_names snaps)"
| "on_page snaps On_background \<longleftrightarrow> obj_values snaps \<noteq> []"

fun on_graph :: "SnapshotMap \<Rightarrow> topo_event \<Rightarrow> bool" where
  "on_graph snaps (Click t) = on_page snaps t"
| "on_graph snaps (Mouse_down t x y) = on_page snaps t"
| "on_graph snaps (Services ns) = False"
| "on_graph snaps _ = True"

definition cells :: "matrix_view \<Rightarrow> cell list" where
  "cells m = List.map_filter id (concat (map snd (mv_rows m)))"

fun possible :: "browser \<Rightarrow> 'a ws_state_scheme \<Rightarrow> app_event \<Rightarrow> app_state \<Rightarrow> bool" where
  "possible b d (Pick_view v) a \<longleftrightarrow> True"
| "possible b d (Graph e) a \<longleftrightarrow> viewMode (view a) = V_graph \<and> on_graph (snapshots d) e"
| "possible b d (List_sort col) a \<longleftrightarrow> viewMode (view a) = V_list"
| "possible b d (List_filter mode) a \<longleftrightarrow> viewMode (view a) = V_list"
| "possible b d (List_row key) a \<longleftrightarrow>
     (case app_main b d a of Main_list l \<Rightarrow> key \<in> set (map lr_key (lv_rows l)) | _ \<Rightarrow> False)"
| "possible b d (Matrix_cell key) a \<longleftrightarrow>
     (case app_main b d a of Main_matrix m \<Rightarrow> key \<in> set (map ce_select (cells m)) | _ \<Rightarrow> False)"
| "possible b d (Log_row key) a \<longleftrightarrow> key \<in> set (map ev_key (events d))"
| "possible b d Close a \<longleftrightarrow> app_panel d a \<noteq> Show_empty"
| "possible b d (Detail (Props s)) a \<longleftrightarrow> False"
| "possible b d (Detail (Response i)) a \<longleftrightarrow> i < length (inflight (detail a))"
| "possible b d (Detail e) a \<longleftrightarrow> (case app_panel d a of Show_conn p \<Rightarrow> True | _ \<Rightarrow> False)"

inductive app_reach ::
  "browser \<Rightarrow> ('s \<Rightarrow> bool) \<Rightarrow> ('s \<Rightarrow> 's \<Rightarrow> bool) \<Rightarrow> ('s \<Rightarrow> ws_state) \<Rightarrow> 's \<Rightarrow> app_state \<Rightarrow> bool"
  for b start next_state publish where
  mounted: "start s \<Longrightarrow> app_reach b start next_state publish s (app_init b (publish s))"
| data: "app_reach b start next_state publish s a \<Longrightarrow> next_state s s' \<Longrightarrow>
    app_reach b start next_state publish s' (rerender b (publish s') a)"
| user: "app_reach b start next_state publish s a \<Longrightarrow> possible b (publish s) e a \<Longrightarrow>
    app_reach b start next_state publish s (rerender b (publish s) (app_handle b (publish s) e a))"

text \<open>The two sources.\<close>

definition mock_start :: "mock_hook \<Rightarrow> bool" where
  "mock_start h \<longleftrightarrow> (\<exists>e. valid_env e \<and> h = fst (run_state mock_init e))"

definition mock_next :: "mock_hook \<Rightarrow> mock_hook \<Rightarrow> bool" where
  "mock_next h h' \<longleftrightarrow> (\<exists>e. valid_env e \<and> fst (run_state (tick h) e) = Some h')"

section \<open>The contract of a data source\<close>

definition source_ok :: "'a ws_state_scheme \<Rightarrow> bool" where
  "source_ok d \<longleftrightarrow> keyed (snapshots d) \<and> wf_obj (services d) \<and> obj_all (\<lambda>k s. sv_name s = k) (services d) \<and>
     list_all wf_event (events d)"

text \<open>The invariant of the page over its data.\<close>

definition app_inv :: "'a ws_state_scheme \<Rightarrow> app_state \<Rightarrow> bool" where
  "app_inv d a \<longleftrightarrow> d_snap (detail a) = selectedSnap d a \<and> selectedKey a \<noteq> Some [] \<and>
     (case view a of View_graph key st \<Rightarrow> topo_inv st | _ \<Rightarrow> True)"

lemma truthy_simps [simp]: "truthy None = None" "truthy (Some []) = None" "k \<noteq> [] \<Longrightarrow> truthy (Some k) = Some k"
  by (simp_all add: truthy_def)

lemma d_snap_handlers [simp]:
  "d_snap (new_props s st) = s" "d_snap (handleRange r st) = d_snap st" "d_snap (handleLive st) = d_snap st"
  "d_snap (fetched server i st) = d_snap st"
  by (simp_all add: new_props_def handleRange_def handleLive_def fetched_def Let_def split: option.split)

lemma rerender_fields [simp]: "selectedKey (rerender b d a) = selectedKey a"
  "selectedNode (rerender b d a) = selectedNode a" "d_snap (detail (rerender b d a)) = selectedSnap d a"
  by (simp_all add: rerender_def)

lemma place_all_inv: "topo_inv st \<Longrightarrow> topo_inv (place_all fcos fsin ns st)"
  using topo_handle_inv [of st fcos fsin "Services ns"] by simp

lemma rerender_inv:
  assumes "selectedKey a \<noteq> Some []" "case view a of View_graph key st \<Rightarrow> topo_inv st | _ \<Rightarrow> True"
  shows "app_inv d (rerender b d a)"
  using assms by (auto simp: app_inv_def selectedSnap_def rerender_def place_all_inv split: view.splits)

fun nonempty_selection :: "selection \<Rightarrow> bool" where
  "nonempty_selection (Select k) \<longleftrightarrow> k \<noteq> Some []"
| "nonempty_selection (SelectNode n) \<longleftrightarrow> True"

lemma apply_selections_key:
  "list_all nonempty_selection sel \<Longrightarrow> selectedKey a \<noteq> Some [] \<Longrightarrow>
   selectedKey (fold apply_selection sel a) \<noteq> Some []"
proof (induction sel arbitrary: a)
  case (Cons x sel)
  then show ?case by (cases x) (simp_all add: handleSelectEdge_def handleSelectNode_def)
qed simp

lemma apply_selections_view [simp]: "view (fold apply_selection sel a) = view a"
proof (induction sel arbitrary: a)
  case (Cons x sel)
  then show ?case by (cases x) (simp_all add: handleSelectEdge_def handleSelectNode_def)
qed simp

lemma keys_nonempty [simp]: "[] \<noteq> connKey x y" "snapKey s \<noteq> []" "[] \<noteq> snapKey s"
  by (simp_all add: snapKey_def connKey_nonempty [THEN not_sym])

lemma topo_selections:
  "on_graph snaps e \<Longrightarrow> list_all nonempty_selection (snd (topo_handle fcos fsin e st))"
proof (cases e)
  case (Click t)
  then show "on_graph snaps e \<Longrightarrow> ?thesis" by (cases t) (auto simp: onSvgClick_def)
qed auto

lemma impossible_keys:
  "source_ok d \<Longrightarrow> \<not> possible b d (List_row []) a"
  "source_ok d \<Longrightarrow> \<not> possible b d (Matrix_cell []) a"
  "source_ok d \<Longrightarrow> \<not> possible b d (Log_row []) a"
proof -
  show "\<not> possible b d (List_row []) a"
    by (auto simp: app_main_def ConnectionListView_def list_row_def Let_def split: view.splits)
  show "\<not> possible b d (Matrix_cell []) a"
    by (auto simp: app_main_def HeatmapMatrixView_def cells_def cell_def Let_def List.map_filter_def
        split: view.splits option.splits)
  show "source_ok d \<Longrightarrow> \<not> possible b d (Log_row []) a"
    by (auto simp: source_ok_def wf_event_def list_all_iff)
qed

lemma app_handle_inv:
  assumes "source_ok d" "app_inv d a" "possible b d e a"
  shows "selectedKey (app_handle b d e a) \<noteq> Some []"
    and "case view (app_handle b d e a) of View_graph key st \<Rightarrow> topo_inv st | _ \<Rightarrow> True"
proof -
  have a: "selectedKey a \<noteq> Some []" "case view a of View_graph key st \<Rightarrow> topo_inv st | _ \<Rightarrow> True"
    using assms(2) by (auto simp: app_inv_def)
  have m: "case mount_view b d v of View_graph key st \<Rightarrow> topo_inv st | _ \<Rightarrow> True" for v
    by (cases v) (simp_all add: place_all_inv topo_init_inv)
  note hs = setViewMode_def handleSelectEdge_def setSelected_def onClose_def
  show "selectedKey (app_handle b d e a) \<noteq> Some []"
  proof (cases e)
    case (Graph g)
    then have "on_graph (snapshots d) g" using assms(3) by simp
    from topo_selections [OF this] Graph a show ?thesis
      by (auto simp: case_prod_beta Let_def apply_selections_key split: view.splits)
  qed (use a assms(3) impossible_keys [OF assms(1)] in
      \<open>auto simp: hs simp del: possible.simps split: view.splits\<close>)
  show "case view (app_handle b d e a) of View_graph key st \<Rightarrow> topo_inv st | _ \<Rightarrow> True"
  proof (cases e)
    case (Graph g)
    then show ?thesis using a(2) topo_handle_inv
      by (auto simp: case_prod_beta Let_def split: view.splits)
  qed (use a(2) m in \<open>auto simp: hs split: view.splits\<close>)
qed

locale data_source =
  fixes start :: "'s \<Rightarrow> bool"
    and next_state :: "'s \<Rightarrow> 's \<Rightarrow> bool"
    and publish :: "'s \<Rightarrow> ws_state"
    and inv :: "'s \<Rightarrow> bool"
  assumes start_inv: "start s \<Longrightarrow> inv s"
    and next_inv: "inv s \<Longrightarrow> next_state s s' \<Longrightarrow> inv s'"
    and published: "inv s \<Longrightarrow> source_ok (publish s)"
begin

lemma reach_inv:
  assumes "app_reach b start next_state publish s a"
  shows "inv s \<and> app_inv (publish s) a"
  using assms
proof (induction rule: app_reach.induct)
  case (mounted s)
  then show ?case
    by (simp add: start_inv app_inv_def app_init_def selectedSnap_def detail_init_def place_all_inv topo_init_inv)
next
  case (data s a s')
  then show ?case using rerender_inv by (auto simp: next_inv app_inv_def)
next
  case (user s a e)
  then show ?case using app_handle_inv published by (blast intro: rerender_inv)
qed

end

section \<open>What is highlighted is what the panel shows\<close>

text \<open>The keys of the highlighted edges, rows or cells.\<close>

fun highlighted :: "main_view \<Rightarrow> string list" where
  "highlighted (Main_graph None) = []"
| "highlighted (Main_graph (Some (es, ns))) = map eg_key (filter eg_selected es)"
| "highlighted (Main_list l) = map lr_key (filter lr_selected (lv_rows l))"
| "highlighted (Main_matrix m) = map ce_select (filter (\<lambda>c. ce_boxShadow c \<noteq> None) (cells m))"

text \<open>Whether the view shows a connection: the list may filter it out.\<close>

fun shown_in :: "view \<Rightarrow> StatSnapshot \<Rightarrow> bool" where
  "shown_in (View_list st) snap \<longleftrightarrow> keeps (filterMode st) snap"
| "shown_in _ snap \<longleftrightarrow> True"

lemma keyed_snapKeys: "keyed m \<Longrightarrow> map snapKey (obj_values m) = obj_keys m"
  unfolding keyed_def obj_values_def obj_keys_def obj_all_def by (induction m) (auto simp: wf_obj_def)

lemma filter_unique_key: "distinct (map f xs) \<Longrightarrow> x \<in> set xs \<Longrightarrow> filter (\<lambda>y. f y = f x) xs = [x]"
proof (induction xs)
  case (Cons y ys)
  then show ?case
  proof (cases "x = y")
    case True
    then have "filter (\<lambda>z. f z = f x) ys = []" using Cons.prems(1)
      by (simp add: filter_empty_conv image_iff) metis
    then show ?thesis using True by simp
  qed auto
qed simp

lemma concat_single: "distinct xs \<Longrightarrow> x \<in> set xs \<Longrightarrow> (\<And>y. y \<in> set xs \<Longrightarrow> y \<noteq> x \<Longrightarrow> f y = []) \<Longrightarrow>
    concat (map f xs) = f x"
proof (induction xs)
  case (Cons y ys)
  then show ?case by (cases "x = y") auto
qed simp

lemma keyed_one:
  assumes "keyed m" "obj_get m k = Some s"
  shows "filter (\<lambda>x. snapKey x = k) (obj_values m) = [s]" and "snapKey s = k" and "s \<in> set (obj_values m)"
proof -
  have d: "distinct (map snapKey (obj_values m))"
    using assms(1) js_obj.invar_keys [of m] by (simp add: keyed_snapKeys keyed_def)
  show v: "s \<in> set (obj_values m)" using assms js_obj.vals_get [of m s] by (auto simp: keyed_def)
  show k: "snapKey s = k" using obj_all_get [OF _ assms(2)] assms(1) by (fastforce simp: keyed_def)
  show "filter (\<lambda>x. snapKey x = k) (obj_values m) = [s]" using filter_unique_key [OF d v] k by simp
qed

lemma graph_highlight:
  assumes "keyed m" "obj_get m k = Some s"
  shows "highlighted (Main_graph (TopoGraph fsqrt m svcs (Some k) node st)) = [k]"
proof -
  have ne: "obj_values m \<noteq> []" using keyed_one(3) [OF assms] by auto
  have eq: "filter eg_selected (map (edge_view fsqrt m (Some k) st) (obj_values m)) =
      map (edge_view fsqrt m (Some k) st) (filter (\<lambda>x. snapKey x = k) (obj_values m))"
    by (simp add: filter_map comp_def edge_view_def Let_def eq_commute [of k])
  show ?thesis using ne keyed_one [OF assms] by (simp add: TopoGraph_def eq) (simp add: edge_view_def Let_def)
qed

lemma list_highlight_rows:
  "highlighted (Main_list (ConnectionListView lc st m (Some k))) =
     map snapKey (filter (\<lambda>x. snapKey x = k) (filtered lc st m))"
  by (simp add: ConnectionListView_def Let_def filter_map comp_def list_row_def eq_commute [of k])

lemma list_highlight:
  assumes "keyed m" "obj_get m k = Some s"
  shows "highlighted (Main_list (ConnectionListView lc st m (Some k))) = (if keeps (filterMode st) s then [k] else [])"
proof -
  have "mset (filter (\<lambda>x. snapKey x = k) (filtered lc st m)) =
      mset (filter (keeps (filterMode st)) (filter (\<lambda>x. snapKey x = k) (obj_values m)))"
    by (simp add: filtered_def filter_filter_mset) (meson conj_commute)
  also have "\<dots> = mset (filter (keeps (filterMode st)) [s])" by (simp only: keyed_one(1) [OF assms])
  finally have "filter (\<lambda>x. snapKey x = k) (filtered lc st m) = filter (keeps (filterMode st)) [s]"
    by (cases "keeps (filterMode st) s") (simp_all del: mset_filter)
  then show ?thesis using keyed_one(2) [OF assms] by (simp only: list_highlight_rows filter.simps list.map split: if_split) simp
qed

lemma concat_map_concat: "concat (map f (concat xss)) = concat (map (\<lambda>xs. concat (map f xs)) xss)"
  by (induction xss) auto

lemma highlighted_cells:
  "map ce_select (filter (\<lambda>c. ce_boxShadow c \<noteq> None) (List.map_filter id xs)) =
     concat (map (\<lambda>c. case c of None \<Rightarrow> [] | Some c \<Rightarrow> if ce_boxShadow c \<noteq> None then [ce_select c] else []) xs)"
  by (induction xs) (auto split: option.split)

lemma matrix_highlight_cells:
  assumes "keyed m" "obj_get m k = Some s"
  shows "highlighted (Main_matrix (HeatmapMatrixView m svcs (Some k))) =
    concat (map (\<lambda>src. concat (map (\<lambda>dst. if connKey src dst = k then [k] else []) (dsts m))) (srcs m))"
proof -
  have g: "(case cell m (Some k) src dst of None \<Rightarrow> []
      | Some c \<Rightarrow> if ce_boxShadow c \<noteq> None then [ce_select c] else []) = (if connKey src dst = k then [k] else [])"
    for src dst
    using assms(2) by (auto simp: cell_def Let_def snapMap_id [OF assms(1)] split: option.split)
  show ?thesis
    by (simp only: highlighted.simps HeatmapMatrixView_def cells_def highlighted_cells concat_map_concat
        matrix_view.simps map_map comp_def snd_conv g)
qed

lemma matrix_highlight_set:
  assumes "keyed m" "obj_get m k = Some s"
  shows "set (highlighted (Main_matrix (HeatmapMatrixView m svcs (Some k)))) = {k}"
proof -
  note one = keyed_one [OF assms]
  have "src_service s \<in> set (srcs m)" "dst_service s \<in> set (dsts m)" "connKey (src_service s) (dst_service s) = k"
    using one(2,3) by (simp_all add: srcs_def dsts_def snapKey_def)
  then show ?thesis unfolding matrix_highlight_cells [OF assms] by force
qed

lemma matrix_highlight:
  assumes "keyed m" "plain_names m" "obj_get m k = Some s"
  shows "highlighted (Main_matrix (HeatmapMatrixView m svcs (Some k))) = [k]"
proof -
  let ?g = "\<lambda>src dst. if connKey src dst = k then [k] else []"
  note one = keyed_one [OF assms(1,3)]
  have "concat (map (\<lambda>src. concat (map (?g src) (dsts m))) (srcs m)) = concat (map (?g (src_service s)) (dsts m))"
  proof (rule concat_single)
    fix src assume "src \<in> set (srcs m)" "src \<noteq> src_service s"
    then show "concat (map (?g src) (dsts m)) = []"
      using one(2,3) assms(2) by (auto simp: snapKey_def connKey_inj srcs_def plain_names_def list_all_iff)
  qed (use one(3) in \<open>simp_all add: srcs_def sort_strings_sorted\<close>)
  also have "\<dots> = ?g (src_service s) (dst_service s)"
  proof (rule concat_single)
    fix dst assume "dst \<in> set (dsts m)" "dst \<noteq> dst_service s"
    then show "?g (src_service s) dst = []" using one(2) by (auto simp: snapKey_def connKey_def)
  qed (use one(3) in \<open>simp_all add: dsts_def sort_strings_sorted\<close>)
  also have "\<dots> = [k]" using one(2) by (simp add: snapKey_def)
  finally show ?thesis by (simp only: matrix_highlight_cells [OF assms(1,3)])
qed

text \<open>What is highlighted while a connection that exists is selected.\<close>

lemma main_highlight:
  assumes "keyed (snapshots d)" "selectedKey a = Some k" "obj_get (snapshots d) k = Some snap"
  shows "set (highlighted (app_main b d a)) = (if shown_in (view a) snap then {k} else {})"
    and "plain_names (snapshots d) \<Longrightarrow> highlighted (app_main b d a) = (if shown_in (view a) snap then [k] else [])"
proof -
  show "set (highlighted (app_main b d a)) = (if shown_in (view a) snap then {k} else {})"
    using graph_highlight [OF assms(1,3)] list_highlight [OF assms(1,3)] matrix_highlight_set [OF assms(1,3)]
    by (cases "view a") (simp_all add: app_main_def assms(2) del: highlighted.simps)
  show "plain_names (snapshots d) \<Longrightarrow> highlighted (app_main b d a) = (if shown_in (view a) snap then [k] else [])"
    using graph_highlight [OF assms(1,3)] list_highlight [OF assms(1,3)] matrix_highlight [OF assms(1) _ assms(3)]
    by (cases "view a") (simp_all add: app_main_def assms(2) del: highlighted.simps)
qed

lemma panel_selection:
  assumes "source_ok d" "app_inv d a" "app_panel d a = Show_conn p"
  obtains snap where "selectedKey a = Some (connKey (cp_src p) (cp_dst p))"
    "obj_get (snapshots d) (connKey (cp_src p) (cp_dst p)) = Some snap"
    "p = conn_panel (detail a) snap (selectedHist d a)"
proof -
  have ky: "keyed (snapshots d)" using assms(1) by (simp add: source_ok_def)
  obtain snap where s: "selectedSnap d a = Some snap" and p: "p = conn_panel (detail a) snap (selectedHist d a)"
    using assms(2,3) by (auto simp: app_panel_def DetailPanel_def app_inv_def split: if_splits option.splits)
  then obtain k where k: "selectedKey a = Some k" "k \<noteq> []" and g: "obj_get (snapshots d) k = Some snap"
    by (auto simp: selectedSnap_def truthy_def split: option.splits if_splits)
  have "k = connKey (cp_src p) (cp_dst p)"
    using keyed_one(2) [OF ky g] by (simp add: p conn_panel_def snapKey_def)
  with that k(1) g p show thesis by blast
qed

context data_source
begin

lemma selection_shown:
  assumes "app_reach b start next_state publish s a" "app_panel (publish s) a = Show_conn p"
    and "k = connKey (cp_src p) (cp_dst p)"
  shows "\<exists>snap. selectedKey a = Some k \<and> obj_get (snapshots (publish s)) k = Some snap \<and>
    p = conn_panel (detail a) snap (selectedHist (publish s) a) \<and>
    set (highlighted (app_main b (publish s) a)) = (if shown_in (view a) snap then {k} else {}) \<and>
    (plain_names (snapshots (publish s)) \<longrightarrow>
      highlighted (app_main b (publish s) a) = (if shown_in (view a) snap then [k] else []))"
proof -
  have ok: "source_ok (publish s)" "app_inv (publish s) a" using reach_inv [OF assms(1)] published by auto
  then have ky: "keyed (snapshots (publish s))" by (simp add: source_ok_def)
  from panel_selection [OF ok assms(2)] obtain snap where
    "selectedKey a = Some k" "obj_get (snapshots (publish s)) k = Some snap"
    "p = conn_panel (detail a) snap (selectedHist (publish s) a)" unfolding assms(3) by metis
  with main_highlight [OF ky this(1,2), of b] show ?thesis by metis
qed

text \<open>The invariant of the graph holds whatever the user does on the page.\<close>

lemma graph_on_canvas:
  assumes "app_reach b start next_state publish s a" "view a = View_graph key st"
  shows "topo_inv st"
  using reach_inv [OF assms(1)] assms(2) by (simp add: app_inv_def)

end

section \<open>The two hooks are data sources\<close>

declare truncate_fields [simp]

lemma wf_ws_step:
  assumes "wf_ws h" "ws_step h h'" shows "wf_ws h'"
proof -
  obtain e where "ws_trans h e h'" using assms(2) unfolding ws_step_def by blast
  then show ?thesis
  proof cases
    case (received i t d)
    then show ?thesis using wf_ws_onmessage [OF assms(1), of "(t, d)"] by simp
  qed (use assms(1) in \<open>simp_all add: wf_ws_def onopen_def onclose_def set_status_def timer_fires_def
      connect_def unmount_def Let_def split: option.split\<close>)
qed

lemma wf_ws_source: "wf_ws h \<Longrightarrow> source_ok (ws_state.truncate h)"
  by (auto simp: wf_ws_def source_ok_def keyed_def wf_service_def obj_all_def list_all_iff)

interpretation live_source: data_source "\<lambda>h. h = ws_mount" ws_step ws_state.truncate wf_ws
proof unfold_locales
  show "h = ws_mount \<Longrightarrow> wf_ws h" for h
    using wf_ws_init by (simp add: wf_ws_def ws_mount_def connect_def ws_state.defs)
qed (fact wf_ws_step wf_ws_source)+

interpretation mock_source: data_source mock_start mock_next ws_state.truncate mock_inv
proof unfold_locales
  show "mock_start h \<Longrightarrow> mock_inv h" for h
    using yieldsD [OF yields_mock_init] by (auto simp: mock_start_def)
  show "mock_inv h \<Longrightarrow> mock_next h h' \<Longrightarrow> mock_inv h'" for h h'
    using yieldsD [OF yields_tick] by (fastforce simp: mock_next_def)
  show "mock_inv h \<Longrightarrow> source_ok (ws_state.truncate h)" for h
    by (auto simp: mock_inv_def source_ok_def keyed_def obj_all_def list_all_iff)
qed

text \<open>
  C4: In every reachable state of the live dashboard, under any interleaving of socket events
  and user actions, a connection panel on the page belongs to the selection and is up to date: it
  shows the snapshot stored now under the selected key. The main view highlights that
  connection and no other, unless it is the list with a filter that leaves the connection out,
  which highlights nothing; when no source name contains the arrow it is exactly one element
  (one edge of the graph, one row of the table or one cell of the matrix).
\<close>

theorem live_selection_shown:
  assumes "app_reach b (\<lambda>h. h = ws_mount) ws_step ws_state.truncate h a"
    and "av_panel (App b tz now up h a) = Show_conn p" "k = connKey (cp_src p) (cp_dst p)"
  shows "\<exists>snap. selectedKey a = Some k \<and> obj_get (snapshots h) k = Some snap \<and>
    p = conn_panel (detail a) snap (selectedHist h a) \<and>
    set (highlighted (av_main (App b tz now up h a))) = (if shown_in (view a) snap then {k} else {}) \<and>
    (plain_names (snapshots h) \<longrightarrow>
      highlighted (av_main (App b tz now up h a)) = (if shown_in (view a) snap then [k] else []))"
proof -
  have t: "selectedHist (ws_state.truncate h) a = selectedHist h a"
    "app_main b (ws_state.truncate h) a = app_main b h a"
    "app_panel (ws_state.truncate h) a = app_panel h a"
    by (simp_all only: selectedHist_def app_main_def app_panel_def nodeService_def truncate_fields)
  have v: "av_panel (App b tz now up h a) = app_panel h a" "av_main (App b tz now up h a) = app_main b h a"
    by (simp_all add: App_def)
  show ?thesis using live_source.selection_shown [OF assms(1), of p] assms(2,3)
    unfolding v t truncate_fields by blast
qed

text \<open>
  C33: At most one of a connection and a service is selected, except after one action: a click
  in the spike log while a service is selected. Such a click selects the connection but keeps
  the panel of the service on the screen.
\<close>

theorem selection_exclusive:
  assumes "selectedKey a = None \<or> selectedNode a = None" "a' = rerender b d (app_handle b d e a)"
  shows "(selectedKey a' = None \<or> selectedNode a' = None \<longleftrightarrow> \<not> (\<exists>k. e = Log_row k \<and> selectedNode a \<noteq> None)) \<and>
    (\<forall>k n. e = Log_row k \<and> selectedNode a = Some n \<and> n \<noteq> [] \<longrightarrow>
      selectedKey a' = Some k \<and> app_panel d a' = Show_node (NodePanel n (obj_get (services d) n)))"
proof -
  have sel: "selectedKey (fold apply_selection xs x) = None \<or> selectedNode (fold apply_selection xs x) = None"
    if "selectedKey x = None \<or> selectedNode x = None" for xs x
    using that
  proof (induction xs arbitrary: x)
    case (Cons y ys)
    show ?case by (cases y) (simp_all add: handleSelectEdge_def handleSelectNode_def Cons.IH)
  qed simp
  show ?thesis
  proof (cases e)
    case (Graph g)
    then show ?thesis using assms sel by (auto simp: case_prod_beta Let_def split: view.split)
  next
    case (Log_row k)
    then show ?thesis using assms
      by (auto simp: setSelected_def app_panel_def DetailPanel_def nodeService_def)
  qed (use assms in \<open>auto simp: setViewMode_def handleSelectEdge_def onClose_def split: view.split\<close>)
qed

text \<open>A concrete page: one stats message, the list view, a click on its row.\<close>

definition plain_browser :: browser where
  "plain_browser = \<lparr>b_cos = \<lambda>x. 0, b_sin = \<lambda>x. 0, b_sqrt = \<lambda>x. 1, b_localeCompare = str_cmp, b_server = \<lambda>rq. None\<rparr>"

definition one_conn_hook :: ws_hook where
  "one_conn_hook = (let (t, m) = stats_msg 10 (sample_snap False 9) in onmessage t m (onopen 0 ws_mount))"

lemma rerender_mode [simp]: "viewMode (view (rerender b d a)) = viewMode (view a)"
  by (simp add: rerender_def split: view.split)

lemma one_conn_snapshots: "snapshots one_conn_hook = [(connKey ''web'' ''db'', sample_snap False 9)]"
  by (simp add: one_conn_hook_def stats_msg_def empty_msg_def onmessage_def on_stats_def set_snapshot_def push_point_def
      rising_def snapKey_def onopen_def set_status_def ws_mount_def connect_def ws_init_def ws_state.defs obj_get_def obj_put_def Let_def)

lemma one_conn_reach:
  "\<exists>a. app_reach plain_browser (\<lambda>h. h = ws_mount) ws_step ws_state.truncate one_conn_hook a \<and>
     selectedKey a = Some (connKey ''web'' ''db'') \<and> selectedNode a = None \<and> view a = View_list list_init \<and>
     d_snap (detail a) = Some (sample_snap False 9)"
proof -
  let ?R = "app_reach plain_browser (\<lambda>h. h = ws_mount) ws_step ws_state.truncate"
  let ?d = "ws_state.truncate one_conn_hook"
  have "ws_step ws_mount (onopen 0 ws_mount)"
    by (rule ws_step_trans [OF ws_trans.opened]) (simp_all add: mount_socket)
  moreover have "ws_step (onopen 0 ws_mount) one_conn_hook"
    unfolding one_conn_hook_def case_prod_beta Let_def
    by (rule ws_step_trans [OF ws_trans.received [of 0]]) (simp_all add: onopen_def set_status_def mount_socket)
  moreover define a where "a = rerender plain_browser ?d
      (rerender plain_browser (ws_state.truncate (onopen 0 ws_mount)) (app_init plain_browser (ws_state.truncate ws_mount)))"
  moreover have "?R ws_mount (app_init plain_browser (ws_state.truncate ws_mount))" by (rule app_reach.mounted) simp
  ultimately have a: "?R one_conn_hook a" by (metis app_reach.data)
  have g: "viewMode (view a) = V_graph" by (simp add: a_def app_init_def)
  define a1 where "a1 = rerender plain_browser ?d (app_handle plain_browser ?d (Pick_view V_list) a)"
  have 1: "?R one_conn_hook a1" unfolding a1_def by (rule app_reach.user [OF a]) simp
  have v: "view a1 = View_list list_init" using g by (simp add: a1_def rerender_def setViewMode_def)
  define a2 where "a2 = rerender plain_browser ?d (app_handle plain_browser ?d (List_row (connKey ''web'' ''db'')) a1)"
  have "?R one_conn_hook a2" unfolding a2_def
    by (rule app_reach.user [OF 1])
      (simp add: app_main_def v ConnectionListView_def Let_def one_conn_snapshots filtered_def list_init_def
        obj_values_def js_sort_def list_row_def snapKey_def)
  moreover have "view a2 = View_list list_init"
    using v by (simp add: a2_def rerender_def handleSelectEdge_def)
  moreover have "selectedSnap ?d a2 = Some (sample_snap False 9)"
    by (simp add: a2_def handleSelectEdge_def selectedSnap_def one_conn_snapshots obj_get_def)
  moreover have "d_snap (detail a2) = selectedSnap ?d a2"
    unfolding a2_def by (simp add: selectedSnap_def)
  ultimately show ?thesis by (auto simp: a2_def handleSelectEdge_def intro!: exI [of _ a2])
qed

theorem live_selection_shown_witness:
  "\<exists>a. highlighted (av_main (App plain_browser 0 0 True one_conn_hook a)) = [connKey ''web'' ''db''] \<and>
     selectedKey a = Some (connKey ''web'' ''db'')"
proof -
  obtain a where a: "app_reach plain_browser (\<lambda>h. h = ws_mount) ws_step ws_state.truncate one_conn_hook a"
    "selectedKey a = Some (connKey ''web'' ''db'')" "selectedNode a = None" "view a = View_list list_init"
    "d_snap (detail a) = Some (sample_snap False 9)" using one_conn_reach by blast
  let ?p = "conn_panel (detail a) (sample_snap False 9) (selectedHist one_conn_hook a)"
  have p: "av_panel (App plain_browser 0 0 True one_conn_hook a) = Show_conn ?p"
    by (simp add: App_def app_panel_def DetailPanel_def a)
  have k: "connKey ''web'' ''db'' = connKey (cp_src ?p) (cp_dst ?p)" by (simp add: conn_panel_def)
  have "plain_names (snapshots one_conn_hook)"
    by (simp add: plain_names_def one_conn_snapshots obj_values_def no_arrow_ascii)
  moreover have "shown_in (view a) x" for x by (simp add: a list_init_def)
  ultimately have "highlighted (av_main (App plain_browser 0 0 True one_conn_hook a)) = [connKey ''web'' ''db'']"
    using live_selection_shown [OF a(1) p k] by auto
  with a(2) show ?thesis by blast
qed

theorem selection_exclusive_witness:
  "app_panel ws_init (rerender plain_browser ws_init (app_handle plain_browser ws_init (Log_row ''k'')
     (handleSelectNode (Some ''db'') (app_init plain_browser ws_init)))) = Show_node (NodePanel ''db'' None)"
  using selection_exclusive [of "handleSelectNode (Some ''db'') (app_init plain_browser ws_init)" _ plain_browser ws_init
      "Log_row ''k''"]
  by (simp add: handleSelectNode_def ws_init_def)

end
