(* ===== verification/ChartShared.thy ===== *)
theory ChartShared
  imports Format
begin

text \<open>
  \<open>components/chartShared.ts\<close>: zooming and panning of the x axis, the rule that new data
  keeps a zoomed view and otherwise follows, and the labels of the time axis.

  The plotting library is outside the sources. Its operations are the fields of the record
  \<open>uplot\<close>, an argument of the definitions; what the code relies on is \<open>uplot_ok\<close>: setting
  the x scale sets it and keeps the data, setting data sets it and either keeps the x scale
  or fits it to the data; a scale of NaN, whatever the library makes of it, keeps the data too.
  The library calls the plugin's \<open>setScale\<close> hook whenever the x scale
  is set, which is how \<open>userZoomed\<close> changes. Local calendar functions are arguments too.
\<close>

section \<open>The library\<close>

record 'p uplot =
  u_xs :: "'p \<Rightarrow> number list"
  u_xmin :: "'p \<Rightarrow> number"
  u_xmax :: "'p \<Rightarrow> number"
  u_setScale :: "number \<Rightarrow> number \<Rightarrow> 'p \<Rightarrow> 'p"
  u_setNaN :: "'p \<Rightarrow> 'p \<times> bool"
  u_setData :: "bool \<Rightarrow> number list list \<Rightarrow> 'p \<Rightarrow> 'p"

section \<open>Bounds\<close>

definition MIN_ZOOM_SEC :: number where
  "MIN_ZOOM_SEC = 10"

definition clamp :: "number \<Rightarrow> number \<Rightarrow> number \<Rightarrow> number" where
  "clamp v lo hi = max lo (min hi v)"

record bounds =
  b_min :: number
  b_max :: number

definition bounds_of :: "number list \<Rightarrow> bounds" where
  "bounds_of xs =
     (if xs = [] then \<lparr>b_min = 0, b_max = 1\<rparr>
      else let mn = hd xs; mx = last xs
           in if mx > mn then \<lparr>b_min = mn, b_max = mx\<rparr> else \<lparr>b_min = mn, b_max = fadd mn 1\<rparr>)"

definition dataBounds :: "'p uplot \<Rightarrow> 'p \<Rightarrow> bounds" where
  "dataBounds api u = bounds_of (u_xs api u)"

definition isFullRange :: "'p uplot \<Rightarrow> 'p \<Rightarrow> bool" where
  "isFullRange api u =
     (let b = dataBounds api u; full = fsub (b_max b) (b_min b); cur = fsub (u_xmax api u) (u_xmin api u)
      in cur \<ge> fsub full (fmul full (fl (1/1000))))"

section \<open>The plugin\<close>

text \<open>A chart is the plot with the \<open>PanZoomState\<close> that the plugin keeps for it.\<close>

record 'p chart =
  plot :: 'p
  userZoomed :: bool

text \<open>\<open>u.setScale('x', ...)\<close> and the hook it triggers.\<close>

definition setScaleX :: "'p uplot \<Rightarrow> number \<Rightarrow> number \<Rightarrow> 'p chart \<Rightarrow> 'p chart" where
  "setScaleX api mn mx c =
     (let u = u_setScale api mn mx (plot c) in \<lparr>plot = u, userZoomed = \<not> isFullRange api u\<rparr>)"

text \<open>
  The same call when both ends are NaN: the library's plot after it, and whether the plugin then
  takes the view as zoomed, are the library's own.
\<close>

definition setScaleX_NaN :: "'p uplot \<Rightarrow> 'p chart \<Rightarrow> 'p chart" where
  "setScaleX_NaN api c = (let (u, z) = u_setNaN api (plot c) in \<lparr>plot = u, userZoomed = z\<rparr>)"

text \<open>
  A mouse event and the rectangle of the plotting area. A wheel event is sent to the element
  under the pointer, so the area then has a positive width. The pan listens on the window: while
  the area has no width, its quotient is infinite or NaN.
\<close>

record mouse =
  clientX :: number
  over_left :: number
  over_width :: number

definition wheel_range :: "bounds \<Rightarrow> number \<Rightarrow> number \<Rightarrow> mouse \<Rightarrow> number \<Rightarrow> number \<times> number" where
  "wheel_range b curXMin curXMax m deltaY =
     (let fullRange = fsub (b_max b) (b_min b);
          mouseRatio = fdiv (fsub (clientX m) (over_left m)) (over_width m);
          factor = (if deltaY > 0 then 5/4 else fl (8/10));
          curRange = fsub curXMax curXMin;
          minRange = min MIN_ZOOM_SEC fullRange;
          newRange = clamp (fmul curRange factor) minRange fullRange;
          anchor = fadd curXMin (fmul mouseRatio curRange);
          newXMin = clamp (fsub anchor (fmul mouseRatio newRange)) (b_min b) (fsub (b_max b) newRange)
      in (newXMin, newRange))"

definition onwheel :: "'p uplot \<Rightarrow> mouse \<Rightarrow> number \<Rightarrow> 'p chart \<Rightarrow> 'p chart" where
  "onwheel api m deltaY c =
     (let u = plot c; (newXMin, newRange) = wheel_range (dataBounds api u) (u_xmin api u) (u_xmax api u) m deltaY
      in setScaleX api newXMin (fadd newXMin newRange) c)"

record drag =
  dragging :: bool
  dragStartX :: number
  dragStartXMin :: number
  dragStartXMax :: number

definition onmousedown :: "'p uplot \<Rightarrow> nat \<Rightarrow> mouse \<Rightarrow> 'p chart \<Rightarrow> drag \<Rightarrow> drag" where
  "onmousedown api button m c d =
     (if button \<noteq> 0 then d
      else \<lparr>dragging = True, dragStartX = clientX m, dragStartXMin = u_xmin api (plot c),
            dragStartXMax = u_xmax api (plot c)\<rparr>)"

definition pan_range :: "bounds \<Rightarrow> drag \<Rightarrow> mouse \<Rightarrow> number option \<times> number" where
  "pan_range b d m =
     (let dx = fsub (clientX m) (dragStartX d);
          range = fsub (dragStartXMax d) (dragStartXMin d);
          shift = xmul (xneg (xdiv dx (over_width m))) range;
          newXMin = xclamp (xadd (dragStartXMin d) shift) (b_min b) (fsub (b_max b) range)
      in (newXMin, range))"

definition onmousemove :: "'p uplot \<Rightarrow> drag \<Rightarrow> mouse \<Rightarrow> 'p chart \<Rightarrow> 'p chart" where
  "onmousemove api d m c =
     (if \<not> dragging d then c
      else case pan_range (dataBounds api (plot c)) d m of
          (None, w) \<Rightarrow> setScaleX_NaN api c
        | (Some newXMin, w) \<Rightarrow> setScaleX api newXMin (fadd newXMin w) c)"

definition onmouseup :: "drag \<Rightarrow> drag" where
  "onmouseup d = (if \<not> dragging d then d else d\<lparr>dragging := False\<rparr>)"

section \<open>New data\<close>

definition applyData :: "'p uplot \<Rightarrow> number list list \<Rightarrow> 'p chart \<Rightarrow> 'p chart" where
  "applyData api d c =
     (if userZoomed c then
        (let xMin = u_xmin api (plot c); xMax = u_xmax api (plot c)
         in setScaleX api xMin xMax (c\<lparr>plot := u_setData api False d (plot c)\<rparr>))
      else
        (let u = u_setData api True d (plot c) in \<lparr>plot = u, userZoomed = \<not> isFullRange api u\<rparr>))"

section \<open>The time axis\<close>

text \<open>
  The local calendar: \<open>hhmm\<close> is the two-digit hour and minute of an instant in milliseconds,
  \<open>month_day\<close> its zero-based month and its day.
\<close>

definition timeAxisValues ::
  "(number \<Rightarrow> string) \<Rightarrow> (number \<Rightarrow> nat \<times> nat) \<Rightarrow> number option \<Rightarrow> number option \<Rightarrow> number option list \<Rightarrow> string list" where
  "timeAxisValues hhmm_of month_day xmin xmax splits =
     (let spanSec = fsub (nullish xmax 0) (nullish xmin 0);
          wideRange = (spanSec \<ge> 2 * 86400)
      in map (\<lambda>s. case s of None \<Rightarrow> []
           | Some s \<Rightarrow>
               (let d = fmul s 1000; hhmm = hhmm_of d;
                    md = show_nat (fst (month_day d) + 1) @ ''/'' @ show_nat (snd (month_day d))
                in if wideRange then md @ [CHR 0x0A] @ (if hhmm = ''00:00'' then [] else hhmm)
                   else hhmm @ [CHR 0x0A] @ md)) splits)"

record axis_base =
  ax_stroke :: string
  ax_ticks :: "string \<times> nat"
  ax_grid :: "string \<times> nat"
  ax_font :: string

definition axisBase :: axis_base where
  "axisBase = \<lparr>ax_stroke = ''#94a3b8'', ax_ticks = (''#e2e8f0'', 1), ax_grid = (''#f1f5f9'', 1),
     ax_font = ''9px JetBrains Mono, monospace''\<rparr>"

section \<open>What the library documents\<close>

definition uplot_ok :: "'p uplot \<Rightarrow> bool" where
  "uplot_ok api \<longleftrightarrow>
     (\<forall>u a b. u_xs api (u_setScale api a b u) = u_xs api u \<and>
        u_xmin api (u_setScale api a b u) = a \<and> u_xmax api (u_setScale api a b u) = b) \<and>
     (\<forall>u. u_xs api (fst (u_setNaN api u)) = u_xs api u) \<and>
     (\<forall>u r d. d \<noteq> [] \<longrightarrow> u_xs api (u_setData api r d u) = hd d) \<and>
     (\<forall>u d. u_xmin api (u_setData api False d u) = u_xmin api u \<and>
        u_xmax api (u_setData api False d u) = u_xmax api u) \<and>
     (\<forall>u d. d \<noteq> [] \<and> hd d \<noteq> [] \<and> hd (hd d) < last (hd d) \<longrightarrow>
        u_xmin api (u_setData api True d u) = hd (hd d) \<and> u_xmax api (u_setData api True d u) = last (hd d))"

section \<open>Lemmas\<close>

lemma clamp_bounds: "lo \<le> clamp v lo hi" "clamp v lo hi \<le> max lo hi" "lo \<le> hi \<Longrightarrow> clamp v lo hi \<le> hi"
  by (auto simp: clamp_def)

lemma bounds_of_less:
  assumes "xs = [] \<or> \<bar>hd xs\<bar> < 2 powi 52"
  shows "b_min (bounds_of xs) < b_max (bounds_of xs)"
proof (cases "xs = []")
  case False
  with assms have h: "\<bar>hd xs\<bar> < 2 powi 52" by simp
  have "\<bar>hd xs + 1\<bar> < 2 powi 53" using h by (simp add: power_int_def)
  then have "\<bar>fl (hd xs + 1) - (hd xs + 1)\<bar> \<le> 2 powi (53 - 54)" by (rule fl_abs_error) simp
  also have "(2::rat) powi (53 - 54) = 1/2" by simp
  finally have "hd xs < fadd (hd xs) 1" unfolding fadd_def by linarith
  then show ?thesis using False by (simp add: bounds_of_def Let_def)
qed (simp add: bounds_of_def)

text \<open>
  Rounding an epoch time (below \<open>2^33\<close> seconds) costs at most \<open>2^-21\<close> seconds, and two such
  roundings less than \<open>2^-19\<close>, two microseconds.
\<close>

lemma epoch_error:
  assumes "0 \<le> x" "x < 2 ^ 34"
  shows "\<bar>fl x - x\<bar> \<le> 1 / 2 ^ 20" "x < 2 ^ 33 \<Longrightarrow> \<bar>fl x - x\<bar> \<le> 1 / 2 ^ 21"
proof -
  have "\<bar>fl x - x\<bar> \<le> 2 powi (34 - 54)" using assms by (intro fl_abs_error) simp_all
  also have "(2::rat) powi (34 - 54) = 1 / 2 ^ 20" by simp
  finally show "\<bar>fl x - x\<bar> \<le> 1 / 2 ^ 20" .
  assume "x < 2 ^ 33"
  then have "\<bar>fl x - x\<bar> \<le> 2 powi (33 - 54)" using assms by (intro fl_abs_error) simp_all
  also have "(2::rat) powi (33 - 54) = 1 / 2 ^ 21" by simp
  finally show "\<bar>fl x - x\<bar> \<le> 1 / 2 ^ 21" .
qed

lemma clamped_window:
  assumes b: "0 \<le> lo" "lo \<le> hi" "hi < 2 ^ 33" and r: "0 \<le> r" "r \<le> fsub hi lo"
  shows "lo \<le> clamp v lo (fsub hi r)" "fadd (clamp v lo (fsub hi r)) r \<le> hi + 1 / 2 ^ 19"
proof -
  let ?x = "clamp v lo (fsub hi r)"
  show lo: "lo \<le> ?x" by (rule clamp_bounds)
  have "\<bar>fl (hi - lo) - (hi - lo)\<bar> \<le> 1 / 2 ^ 21" using b by (intro epoch_error(2)) simp_all
  then have full: "fsub hi lo \<le> hi - lo + 1 / 2 ^ 21" unfolding fsub_def by linarith
  have "?x + r \<le> hi + 1 / 2 ^ 21"
  proof (cases "?x \<le> lo")
    case True
    then show ?thesis using r(2) full by linarith
  next
    case False
    then have x: "?x \<le> fsub hi r" by (auto simp: clamp_def max_def min_def split: if_splits)
    show ?thesis
    proof (cases "r \<le> hi")
      case True
      then have "\<bar>fl (hi - r) - (hi - r)\<bar> \<le> 1 / 2 ^ 21" using b r by (intro epoch_error(2)) simp_all
      with x show ?thesis unfolding fsub_def by linarith
    next
      case r_large: False
      then have "fsub hi r \<le> 0" unfolding fsub_def by (intro f64.rnd_nonpos) simp
      with x False b(1) show ?thesis by simp
    qed
  qed
  moreover from this b(3) have "\<bar>fl (?x + r) - (?x + r)\<bar> \<le> 1 / 2 ^ 20"
    using lo b(1) r(1) by (intro epoch_error(1)) simp_all
  ultimately have "fadd ?x r \<le> hi + (1 / 2 ^ 21 + 1 / 2 ^ 20)" unfolding fadd_def by linarith
  then show "fadd ?x r \<le> hi + 1 / 2 ^ 19" by simp
qed

lemma full_range_nonneg: "b_min b \<le> b_max b \<Longrightarrow> 0 \<le> fsub (b_max b) (b_min b)"
  by (simp add: fsub_def f64.rnd_nonneg)

lemma wheel_range_form:
  "\<exists>q v. wheel_range b lo hi m dy =
    (clamp v (b_min b) (fsub (b_max b) (clamp q (min MIN_ZOOM_SEC (fsub (b_max b) (b_min b))) (fsub (b_max b) (b_min b)))),
     clamp q (min MIN_ZOOM_SEC (fsub (b_max b) (b_min b))) (fsub (b_max b) (b_min b)))"
  unfolding wheel_range_def Let_def by blast

lemma wheel_range_width:
  assumes "b_min b \<le> b_max b" "wheel_range b lo hi m dy = (x, r)"
  shows "min MIN_ZOOM_SEC (fsub (b_max b) (b_min b)) \<le> r" "r \<le> fsub (b_max b) (b_min b)" "0 \<le> r"
    "\<exists>v. x = clamp v (b_min b) (fsub (b_max b) r)"
proof -
  let ?f = "fsub (b_max b) (b_min b)"
  obtain q v where r: "r = clamp q (min MIN_ZOOM_SEC ?f) ?f" and x: "x = clamp v (b_min b) (fsub (b_max b) r)"
    using wheel_range_form [of b lo hi m dy] assms(2) by auto
  show 1: "min MIN_ZOOM_SEC ?f \<le> r" unfolding r by (rule clamp_bounds)
  show "r \<le> ?f" unfolding r by (rule clamp_bounds) simp
  show "0 \<le> r" using 1 full_range_nonneg [OF assms(1)] by (simp add: MIN_ZOOM_SEC_def)
  show "\<exists>v. x = clamp v (b_min b) (fsub (b_max b) r)" using x by blast
qed

lemma setScaleX_plot:
  assumes "uplot_ok api"
  shows "u_xmin api (plot (setScaleX api a b c)) = a" "u_xmax api (plot (setScaleX api a b c)) = b"
    "u_xs api (plot (setScaleX api a b c)) = u_xs api (plot c)"
  using assms by (simp_all add: setScaleX_def uplot_ok_def Let_def)

lemma setScaleX_NaN_plot:
  "uplot_ok api \<Longrightarrow> u_xs api (plot (setScaleX_NaN api c)) = u_xs api (plot c)"
  by (simp add: setScaleX_NaN_def uplot_ok_def Let_def case_prod_beta)

text \<open>
  C30: a wheel event never leaves the data: for data of epoch seconds, whatever the mouse
  position, the old view and the direction, the new view starts at or after the first
  sample and ends at the last one or less than two microseconds (the rounding of the two
  operations) after it, and its width is between ten seconds, or the whole data if that is
  shorter, and the whole data.
\<close>

theorem wheel_stays_in_data:
  assumes "uplot_ok api" "0 \<le> b_min (dataBounds api (plot c))"
    "b_min (dataBounds api (plot c)) \<le> b_max (dataBounds api (plot c))" "b_max (dataBounds api (plot c)) < 2 ^ 33"
  shows "\<exists>r. b_min (dataBounds api (plot c)) \<le> u_xmin api (plot (onwheel api m dy c)) \<and>
    u_xmax api (plot (onwheel api m dy c)) = fadd (u_xmin api (plot (onwheel api m dy c))) r \<and>
    u_xmax api (plot (onwheel api m dy c)) \<le> b_max (dataBounds api (plot c)) + 1 / 2 ^ 19 \<and>
    min 10 (fsub (b_max (dataBounds api (plot c))) (b_min (dataBounds api (plot c)))) \<le> r \<and>
    r \<le> fsub (b_max (dataBounds api (plot c))) (b_min (dataBounds api (plot c)))"
proof -
  let ?b = "dataBounds api (plot c)"
  obtain x r where w: "wheel_range ?b (u_xmin api (plot c)) (u_xmax api (plot c)) m dy = (x, r)" by force
  note r = wheel_range_width [OF assms(3) w]
  obtain v where v: "x = clamp v (b_min ?b) (fsub (b_max ?b) r)" using r(4) by blast
  have "u_xmin api (plot (onwheel api m dy c)) = x" "u_xmax api (plot (onwheel api m dy c)) = fadd x r"
    using w by (simp_all add: onwheel_def setScaleX_plot [OF assms(1)])
  then show ?thesis using clamped_window [OF assms(2-4) r(3,2), of v] r(1,2) v
    by (intro exI [of _ r]) (simp add: MIN_ZOOM_SEC_def)
qed

text \<open>A clamped extended number is a clamped number, or NaN.\<close>

lemma xclamp_clamp: "xclamp x lo hi = Some y \<Longrightarrow> \<exists>v. y = clamp v lo hi"
proof (induction x lo hi rule: xclamp.induct)
  case (1 v lo hi)
  then show ?case by (intro exI [of _ v]) (simp add: clamp_def)
next
  case (2 lo hi)
  then show ?case by (intro exI [of _ hi]) (simp add: clamp_def)
next
  case (3 lo hi)
  then show ?case by (intro exI [of _ lo]) (simp add: clamp_def)
qed simp

text \<open>The position of a pan is NaN only when the area has no width and nothing was moved or shown.\<close>

lemma pan_range_NaN:
  "fst (pan_range b d m) = None \<longleftrightarrow> over_width m = 0 \<and>
    (fsub (clientX m) (dragStartX d) = 0 \<or> fsub (dragStartXMax d) (dragStartXMin d) = 0)"
  by (auto simp: pan_range_def Let_def xdiv_def)

text \<open>A view wider than the data starts exactly at the first sample.\<close>

lemma wide_view_start:
  assumes "is_double lo" "is_double r" "fsub hi lo < r"
  shows "clamp v lo (fsub hi r) = lo"
proof -
  have "hi - lo \<le> r"
  proof (rule ccontr)
    assume "\<not> hi - lo \<le> r"
    then have "r \<le> fsub hi lo" using assms(2) unfolding fsub_def is_double_def by (intro f64.le_rnd) simp_all
    with assms(3) show False by simp
  qed
  then have "fsub hi r \<le> lo" using assms(1) unfolding fsub_def is_double_def by (intro f64.rnd_le) simp_all
  then show ?thesis by (simp add: clamp_def)
qed

text \<open>
  C31: dragging keeps the width of the view it started with and never goes before the data:
  for data of epoch seconds, whatever the positions of the mouse, the new view starts at or after
  the first sample. When the view is not wider than the data, it ends at the last sample or
  less than two microseconds (the rounding) after it. A wider view, as of a chart with one
  point, cannot be moved: it starts exactly at the first sample, and so ends after the data. The
  one exception is a plotting area without width while the mouse has not moved or
  the view is empty, where the code hands NaN to the library.
\<close>

theorem pan_stays_in_data:
  fixes api c d m
  defines "b \<equiv> dataBounds api (plot c)" and "c' \<equiv> onmousemove api d m c"
    and "w \<equiv> fsub (dragStartXMax d) (dragStartXMin d)"
  assumes "uplot_ok api" "dragging d" "0 \<le> b_min b" "b_min b \<le> b_max b" "b_max b < 2 ^ 33"
    "is_double (b_min b)" "dragStartXMin d \<le> dragStartXMax d"
  shows "if over_width m = 0 \<and> (fsub (clientX m) (dragStartX d) = 0 \<or> w = 0)
     then plot c' = fst (u_setNaN api (plot c))
     else b_min b \<le> u_xmin api (plot c') \<and> u_xmax api (plot c') = fadd (u_xmin api (plot c')) w \<and>
       (if w \<le> fsub (b_max b) (b_min b) then u_xmax api (plot c') \<le> b_max b + 1 / 2 ^ 19
        else u_xmin api (plot c') = b_min b)"
proof (cases "fst (pan_range b d m)")
  case None
  then have "plot c' = fst (u_setNaN api (plot c))"
    using assms(5) by (simp add: c'_def b_def onmousemove_def setScaleX_NaN_def case_prod_beta Let_def)
  with None show ?thesis unfolding pan_range_NaN w_def by simp
next
  case (Some x)
  have r: "0 \<le> w" "is_double w" using assms(10) by (simp_all add: w_def fsub_def f64.rnd_nonneg)
  have p: "pan_range b d m = (Some x, w)"
    using Some by (simp add: pan_range_def w_def Let_def)
  then obtain v where v: "x = clamp v (b_min b) (fsub (b_max b) w)"
    using xclamp_clamp [of _ "b_min b" "fsub (b_max b) w" x] unfolding pan_range_def w_def Let_def by blast
  have "u_xmin api (plot c') = x" "u_xmax api (plot c') = fadd x w"
    using p assms(5) unfolding c'_def b_def by (simp_all add: onmousemove_def setScaleX_plot [OF assms(4)])
  moreover have "\<not> (over_width m = 0 \<and> (fsub (clientX m) (dragStartX d) = 0 \<or> w = 0))"
    using pan_range_NaN [of b d m] Some by (simp add: w_def)
  moreover have "b_min b \<le> x" unfolding v by (rule clamp_bounds)
  moreover have "fadd x w \<le> b_max b + 1 / 2 ^ 19" if "w \<le> fsub (b_max b) (b_min b)"
    unfolding v by (rule clamped_window(2) [OF assms(6-8) r(1) that])
  moreover have "x = b_min b" if "\<not> w \<le> fsub (b_max b) (b_min b)"
    unfolding v using that by (intro wide_view_start [OF assms(9) r(2)]) simp
  ultimately show ?thesis by auto
qed

lemma full_is_full: "0 \<le> full \<Longrightarrow> is_double full \<Longrightarrow> fsub full (fmul full (fl (1/1000))) \<le> full"
proof -
  assume f: "0 \<le> full" "is_double full"
  then have "0 \<le> fmul full (fl (1/1000))" by (simp add: fmul_nonneg f64.rnd_nonneg)
  with f show ?thesis unfolding fsub_def by (intro f64.rnd_le) (simp_all add: is_double_def)
qed

text \<open>
  New data respects the user's zoom: a zoomed view keeps its range exactly; a view that
  is not zoomed shows exactly the new data, first to last sample, and stays not zoomed, so
  that it follows the next data too.
\<close>

lemma applyData_view:
  assumes "uplot_ok api" "d \<noteq> []" "hd d \<noteq> []" "hd (hd d) < last (hd d)"
  shows "(if userZoomed c
     then u_xmin api (plot (applyData api d c)) = u_xmin api (plot c) \<and>
       u_xmax api (plot (applyData api d c)) = u_xmax api (plot c)
     else u_xmin api (plot (applyData api d c)) = hd (hd d) \<and>
       u_xmax api (plot (applyData api d c)) = last (hd d) \<and> \<not> userZoomed (applyData api d c)) \<and>
    u_xs api (plot (applyData api d c)) = hd d"
proof -
  have "fsub (last (hd d)) (hd (hd d)) \<ge> fsub (fsub (last (hd d)) (hd (hd d)))
      (fmul (fsub (last (hd d)) (hd (hd d))) (fl (1/1000)))"
    using assms(4) by (intro full_is_full) (simp_all add: fsub_def f64.rnd_nonneg)
  with assms show ?thesis
    by (simp add: applyData_def setScaleX_def uplot_ok_def isFullRange_def dataBounds_def bounds_of_def Let_def)
qed

section \<open>A plot that keeps the documented promises\<close>

definition plain_plot :: "(number list \<times> number \<times> number) uplot" where
  "plain_plot = \<lparr>u_xs = fst, u_xmin = fst \<circ> snd, u_xmax = snd \<circ> snd,
     u_setScale = (\<lambda>a b u. (fst u, a, b)), u_setNaN = (\<lambda>u. (u, True)),
     u_setData = (\<lambda>r d u. if d = [] then u
       else if r \<and> hd d \<noteq> [] then (hd d, hd (hd d), last (hd d)) else (hd d, snd u))\<rparr>"

lemma plain_plot_ok: "uplot_ok plain_plot"
  by (auto simp: uplot_ok_def plain_plot_def)

definition chart0 :: "(number list \<times> number \<times> number) chart" where
  "chart0 = \<lparr>plot = ([1700000000, 1700000060], 1700000000, 1700000060), userZoomed = False\<rparr>"

lemma bounds_chart0: "dataBounds plain_plot (plot chart0) = \<lparr>b_min = 1700000000, b_max = 1700000060\<rparr>"
  by (simp add: dataBounds_def bounds_of_def chart0_def plain_plot_def)

theorem wheel_stays_in_data_witness:
  "1700000000 \<le> u_xmin plain_plot (plot (onwheel plain_plot \<lparr>clientX = 10, over_left = 0, over_width = 100\<rparr> 1 chart0))"
  using wheel_stays_in_data [OF plain_plot_ok, of chart0] by (auto simp: bounds_chart0)

theorem pan_stays_in_data_witness:
  "1700000000 \<le> u_xmin plain_plot (plot (onmousemove plain_plot
     \<lparr>dragging = True, dragStartX = 50, dragStartXMin = 1700000010, dragStartXMax = 1700000020\<rparr>
     \<lparr>clientX = 90, over_left = 0, over_width = 100\<rparr> chart0))"
proof -
  have "fsub 1700000020 1700000010 = 10" "fsub 1700000060 1700000000 = 60" "is_double 1700000000"
    by (simp_all add: fsub_def is_double_def)
  then show ?thesis
    using pan_stays_in_data [OF plain_plot_ok, of
      "\<lparr>dragging = True, dragStartX = 50, dragStartXMin = 1700000010, dragStartXMax = 1700000020\<rparr>" chart0
      "\<lparr>clientX = 90, over_left = 0, over_width = 100\<rparr>"]
    by (simp add: bounds_chart0)
qed

end
