(* ===== verification/Canvas2d.thy ===== *)
theory Canvas2d
  imports Prelude
begin

text \<open>
  The drawing commands of a two-dimensional canvas context that the charts use. A drawing is
  the list of its commands in order; assigning a property of the context is a command too.
\<close>

datatype draw_cmd =
    SetSize rat rat
  | SetScale rat rat
  | Save
  | Restore
  | FillStyle string
  | StrokeStyle string
  | LineWidth rat
  | LineDash "rat list"
  | Font string
  | TextAlign string
  | FillRect rat rat rat rat
  | StrokeRect rat rat rat rat
  | ClearRect rat rat rat rat
  | BeginPath
  | ClosePath
  | MoveTo rat rat
  | LineTo rat rat
  | Stroke
  | Fill
  | FillText string rat rat

end
