(* ===== verification/Charts.thy ===== *)
theory Charts
  imports ChartShared Canvas2d
begin

text \<open>
  \<open>components/LatencyChart.tsx\<close> and \<open>components/ResourceChart.tsx\<close>: the data columns, the
  shaded spike bands, the y ranges and labels, and the options of the plots with what their
  hooks draw.

  A history point may carry a spike flag at run time (the code reads one through a cast), so
  the points of a latency chart are pairs of a point and its flag; neither data source sets
  it.
\<close>

section \<open>Latency\<close>

type_synonym flagged = "HistoryPoint \<times> bool"

definition secs :: "HistoryPoint \<Rightarrow> number" where
  "secs p = fdiv (hp_time p) 1000"

definition toUPlotData :: "HistoryPoint list \<Rightarrow> number list list" where
  "toUPlotData pts = [map secs pts, map hp_avg_us pts, map hp_p50_us pts, map hp_p95_us pts, map hp_p99_us pts]"

text \<open>The loop of \<open>calcSpikeBands\<close>: the previous point, the open band, the rest.\<close>

fun scan_bands :: "HistoryPoint option \<Rightarrow> number option \<Rightarrow> flagged list \<Rightarrow> (number \<times> number) list" where
  "scan_bands prev start [] = []"
| "scan_bands prev start ((p, is_flagged) # ps) =
     (if is_flagged then
        (let s = (case start of None \<Rightarrow> secs p | Some s \<Rightarrow> s)
         in if ps = [] then [(s, secs p)] else scan_bands (Some p) (Some s) ps)
      else case start of
          Some s \<Rightarrow> (s, (case prev of None \<Rightarrow> 0 | Some q \<Rightarrow> secs q)) # scan_bands (Some p) None ps
        | None \<Rightarrow> scan_bands (Some p) None ps)"

text \<open>\<open>Math.max(0, pts.length - Math.ceil(pts.length * 0.18))\<close>\<close>

definition cutIdx :: "nat \<Rightarrow> nat" where
  "cutIdx n = nat (max 0 (int n - \<lceil>fmul (of_nat n) (fl (18/100))\<rceil>))"

definition calcSpikeBands :: "flagged list \<Rightarrow> bool \<Rightarrow> (number \<times> number) list" where
  "calcSpikeBands pts isSpike =
     (let bands = scan_bands None None pts
      in if isSpike \<and> bands = [] \<and> length pts > 1
         then [(secs (fst (pts ! cutIdx (length pts))), secs (fst (pts ! (length pts - 1))))]
         else bands)"

record series =
  se_label :: string
  se_stroke :: string
  se_width :: number
  se_dash :: "nat list"

definition SERIES :: "series list" where
  "SERIES = [\<lparr>se_label = ''AVG'', se_stroke = ''#2563eb'', se_width = fl (12/10), se_dash = [4, 3]\<rparr>,
     \<lparr>se_label = ''P50'', se_stroke = ''#16a34a'', se_width = fl (18/10), se_dash = []\<rparr>,
     \<lparr>se_label = ''P95'', se_stroke = ''#d97706'', se_width = fl (18/10), se_dash = []\<rparr>,
     \<lparr>se_label = ''P99'', se_stroke = ''#ea580c'', se_width = fl (24/10), se_dash = []\<rparr>]"

text \<open>The options that compute: the y range, the y labels and the shaded rectangles.\<close>

definition y_range :: "number \<Rightarrow> number \<Rightarrow> number \<times> number" where
  "y_range mn mx = (max 0 (fmul mn (fl (85/100))), fmul mx (fl (115/100)))"

definition y_labels :: "number option list \<Rightarrow> string list" where
  "y_labels vals = map (\<lambda>v. case v of None \<Rightarrow> [] | Some v \<Rightarrow> fmtUs v) vals"

text \<open>The left edge and the width of each rectangle, by the library's \<open>valToPos\<close>.\<close>

definition band_rects :: "(number \<Rightarrow> number) \<Rightarrow> (number \<times> number) list \<Rightarrow> (int \<times> int) list" where
  "band_rects valToPos spikeBands =
     map (\<lambda>(from, to). (let x0 = math_round (valToPos from); x1 = math_round (valToPos to) in (x0, max 2 (x1 - x0)))) spikeBands"

section \<open>Resources\<close>

definition res_secs :: "ResourcePoint \<Rightarrow> number" where
  "res_secs p = fdiv (rp_time p) 1000"

definition RES_SERIES :: "(series \<times> (ResourcePoint \<Rightarrow> number)) list" where
  "RES_SERIES =
    [(\<lparr>se_label = ''CPU'', se_stroke = ''#dc2626'', se_width = 2, se_dash = []\<rparr>, rp_cpu_pct),
     (\<lparr>se_label = ''IO wait'', se_stroke = ''#7c3aed'', se_width = 2, se_dash = []\<rparr>, rp_io_wait_pct),
     (\<lparr>se_label = ''Mem pressure'', se_stroke = ''#ea580c'', se_width = 2, se_dash = []\<rparr>, rp_mem_pressure_pct)]"

definition DANGER_PCT :: number where
  "DANGER_PCT = 70"

definition res_toUPlotData :: "ResourcePoint list \<Rightarrow> number list list" where
  "res_toUPlotData pts = map res_secs pts # map (\<lambda>(_, get). map get pts) RES_SERIES"

definition res_y_range :: "number \<Rightarrow> number \<Rightarrow> number \<times> number" where
  "res_y_range mn mx = (0, 100)"

text \<open>The ticks are the three splits of the axis, so a tick prints as an integer.\<close>

definition res_splits :: "number list" where
  "res_splits = [0, 50, 100]"

definition res_labels :: "number option list \<Rightarrow> string list" where
  "res_labels vals = map (\<lambda>v. case v of None \<Rightarrow> [] | Some v \<Rightarrow> show_int \<lfloor>v\<rfloor> @ ''%'') vals"

section \<open>Options of a plot\<close>

text \<open>
  What \<open>makeOpts\<close> hands to the library. An axis has the shared style, its size, the splits it
  asks for, if any, and its labels, which for the time axis depend on the visible range. The
  first series is the empty object of the x values. The hook draws on the canvas of the
  library, of which it reads the box of the plot and the positions of values.
\<close>

record axis_opts =
  ao_base :: axis_base
  ao_size :: nat
  ao_splits :: "number list option"
  ao_values :: "number option \<Rightarrow> number option \<Rightarrow> number option list \<Rightarrow> string list"

record plot_box =
  pb_left :: number
  pb_top :: number
  pb_width :: number
  pb_height :: number
  pb_x :: "number \<Rightarrow> number"
  pb_y :: "number \<Rightarrow> number"

record plot_opts =
  po_width :: nat
  po_height :: nat
  po_padding :: "nat list"
  po_drag :: "bool \<times> bool"
  po_focus_prox :: nat
  po_select_show :: bool
  po_legend_show :: bool
  po_x_time :: bool
  po_y_range :: "number \<Rightarrow> number \<Rightarrow> number \<times> number"
  po_axes :: "axis_opts list"
  po_series :: "series option list"
  po_drawAxes :: "plot_box \<Rightarrow> draw_cmd list"

text \<open>The functions of the local calendar that the time axis calls.\<close>

record calendar =
  cal_hhmm :: "number \<Rightarrow> string"
  cal_month_day :: "number \<Rightarrow> nat \<times> nat"
  cal_clock :: "number \<Rightarrow> string"

definition time_axis :: "calendar \<Rightarrow> axis_opts" where
  "time_axis cal = \<lparr>ao_base = axisBase, ao_size = 28, ao_splits = None,
     ao_values = timeAxisValues (cal_hhmm cal) (cal_month_day cal)\<rparr>"

definition draw_bands :: "(number \<times> number) list \<Rightarrow> plot_box \<Rightarrow> draw_cmd list" where
  "draw_bands spikeBands u =
     (if spikeBands = [] then []
      else [Save, FillStyle ''rgba(220,38,38,0.07)''] @
        map (\<lambda>(x0, w). FillRect (of_int x0) (pb_top u) (of_int w) (pb_height u)) (band_rects (pb_x u) spikeBands) @
        [Restore])"

definition makeOpts :: "calendar \<Rightarrow> nat \<Rightarrow> nat \<Rightarrow> (number \<times> number) list \<Rightarrow> plot_opts" where
  "makeOpts cal width height spikeBands =
     \<lparr>po_width = width, po_height = height, po_padding = [10, 14, 0, 56], po_drag = (False, False),
      po_focus_prox = 30, po_select_show = False, po_legend_show = False, po_x_time = True, po_y_range = y_range,
      po_axes = [time_axis cal,
        \<lparr>ao_base = axisBase, ao_size = 52, ao_splits = None, ao_values = (\<lambda>_ _. y_labels)\<rparr>],
      po_series = None # map Some SERIES, po_drawAxes = draw_bands spikeBands\<rparr>"

definition draw_danger :: "plot_box \<Rightarrow> draw_cmd list" where
  "draw_danger u =
     (let y = of_int (math_round (pb_y u DANGER_PCT))
      in [Save, StrokeStyle ''rgba(220,38,38,0.5)'', LineWidth 1, LineDash [4, 3], BeginPath,
          MoveTo (pb_left u) y, LineTo (fadd (pb_left u) (pb_width u)) y, Stroke, Restore])"

definition res_makeOpts :: "calendar \<Rightarrow> nat \<Rightarrow> nat \<Rightarrow> plot_opts" where
  "res_makeOpts cal width height =
     \<lparr>po_width = width, po_height = height, po_padding = [10, 14, 0, 56], po_drag = (False, False),
      po_focus_prox = 30, po_select_show = False, po_legend_show = False, po_x_time = True, po_y_range = res_y_range,
      po_axes = [time_axis cal,
        \<lparr>ao_base = axisBase, ao_size = 52, ao_splits = Some res_splits, ao_values = (\<lambda>_ _. res_labels)\<rparr>],
      po_series = None # map (Some \<circ> fst) RES_SERIES, po_drawAxes = draw_danger\<rparr>"

section \<open>Spike bands\<close>

text \<open>The specification: the maximal runs of flagged points.\<close>

function runs :: "flagged list \<Rightarrow> flagged list list" where
  "runs ps =
     (let ps' = dropWhile (Not \<circ> snd) ps
      in if ps' = [] then [] else takeWhile snd ps' # runs (dropWhile snd ps'))"
  by auto
termination
proof (relation "measure length")
  fix ps ps' :: "flagged list"
  assume a: "ps' = dropWhile (Not \<circ> snd) ps" "ps' \<noteq> []"
  then have "snd (hd ps')" using hd_dropWhile [of "Not \<circ> snd" ps] by simp
  then have "length (dropWhile snd ps') < length ps'"
    using a(2) length_dropWhile_le [of snd "tl ps'"] by (cases ps') auto
  moreover have "length ps' \<le> length ps" unfolding a(1) by (rule length_dropWhile_le)
  ultimately show "(dropWhile snd ps', ps) \<in> measure length" by simp
qed simp

declare runs.simps [simp del]

lemma runs_Nil [simp]: "runs [] = []"
  by (simp add: runs.simps)

lemma runs_unflagged: "runs ((p, False) # ps) = runs ps"
  by (simp add: runs.simps [of "(p, False) # ps"] runs.simps [of ps])

lemma runs_flagged: "runs ((p, True) # ps) = takeWhile snd ((p, True) # ps) # runs (dropWhile snd ps)"
  by (simp add: runs.simps [of "(p, True) # ps"])

definition band_of :: "flagged list \<Rightarrow> number \<times> number" where
  "band_of r = (secs (fst (hd r)), secs (fst (last r)))"

lemma scan_bands_runs:
  "scan_bands q None ps = map band_of (runs ps)"
  "ps \<noteq> [] \<Longrightarrow> scan_bands (Some r) (Some s) ps =
    (s, secs (fst (last ((r, True) # takeWhile snd ps)))) # map band_of (runs (dropWhile snd ps))"
proof (induction ps arbitrary: q r s)
  case (Cons x ps)
  obtain p b where x: "x = (p, b)" by force
  {
    case 1
    show ?case
    proof (cases b)
      case True
      with Cons.IH(2) [of p "secs p"] show ?thesis
        by (cases "ps = []") (simp_all add: x runs_flagged band_of_def)
    next
      case False
      with Cons.IH(1) show ?thesis by (simp add: x runs_unflagged)
    qed
  next
    case 2
    show ?case
    proof (cases b)
      case True
      with Cons.IH(2) [of p s] show ?thesis by (cases "ps = []") (simp_all add: x)
    next
      case False
      with Cons.IH(1) show ?thesis by (simp add: x runs_unflagged)
    qed
  }
qed simp_all

lemma cutIdx_less:
  assumes "0 < n" shows "cutIdx n < n"
proof -
  have e: "fl (1/8) = 1/8" by code_simp
  then have "1/8 \<le> fl (18/100)" by (intro f64.le_rnd) simp_all
  then have "1 * (1/8) \<le> of_nat n * fl (18/100)" using assms by (intro mult_mono) simp_all
  then have "1/8 \<le> fmul (of_nat n) (fl (18/100))" unfolding fmul_def by (intro f64.le_rnd e) simp_all
  then have "1 \<le> \<lceil>fmul (of_nat n) (fl (18/100))\<rceil>" by linarith
  then show ?thesis using assms unfolding cutIdx_def by linarith
qed

text \<open>
  C27: the shaded bands are the maximal runs of flagged points, each from the first to the
  last point of its run; when no point is flagged and the connection is spiking, there is
  one band from the point at \<open>cutIdx\<close> to the last, and that index is always in range.
\<close>

theorem calcSpikeBands_runs:
  "calcSpikeBands pts isSpike =
    (if isSpike \<and> runs pts = [] \<and> 1 < length pts then [band_of (drop (cutIdx (length pts)) pts)]
     else map band_of (runs pts)) \<and> (1 < length pts \<longrightarrow> cutIdx (length pts) < length pts)"
proof -
  have cut: "cutIdx (length pts) < length pts" if "1 < length pts" using that by (intro cutIdx_less) linarith
  moreover have "drop (cutIdx (length pts)) pts \<noteq> []" if "1 < length pts" using cut [OF that] by simp
  then have "band_of (drop (cutIdx (length pts)) pts) =
      (secs (fst (pts ! cutIdx (length pts))), secs (fst (pts ! (length pts - 1))))" if "1 < length pts"
    using cut [OF that] that by (auto simp: band_of_def hd_drop_conv_nth last_conv_nth)
  ultimately show ?thesis by (simp add: calcSpikeBands_def scan_bands_runs(1) Let_def)
qed

text \<open>
  The y axis of a latency chart never cuts a line off: for data from a non-negative
  minimum to a maximum, the range starts between zero and the minimum and ends at or above
  the maximum, rounding included.
\<close>

lemma y_range_contains:
  assumes "0 \<le> mn" "is_double mn" "0 \<le> mx" "is_double mx"
  shows "0 \<le> fst (y_range mn mx) \<and> fst (y_range mn mx) \<le> mn \<and> mx \<le> snd (y_range mn mx)"
proof -
  have "fl (85/100) \<le> 1" by (intro f64.rnd_le) simp_all
  then have "fmul mn (fl (85/100)) \<le> mn"
    using f64.rnd_scale_le [of mn "fl (85/100)"] assms by (simp add: fmul_def is_double_def mult.commute)
  moreover have "1 \<le> fl (115/100)" by (rule fl_pos_int) simp
  then have "mx * 1 \<le> mx * fl (115/100)" using assms(3) by (rule mult_left_mono)
  then have "mx \<le> fmul mx (fl (115/100))" unfolding fmul_def using assms(4)
    by (intro f64.le_rnd) (simp_all add: is_double_def)
  ultimately show ?thesis using assms(1) by (simp add: y_range_def)
qed

section \<open>Concrete instances\<close>

definition pt :: "number \<Rightarrow> HistoryPoint" where
  "pt t = \<lparr>hp_time = t, hp_latest_srtt_us = 1, hp_avg_us = 1, hp_p50_us = 1, hp_p95_us = 2, hp_p99_us = 3, hp_jitter_us = 0\<rparr>"

theorem calcSpikeBands_runs_witness: "cutIdx 2 < 2 \<and> calcSpikeBands [(pt 1000, False), (pt 2000, True)] True = [(2, 2)]"
proof -
  have "runs [(pt 1000, False), (pt 2000, True)] = [[(pt 2000, True)]]" by (simp add: runs_unflagged runs_flagged)
  moreover have "secs (pt 2000) = 2" by (simp add: secs_def pt_def fdiv_def)
  ultimately show ?thesis using calcSpikeBands_runs [of "[(pt 1000, False), (pt 2000, True)]" True]
    by (simp add: band_of_def numeral_2_eq_2)
qed

end
