(* ===== verification/ChartView.thy ===== *)
theory ChartView
  imports Charts
begin

text \<open>
  \<open>components/LatencyChart.tsx\<close> and \<open>components/ResourceChart.tsx\<close>: the components. A canvas
  owns a plot of the library for as long as it is mounted; a chart shows one canvas, and a
  second one in a modal while that is open. The library's constructor is the argument
  \<open>create\<close>, from the options and the columns to a plot.

  The two files repeat the same code around different data. A \<open>canvas_code\<close> holds what
  differs: how the plot is rebuilt, how it is given new data, and which change of props runs
  which effect. Both charts are instances of the locale \<open>plot_canvas\<close>, in which the ownership
  of plots is proved once.
\<close>

section \<open>Tooltips\<close>

record tip =
  tip_pos :: "(number \<times> number) option"
  tip_idx :: "nat option"

definition tip_hidden :: tip where
  "tip_hidden = \<lparr>tip_pos = None, tip_idx = None\<rparr>"

text \<open>What the handler reads of the library's cursor and of the page.\<close>

record cursor =
  cu_idx :: "int option"
  cu_left :: "number option"
  cu_rect_left :: number
  cu_rect_top :: number
  cu_bbox_top :: number
  cu_dpr :: number

definition onMove :: "nat \<Rightarrow> cursor \<Rightarrow> tip \<Rightarrow> tip" where
  "onMove n cu t =
     (case cu_idx cu of None \<Rightarrow> tip_hidden
      | Some ci \<Rightarrow>
          (if ci < 0 \<or> ci \<ge> int n then tip_hidden
           else t\<lparr>tip_pos := Some (fadd (cu_rect_left cu) (nullish (cu_left cu) 0),
                    fadd (cu_rect_top cu) (fdiv (cu_bbox_top cu) (cu_dpr cu))),
                  tip_idx := Some (nat ci)\<rparr>))"

definition onLeave :: "tip \<Rightarrow> tip" where
  "onLeave t = t\<lparr>tip_pos := None, tip_idx := None\<rparr>"

text \<open>
  What is rendered: nothing when there is no position, no index, or no point at the index,
  which may be left over from a longer history (\<open>!pts[idx]\<close>).
\<close>

record tip_view =
  tv_left :: number
  tv_top :: number
  tv_time :: string
  tv_rows :: "(string \<times> string \<times> string) list"

definition show_tip ::
  "('p \<Rightarrow> string) \<Rightarrow> ('p \<Rightarrow> (string \<times> string \<times> string) list) \<Rightarrow> tip \<Rightarrow> 'p list \<Rightarrow> tip_view option" where
  "show_tip time rows t pts =
     (case tip_pos t of None \<Rightarrow> None
      | Some (x, y) \<Rightarrow>
          (case tip_idx t of None \<Rightarrow> None
           | Some i \<Rightarrow> (if i < length pts
               then Some \<lparr>tv_left = fadd x 12, tv_top = y, tv_time = time (pts ! i), tv_rows = rows (pts ! i)\<rparr>
               else None)))"

definition latency_rows :: "HistoryPoint \<Rightarrow> (string \<times> string \<times> string) list" where
  "latency_rows p = map (\<lambda>(s, v). (se_label s, se_stroke s, fmtUs v))
     (zip SERIES [hp_avg_us p, hp_p50_us p, hp_p95_us p, hp_p99_us p])"

definition Tooltip :: "calendar \<Rightarrow> tip \<Rightarrow> HistoryPoint list \<Rightarrow> tip_view option" where
  "Tooltip cal = show_tip (\<lambda>p. cal_clock cal (hp_time p)) latency_rows"

definition resource_rows :: "ResourcePoint \<Rightarrow> (string \<times> string \<times> string) list" where
  "resource_rows p = map (\<lambda>(s, get). (se_label s, se_stroke s, toFixed 1 (get p) @ ''%'')) RES_SERIES"

definition res_Tooltip :: "calendar \<Rightarrow> tip \<Rightarrow> ResourcePoint list \<Rightarrow> tip_view option" where
  "res_Tooltip cal = show_tip (\<lambda>p. cal_clock cal (rp_time p)) resource_rows"

section \<open>The canvas\<close>

text \<open>
  The refs and the state of a canvas: the current plot with its zoom state
  (\<open>plotRef\<close>, \<open>panZoomRef\<close>), the variables of the drag in its plugin, the bands its options
  were made with, its size; the size of the wrapping element; the plot that the tooltip was
  given (\<open>uInst\<close>), by its number; the tooltip. Plots are numbered as they are made. The plugin
  of every plot adds two listeners to the window when the plot is ready.
\<close>

record 'p canvas =
  cv_chart :: "'p chart option"
  cv_drag :: drag
  cv_bands :: "(number \<times> number) list"
  cv_size :: "nat \<times> nat"
  cv_wrap :: "nat \<times> nat"
  cv_inst :: "nat option"
  cv_tip :: tip
  cv_created :: nat
  cv_destroyed :: nat
  cv_listeners :: nat

definition drag0 :: drag where
  "drag0 = \<lparr>dragging = False, dragStartX = 0, dragStartXMin = 0, dragStartXMax = 0\<rparr>"

definition canvas0 :: "nat \<times> nat \<Rightarrow> 'p canvas" where
  "canvas0 wrap = \<lparr>cv_chart = None, cv_drag = drag0, cv_bands = [], cv_size = (0, 0), cv_wrap = wrap,
     cv_inst = None, cv_tip = tip_hidden, cv_created = 0, cv_destroyed = 0, cv_listeners = 0\<rparr>"

definition destroy :: "'p canvas \<Rightarrow> 'p canvas" where
  "destroy v = (case cv_chart v of None \<Rightarrow> v | Some _ \<Rightarrow> v\<lparr>cv_chart := None, cv_destroyed := Suc (cv_destroyed v)\<rparr>)"

text \<open>\<open>new uPlot(...)\<close> with a fresh zoom state, and the plugin's ready hook.\<close>

definition new_plot :: "'p \<Rightarrow> nat \<times> nat \<Rightarrow> 'p canvas \<Rightarrow> 'p canvas" where
  "new_plot u sz v =
     v\<lparr>cv_chart := Some \<lparr>plot = u, userZoomed = False\<rparr>, cv_drag := drag0, cv_size := sz,
       cv_inst := Some (Suc (cv_created v)), cv_created := Suc (cv_created v), cv_listeners := cv_listeners v + 2\<rparr>"

definition rebuild ::
  "(plot_opts \<Rightarrow> number list list \<Rightarrow> 'p) \<Rightarrow> calendar \<Rightarrow> flagged list \<times> bool \<Rightarrow> nat \<times> nat \<Rightarrow> 'p canvas \<Rightarrow> 'p canvas" where
  "rebuild create cal props sz v =
     (let bands = calcSpikeBands (fst props) (snd props)
      in (new_plot (create (makeOpts cal (fst sz) (snd sz) bands) (toUPlotData (map fst (fst props)))) sz
           (destroy v))\<lparr>cv_bands := bands\<rparr>)"

definition res_rebuild ::
  "(plot_opts \<Rightarrow> number list list \<Rightarrow> 'p) \<Rightarrow> calendar \<Rightarrow> ResourcePoint list \<Rightarrow> nat \<times> nat \<Rightarrow> 'p canvas \<Rightarrow> 'p canvas" where
  "res_rebuild create cal pts sz v =
     new_plot (create (res_makeOpts cal (fst sz) (snd sz)) (res_toUPlotData pts)) sz (destroy v)"

definition give_data :: "'p uplot \<Rightarrow> number list list \<Rightarrow> 'p canvas \<Rightarrow> 'p canvas" where
  "give_data api d v = (case cv_chart v of None \<Rightarrow> v | Some c \<Rightarrow> v\<lparr>cv_chart := Some (applyData api d c)\<rparr>)"

definition on_points :: "'p uplot \<Rightarrow> flagged list \<times> bool \<Rightarrow> 'p canvas \<Rightarrow> 'p canvas" where
  "on_points api props = give_data api (toUPlotData (map fst (fst props)))"

definition res_on_points :: "'p uplot \<Rightarrow> ResourcePoint list \<Rightarrow> 'p canvas \<Rightarrow> 'p canvas" where
  "res_on_points api pts = give_data api (res_toUPlotData pts)"

text \<open>
  The code of a canvas: the latency canvas rebuilds its plot when \<open>isSpike\<close> changes, the
  resource canvas never does; both hand over a new history. (An effect compares arrays by
  identity; running it again for an equal history changes nothing that is shown.)
\<close>

record ('p, 'r) canvas_code =
  cc_rebuild :: "'r \<Rightarrow> nat \<times> nat \<Rightarrow> 'p canvas \<Rightarrow> 'p canvas"
  cc_feed :: "'r \<Rightarrow> 'p canvas \<Rightarrow> 'p canvas"
  cc_restarts :: "'r \<Rightarrow> 'r \<Rightarrow> bool"
  cc_feeds :: "'r \<Rightarrow> 'r \<Rightarrow> bool"
  cc_length :: "'r \<Rightarrow> nat"

definition latency_code ::
  "'p uplot \<Rightarrow> (plot_opts \<Rightarrow> number list list \<Rightarrow> 'p) \<Rightarrow> calendar \<Rightarrow> ('p, flagged list \<times> bool) canvas_code" where
  "latency_code api create cal = \<lparr>cc_rebuild = rebuild create cal, cc_feed = on_points api,
     cc_restarts = (\<lambda>old new. snd old \<noteq> snd new), cc_feeds = (\<lambda>old new. fst old \<noteq> fst new), cc_length = length \<circ> fst\<rparr>"

definition resource_code ::
  "'p uplot \<Rightarrow> (plot_opts \<Rightarrow> number list list \<Rightarrow> 'p) \<Rightarrow> calendar \<Rightarrow> ('p, ResourcePoint list) canvas_code" where
  "resource_code api create cal = \<lparr>cc_rebuild = res_rebuild create cal, cc_feed = res_on_points api,
     cc_restarts = (\<lambda>old new. False), cc_feeds = (\<lambda>old new. old \<noteq> new), cc_length = length\<rparr>"

text \<open>\<open>rebuild(wrap.clientWidth || 400, wrap.clientHeight || 140)\<close>\<close>

definition wrap_size :: "nat \<times> nat \<Rightarrow> nat \<times> nat" where
  "wrap_size w = (if fst w = 0 then 400 else fst w, if snd w = 0 then 140 else snd w)"

definition start_plot :: "('p, 'r) canvas_code \<Rightarrow> 'r \<Rightarrow> 'p canvas \<Rightarrow> 'p canvas" where
  "start_plot cc r v = cc_rebuild cc r (wrap_size (cv_wrap v)) v"

definition stop_plot :: "'p canvas \<Rightarrow> 'p canvas" where
  "stop_plot v = (destroy v)\<lparr>cv_inst := None\<rparr>"

definition canvas_mount :: "('p, 'r) canvas_code \<Rightarrow> 'r \<Rightarrow> nat \<times> nat \<Rightarrow> 'p canvas" where
  "canvas_mount cc r wrap = cc_feed cc r (start_plot cc r (canvas0 wrap))"

definition canvas_update :: "('p, 'r) canvas_code \<Rightarrow> 'r \<Rightarrow> 'r \<Rightarrow> 'p canvas \<Rightarrow> 'p canvas" where
  "canvas_update cc old new v =
     (let v1 = (if cc_restarts cc old new then start_plot cc new (stop_plot v) else v)
      in if cc_feeds cc old new then cc_feed cc new v1 else v1)"

definition canvas_unmount :: "'p canvas \<Rightarrow> 'p canvas" where
  "canvas_unmount v = stop_plot v"

text \<open>What happens to a mounted canvas: the events of the plugin, of the tooltip, a resize.\<close>

datatype canvas_ev =
    Cv_wheel mouse number
  | Cv_down nat mouse
  | Cv_move mouse
  | Cv_up
  | Cv_cursor cursor
  | Cv_leave
  | Cv_resize "nat \<times> nat"

definition on_wrap_resize :: "nat \<times> nat \<Rightarrow> 'p canvas \<Rightarrow> 'p canvas" where
  "on_wrap_resize w v =
     (let v1 = v\<lparr>cv_wrap := w\<rparr>
      in if cv_chart v \<noteq> None \<and> fst w > 0 \<and> snd w > 0 then v1\<lparr>cv_size := w\<rparr> else v1)"

fun canvas_handle :: "'p uplot \<Rightarrow> nat \<Rightarrow> canvas_ev \<Rightarrow> 'p canvas \<Rightarrow> 'p canvas" where
  "canvas_handle api n (Cv_wheel m dy) v = v\<lparr>cv_chart := map_option (onwheel api m dy) (cv_chart v)\<rparr>"
| "canvas_handle api n (Cv_down button m) v =
     (case cv_chart v of None \<Rightarrow> v | Some c \<Rightarrow> v\<lparr>cv_drag := onmousedown api button m c (cv_drag v)\<rparr>)"
| "canvas_handle api n (Cv_move m) v = v\<lparr>cv_chart := map_option (onmousemove api (cv_drag v) m) (cv_chart v)\<rparr>"
| "canvas_handle api n Cv_up v = v\<lparr>cv_drag := onmouseup (cv_drag v)\<rparr>"
| "canvas_handle api n (Cv_cursor cu) v = (if cv_inst v = None then v else v\<lparr>cv_tip := onMove n cu (cv_tip v)\<rparr>)"
| "canvas_handle api n Cv_leave v = (if cv_inst v = None then v else v\<lparr>cv_tip := onLeave (cv_tip v)\<rparr>)"
| "canvas_handle api n (Cv_resize w) v = on_wrap_resize w v"

section \<open>The chart and its modal\<close>

text \<open>
  A chart: its props, its canvas, the canvas in the modal while \<open>modalOpen\<close>, and the canvases
  of modals that were closed. A click on the inner box of the modal stops there.
\<close>

record ('p, 'r) chart_box =
  bx_props :: 'r
  bx_small :: "'p canvas"
  bx_modal :: "'p canvas option"
  bx_gone :: "'p canvas list"

definition box_mount :: "('p, 'r) canvas_code \<Rightarrow> 'r \<Rightarrow> nat \<times> nat \<Rightarrow> ('p, 'r) chart_box" where
  "box_mount cc r wrap = \<lparr>bx_props = r, bx_small = canvas_mount cc r wrap, bx_modal = None, bx_gone = []\<rparr>"

definition box_props :: "('p, 'r) canvas_code \<Rightarrow> 'r \<Rightarrow> ('p, 'r) chart_box \<Rightarrow> ('p, 'r) chart_box" where
  "box_props cc r b = b\<lparr>bx_props := r, bx_small := canvas_update cc (bx_props b) r (bx_small b),
     bx_modal := map_option (canvas_update cc (bx_props b) r) (bx_modal b)\<rparr>"

definition open_modal :: "('p, 'r) canvas_code \<Rightarrow> nat \<times> nat \<Rightarrow> ('p, 'r) chart_box \<Rightarrow> ('p, 'r) chart_box" where
  "open_modal cc wrap b = (if bx_modal b = None then b\<lparr>bx_modal := Some (canvas_mount cc (bx_props b) wrap)\<rparr> else b)"

definition close_modal :: "('p, 'r) chart_box \<Rightarrow> ('p, 'r) chart_box" where
  "close_modal b = (case bx_modal b of None \<Rightarrow> b
     | Some v \<Rightarrow> b\<lparr>bx_modal := None, bx_gone := canvas_unmount v # bx_gone b\<rparr>)"

datatype 'r box_ev =
    Bx_props 'r
  | Bx_expand "nat \<times> nat"
  | Bx_backdrop
  | Bx_inside
  | Bx_close
  | Bx_small canvas_ev
  | Bx_modal canvas_ev

fun box_handle :: "'p uplot \<Rightarrow> ('p, 'r) canvas_code \<Rightarrow> 'r box_ev \<Rightarrow> ('p, 'r) chart_box \<Rightarrow> ('p, 'r) chart_box" where
  "box_handle api cc (Bx_props r) b = box_props cc r b"
| "box_handle api cc (Bx_expand wrap) b = open_modal cc wrap b"
| "box_handle api cc Bx_backdrop b = close_modal b"
| "box_handle api cc Bx_inside b = b"
| "box_handle api cc Bx_close b = close_modal b"
| "box_handle api cc (Bx_small e) b = b\<lparr>bx_small := canvas_handle api (cc_length cc (bx_props b)) e (bx_small b)\<rparr>"
| "box_handle api cc (Bx_modal e) b =
     b\<lparr>bx_modal := map_option (canvas_handle api (cc_length cc (bx_props b)) e) (bx_modal b)\<rparr>"

definition box_unmount :: "('p, 'r) chart_box \<Rightarrow> ('p, 'r) chart_box" where
  "box_unmount b = (close_modal b)\<lparr>bx_small := canvas_unmount (bx_small b)\<rparr>"

text \<open>What a chart shows around its canvases: the button, the modal with its legend, the tooltips.\<close>

record modal_view =
  mo_title :: string
  mo_legend :: "(string \<times> string) list"
  mo_tip :: "tip_view option"

record chart_view =
  ch_button :: string
  ch_tip :: "tip_view option"
  ch_modal :: "modal_view option"

definition expand_title :: string where
  "expand_title = [CHR 0xED, CHR 0x81, CHR 0xAC, CHR 0xEA, CHR 0xB2, CHR 0x8C, CHR 0x20,
     CHR 0xEB, CHR 0xB3, CHR 0xB4, CHR 0xEA, CHR 0xB8, CHR 0xB0]"

definition LatencyChart :: "calendar \<Rightarrow> ('p, flagged list \<times> bool) chart_box \<Rightarrow> chart_view" where
  "LatencyChart cal b =
     (let pts = map fst (fst (bx_props b))
      in \<lparr>ch_button = expand_title, ch_tip = Tooltip cal (cv_tip (bx_small b)) pts,
          ch_modal = map_option (\<lambda>v. \<lparr>mo_title = ''Latency'', mo_legend = map (\<lambda>s. (se_stroke s, se_label s)) SERIES,
            mo_tip = Tooltip cal (cv_tip v) pts\<rparr>) (bx_modal b)\<rparr>)"

definition ResourceChart :: "calendar \<Rightarrow> ('p, ResourcePoint list) chart_box \<Rightarrow> chart_view" where
  "ResourceChart cal b =
     (let pts = bx_props b
      in \<lparr>ch_button = expand_title, ch_tip = res_Tooltip cal (cv_tip (bx_small b)) pts,
          ch_modal = map_option (\<lambda>v. \<lparr>mo_title = ''Resource'',
            mo_legend = map (\<lambda>(s, _). (se_stroke s, se_label s)) RES_SERIES,
            mo_tip = res_Tooltip cal (cv_tip v) pts\<rparr>) (bx_modal b)\<rparr>)"

section \<open>Ownership of plots\<close>

definition idle :: "'p canvas \<Rightarrow> bool" where
  "idle v \<longleftrightarrow> cv_chart v = None \<and> cv_inst v = None \<and> cv_created v = cv_destroyed v \<and> cv_listeners v = 2 * cv_created v"

definition owns_one :: "'p canvas \<Rightarrow> bool" where
  "owns_one v \<longleftrightarrow> cv_chart v \<noteq> None \<and> cv_inst v = Some (cv_created v) \<and> cv_created v = Suc (cv_destroyed v) \<and>
     cv_listeners v = 2 * cv_created v \<and> 0 < fst (cv_size v) \<and> 0 < snd (cv_size v)"

definition plots_times :: "'p uplot \<Rightarrow> number list \<Rightarrow> 'p canvas \<Rightarrow> bool" where
  "plots_times api ts v \<longleftrightarrow> (\<exists>c. cv_chart v = Some c \<and> u_xs api (plot c) = ts)"

text \<open>A canvas at work: one live plot, of positive size, known to the tooltip, with the given times.\<close>

definition canvas_ok :: "'p uplot \<Rightarrow> number list \<Rightarrow> 'p canvas \<Rightarrow> bool" where
  "canvas_ok api ts v \<longleftrightarrow> owns_one v \<and> plots_times api ts v"

definition box_canvases :: "('p, 'r) chart_box \<Rightarrow> 'p canvas list" where
  "box_canvases b = bx_small b # (case bx_modal b of None \<Rightarrow> [] | Some v \<Rightarrow> [v]) @ bx_gone b"

definition box_ok :: "'p uplot \<Rightarrow> ('r \<Rightarrow> number list) \<Rightarrow> ('p, 'r) chart_box \<Rightarrow> bool" where
  "box_ok api xs_of b \<longleftrightarrow> canvas_ok api (xs_of (bx_props b)) (bx_small b) \<and>
     pred_option (canvas_ok api (xs_of (bx_props b))) (bx_modal b) \<and> list_all idle (bx_gone b)"

definition live_plots :: "('p, 'r) chart_box \<Rightarrow> nat" where
  "live_plots b = length (filter (\<lambda>v. cv_chart v \<noteq> None) (box_canvases b))"

definition window_listeners :: "('p, 'r) chart_box \<Rightarrow> nat" where
  "window_listeners b = sum_list (map cv_listeners (box_canvases b))"

definition plots_made :: "('p, 'r) chart_box \<Rightarrow> nat" where
  "plots_made b = sum_list (map cv_created (box_canvases b))"

definition create_ok :: "'p uplot \<Rightarrow> (plot_opts \<Rightarrow> number list list \<Rightarrow> 'p) \<Rightarrow> bool" where
  "create_ok api create \<longleftrightarrow> (\<forall>opts d. d \<noteq> [] \<longrightarrow> u_xs api (create opts d) = hd d)"

lemmas canvas_defs = idle_def owns_one_def plots_times_def canvas_ok_def

lemma idle_stop_plot: "owns_one v \<Longrightarrow> idle (stop_plot v)"
  by (auto simp: canvas_defs stop_plot_def destroy_def)

lemma idle_canvas0: "idle (canvas0 wrap)"
  by (simp add: idle_def canvas0_def)

lemma wrap_size_pos: "0 < fst (wrap_size w)" "0 < snd (wrap_size w)"
  by (simp_all add: wrap_size_def)

lemma owns_one_new_plot: "idle v \<Longrightarrow> 0 < fst sz \<Longrightarrow> 0 < snd sz \<Longrightarrow> owns_one (new_plot u sz v)"
  by (simp add: canvas_defs new_plot_def)

lemma destroy_idle: "idle v \<Longrightarrow> destroy v = v"
  by (simp add: idle_def destroy_def)

lemma owns_one_give_data: "owns_one v \<Longrightarrow> owns_one (give_data api d v)"
  by (auto simp: canvas_defs give_data_def)

lemma plots_times_give_data:
  assumes "uplot_ok api" "d \<noteq> []" "owns_one v"
  shows "plots_times api (hd d) (give_data api d v)"
  using assms by (auto simp: canvas_defs give_data_def applyData_def setScaleX_def uplot_ok_def Let_def)

lemma stop_plot_counts [simp]: "cv_created (stop_plot v) = cv_created v" "cv_listeners (stop_plot v) = cv_listeners v"
  by (simp_all add: stop_plot_def destroy_def split: option.split)

lemma xs_interaction:
  assumes "uplot_ok api"
  shows "u_xs api (plot (onwheel api m dy c)) = u_xs api (plot c)" "u_xs api (plot (onmousemove api d m c)) = u_xs api (plot c)"
  using setScaleX_plot(3) [OF assms] setScaleX_NaN_plot [OF assms]
  by (simp_all add: onwheel_def onmousemove_def Let_def split: prod.split option.split)

lemma canvas_ok_handle:
  assumes "uplot_ok api" "canvas_ok api ts v"
  shows "canvas_ok api ts (canvas_handle api n e v)"
  using assms(2) by (cases e) (auto simp: canvas_defs on_wrap_resize_def Let_def xs_interaction [OF assms(1)])

text \<open>What the chart relies on of the code of its canvas.\<close>

locale plot_canvas =
  fixes api :: "'p uplot" and cc :: "('p, 'r) canvas_code" and xs_of :: "'r \<Rightarrow> number list" and lib_ok :: bool
  assumes library: "lib_ok \<Longrightarrow> uplot_ok api"
    and rebuild_owns: "idle v \<Longrightarrow> 0 < fst sz \<Longrightarrow> 0 < snd sz \<Longrightarrow> owns_one (cc_rebuild cc r sz v)"
    and rebuild_times: "lib_ok \<Longrightarrow> plots_times api (xs_of r) (cc_rebuild cc r sz v)"
    and feed_owns: "owns_one v \<Longrightarrow> owns_one (cc_feed cc r v)"
    and feed_times: "lib_ok \<Longrightarrow> owns_one v \<Longrightarrow> plots_times api (xs_of r) (cc_feed cc r v)"
    and same_times: "\<not> cc_feeds cc old new \<Longrightarrow> xs_of old = xs_of new"
begin

lemma restart_ok: "lib_ok \<Longrightarrow> idle v \<Longrightarrow> canvas_ok api (xs_of r) (start_plot cc r v)"
  unfolding start_plot_def canvas_ok_def by (intro conjI rebuild_owns rebuild_times wrap_size_pos)

lemma feed_ok: "lib_ok \<Longrightarrow> canvas_ok api ts v \<Longrightarrow> canvas_ok api (xs_of r) (cc_feed cc r v)"
  unfolding canvas_ok_def by (intro conjI feed_owns feed_times) simp_all

lemma mount_ok: "lib_ok \<Longrightarrow> canvas_ok api (xs_of r) (canvas_mount cc r wrap)"
  unfolding canvas_mount_def by (rule feed_ok [OF _ restart_ok [OF _ idle_canvas0]])

lemma update_ok:
  assumes "lib_ok" "canvas_ok api (xs_of old) v"
  shows "canvas_ok api (xs_of new) (canvas_update cc old new v)"
proof -
  let ?v = "if cc_restarts cc old new then start_plot cc new (stop_plot v) else v"
  have "idle (stop_plot v)" using assms(2) by (simp add: canvas_ok_def idle_stop_plot)
  then have s: "canvas_ok api (xs_of new) (start_plot cc new (stop_plot v))" using assms(1) by (intro restart_ok)
  show ?thesis
  proof (cases "cc_feeds cc old new")
    case True
    then show ?thesis using s assms feed_ok [of _ ?v] by (auto simp: canvas_update_def Let_def)
  next
    case False
    then show ?thesis using s assms(2) same_times by (auto simp: canvas_update_def Let_def)
  qed
qed

lemma handle_ok:
  assumes "lib_ok" "box_ok api xs_of b"
  shows "box_ok api xs_of (box_handle api cc e b)"
proof (cases e)
  case (Bx_expand wrap)
  then show ?thesis using assms mount_ok by (simp add: box_ok_def open_modal_def)
qed (use assms canvas_ok_handle [OF library] update_ok idle_stop_plot in
  \<open>auto simp: box_ok_def box_props_def close_modal_def canvas_unmount_def canvas_ok_def option.pred_set split: option.splits\<close>)

lemma run_ok:
  assumes "lib_ok"
  shows "box_ok api xs_of (fold (box_handle api cc) es (box_mount cc r wrap))"
proof -
  have "box_ok api xs_of (box_mount cc r wrap)" using mount_ok [OF assms] by (simp add: box_ok_def box_mount_def)
  then show ?thesis by (induction es arbitrary: r wrap rule: rev_induct) (simp_all add: handle_ok assms)
qed

end

lemma box_counts:
  assumes "box_ok api xs_of b"
  shows "live_plots b = (if bx_modal b = None then 1 else 2)" "window_listeners b = 2 * plots_made b"
proof -
  have gone: "filter (\<lambda>v. cv_chart v \<noteq> None) (bx_gone b) = []"
    using assms by (auto simp: box_ok_def list_all_iff idle_def filter_empty_conv)
  show "live_plots b = (if bx_modal b = None then 1 else 2)"
    using assms gone by (auto simp: live_plots_def box_canvases_def box_ok_def canvas_defs)
  have "cv_listeners v = 2 * cv_created v" if "v \<in> set (box_canvases b)" for v
    using that assms by (cases "bx_modal b") (auto simp: box_canvases_def box_ok_def canvas_defs list_all_iff)
  then have "map cv_listeners (box_canvases b) = map (\<lambda>v. 2 * cv_created v) (box_canvases b)" by simp
  then show "window_listeners b = 2 * plots_made b"
    unfolding window_listeners_def plots_made_def by (simp only: sum_list_const_mult)
qed

lemma box_unmounted:
  assumes "box_ok api xs_of b"
  shows "list_all idle (box_canvases (box_unmount b))" "plots_made (box_unmount b) = plots_made b"
    "window_listeners (box_unmount b) = window_listeners b"
proof -
  have idle: "idle (stop_plot (bx_small b))" "\<And>v. bx_modal b = Some v \<Longrightarrow> idle (stop_plot v)"
    using assms by (auto simp: box_ok_def canvas_ok_def idle_stop_plot)
  have cs: "box_canvases (box_unmount b) =
      stop_plot (bx_small b) # (case bx_modal b of None \<Rightarrow> [] | Some v \<Rightarrow> [stop_plot v]) @ bx_gone b"
    by (simp add: box_unmount_def box_canvases_def close_modal_def canvas_unmount_def split: option.split)
  show "list_all idle (box_canvases (box_unmount b))"
    unfolding cs using assms idle by (simp add: box_ok_def split: option.split)
  show "plots_made (box_unmount b) = plots_made b" "window_listeners (box_unmount b) = window_listeners b"
    unfolding plots_made_def window_listeners_def cs by (simp_all add: box_canvases_def split: option.split)
qed

section \<open>The two charts\<close>

abbreviation latency_times :: "flagged list \<times> bool \<Rightarrow> number list" where
  "latency_times r \<equiv> map (secs \<circ> fst) (fst r)"

abbreviation resource_times :: "ResourcePoint list \<Rightarrow> number list" where
  "resource_times r \<equiv> map res_secs r"

interpretation latency: plot_canvas api "latency_code api create cal" latency_times "uplot_ok api \<and> create_ok api create"
  for api :: "'p uplot" and create cal
proof
  fix v :: "'p canvas" and sz :: "nat \<times> nat" and r
  let ?cc = "latency_code api create cal"
  assume idle: "idle v" "0 < fst sz" "0 < snd sz"
  show "owns_one (cc_rebuild ?cc r sz v)" using owns_one_new_plot [OF idle] idle
    by (simp add: latency_code_def rebuild_def destroy_idle owns_one_def Let_def)
next
  fix v :: "'p canvas" and sz r
  assume "uplot_ok api \<and> create_ok api create"
  then show "plots_times api (latency_times r) (cc_rebuild (latency_code api create cal) r sz v)"
    by (simp add: latency_code_def rebuild_def new_plot_def plots_times_def create_ok_def toUPlotData_def Let_def)
next
  fix v :: "'p canvas" and r
  assume "uplot_ok api \<and> create_ok api create" "owns_one v"
  then show "plots_times api (latency_times r) (cc_feed (latency_code api create cal) r v)"
    using plots_times_give_data [of api "toUPlotData (map fst (fst r))" v]
    by (simp add: latency_code_def on_points_def toUPlotData_def)
qed (auto simp: latency_code_def on_points_def owns_one_give_data)

interpretation resource: plot_canvas api "resource_code api create cal" resource_times "uplot_ok api \<and> create_ok api create"
  for api :: "'p uplot" and create cal
proof
  fix v :: "'p canvas" and sz r
  assume "uplot_ok api \<and> create_ok api create"
  then show "plots_times api (resource_times r) (cc_rebuild (resource_code api create cal) r sz v)"
    by (simp add: resource_code_def res_rebuild_def new_plot_def plots_times_def create_ok_def res_toUPlotData_def)
next
  fix v :: "'p canvas" and r
  assume "uplot_ok api \<and> create_ok api create" "owns_one v"
  then show "plots_times api (resource_times r) (cc_feed (resource_code api create cal) r v)"
    using plots_times_give_data [of api "res_toUPlotData r" v]
    by (simp add: resource_code_def res_on_points_def res_toUPlotData_def)
qed (auto simp: resource_code_def res_rebuild_def res_on_points_def owns_one_give_data destroy_idle intro: owns_one_new_plot)

text \<open>
  The whole contract of a chart: the state in use, the number of live plots, and what is left
  after unmounting: no live plot, but every listener that was added to the window.
\<close>

definition box_sound :: "'p uplot \<Rightarrow> ('r \<Rightarrow> number list) \<Rightarrow> ('p, 'r) chart_box \<Rightarrow> bool" where
  "box_sound api xs_of b \<longleftrightarrow> box_ok api xs_of b \<and> live_plots b = (if bx_modal b = None then 1 else 2) \<and>
     live_plots (box_unmount b) = 0 \<and> plots_made (box_unmount b) = plots_made b \<and>
     window_listeners (box_unmount b) = 2 * plots_made b"

lemma box_soundI: "box_ok api xs_of b \<Longrightarrow> box_sound api xs_of b"
  using box_unmounted [of api xs_of b] box_counts [of api xs_of b]
  by (auto simp: box_sound_def live_plots_def list_all_iff idle_def filter_empty_conv)

text \<open>
  C32: a chart owns exactly the plots it shows. Whatever props arrive, however the modal is
  opened and closed, the window resized and the plots zoomed, dragged and hovered, in either
  chart: there is one live plot in the page and one more exactly while the modal is open; each
  holds the times of the current history, has a positive size and is the plot its tooltip
  listens to; every other plot that was made has been destroyed. Unmounting destroys the live
  ones too. The two listeners that each plot adds to the window, however, are never removed:
  after unmounting there are still two for every plot ever made.
\<close>

theorem canvas_one_plot:
  assumes "uplot_ok api" "create_ok api create"
  shows "box_sound api latency_times (fold (box_handle api (latency_code api create cal)) es
      (box_mount (latency_code api create cal) r wrap)) \<and>
    box_sound api resource_times (fold (box_handle api (resource_code api create cal)) es'
      (box_mount (resource_code api create cal) r' wrap'))"
  using latency.run_ok resource.run_ok assms by (intro conjI box_soundI) blast+

text \<open>
  The bands are computed when the spike flag changes and not when data arrives: while
  the flag stays the same, new points leave the shading as it was.
\<close>

lemma bands_not_refreshed:
  "snd old = snd new \<longrightarrow> cv_bands (canvas_update (latency_code api create cal) old new v) = cv_bands v"
  by (simp add: canvas_update_def latency_code_def on_points_def give_data_def Let_def split: option.split)

text \<open>
  The tooltip tells the point under the cursor, and hides when the cursor has no point or
  leaves; an index left over from a longer history shows nothing.
\<close>

lemma show_tip_hovered:
  "show_tip time_of rows (onMove (length pts) cu t) pts =
    (case cu_idx cu of None \<Rightarrow> None
     | Some i \<Rightarrow> if 0 \<le> i \<and> i < int (length pts)
         then Some \<lparr>tv_left = fadd (fadd (cu_rect_left cu) (nullish (cu_left cu) 0)) 12,
           tv_top = fadd (cu_rect_top cu) (fdiv (cu_bbox_top cu) (cu_dpr cu)),
           tv_time = time_of (pts ! nat i), tv_rows = rows (pts ! nat i)\<rparr>
         else None)"
  "show_tip time_of rows (onLeave t) pts = None"
  "tip_idx t = Some i \<Longrightarrow> length pts \<le> i \<Longrightarrow> show_tip time_of rows t pts = None"
  by (auto simp: show_tip_def onMove_def onLeave_def tip_hidden_def split: option.splits if_splits)

lemma latency_rows_values:
  "map (snd \<circ> snd) (latency_rows p) = map fmtUs [hp_avg_us p, hp_p50_us p, hp_p95_us p, hp_p99_us p]"
  "map fst (latency_rows p) = [''AVG'', ''P50'', ''P95'', ''P99'']"
  by (simp_all add: latency_rows_def SERIES_def)

section \<open>Concrete instances\<close>

definition plain_create :: "plot_opts \<Rightarrow> number list list \<Rightarrow> number list \<times> number \<times> number" where
  "plain_create opts d = (hd d, 0, 1)"

definition plain_calendar :: calendar where
  "plain_calendar = \<lparr>cal_hhmm = (\<lambda>_. ''00:00''), cal_month_day = (\<lambda>_. (0, 1)), cal_clock = (\<lambda>_. ''00:00:00'')\<rparr>"

lemma plain_create_ok: "create_ok plain_plot plain_create"
  by (simp add: create_ok_def plain_create_def plain_plot_def)

theorem canvas_one_plot_witness:
  "box_sound plain_plot latency_times (fold (box_handle plain_plot (latency_code plain_plot plain_create plain_calendar))
      [Bx_expand (800, 600), Bx_props ([(pt 2000, False)], True), Bx_close]
      (box_mount (latency_code plain_plot plain_create plain_calendar) ([], False) (0, 0)))"
  using canvas_one_plot [OF plain_plot_ok plain_create_ok] by blast

end
