(* ===== verification/TopologyGraph.thy ===== *)
theory TopologyGraph
  imports TopoGraph HeatmapMatrix
begin

text \<open>
  \<open>components/TopologyGraph.tsx\<close>: the topology drawn with React Flow, which the application
  does not mount at present. The state is the nodes and edges handed to the library, the
  dependency of the node effect and the flag of the first fit. The library reports what the
  user does to nodes and edges to \<open>onNodesChange\<close> and \<open>onEdgesChange\<close>, which are the library's
  own: the change is the argument of the events \<open>Nodes_change\<close> and \<open>Edges_change\<close>. A drag moves
  a node, a click selects, the delete key removes; nodes and edges are not added,
  since the component allows no new connections, and an edge keeps its ends. The text of a bare number and the
  trigonometric functions are arguments.
\<close>

section \<open>Edges\<close>

definition formatLatency :: "(number \<Rightarrow> string) \<Rightarrow> number \<Rightarrow> string" where
  "formatLatency show_number us =
     (if us \<ge> 1000 then toFixed 1 (fdiv us 1000) @ ''ms'' else show_number us @ micro @ ''s'')"

definition edgeColor :: "StatSnapshot \<Rightarrow> string" where
  "edgeColor snap =
     (if is_spike snap then ''#ef4444''
      else if p99_us snap > 10000 then ''#f97316''
      else if p99_us snap > 1000 then ''#eab308''
      else ''#22c55e'')"

record flow_edge =
  fe_id :: string
  fe_source :: string
  fe_target :: string
  fe_animated :: bool
  fe_label :: string
  fe_color :: string
  fe_width :: nat
  fe_data :: StatSnapshot

definition flow_edges :: "(number \<Rightarrow> string) \<Rightarrow> SnapshotMap \<Rightarrow> flow_edge list" where
  "flow_edges show_number snapshots =
     map (\<lambda>(key, snap). \<lparr>fe_id = key, fe_source = src_service snap, fe_target = dst_service snap,
       fe_animated = is_spike snap, fe_label = formatLatency show_number (p50_us snap), fe_color = edgeColor snap,
       fe_width = (if is_spike snap then 3 else 2), fe_data = snap\<rparr>) snapshots"

section \<open>Layout\<close>

text \<open>\<open>xs.forEach((svc, i) => { positions[svc] = f(i) })\<close>\<close>

fun put_each :: "(nat \<Rightarrow> pos) \<Rightarrow> nat \<Rightarrow> string list \<Rightarrow> pos obj \<Rightarrow> pos obj" where
  "put_each f i [] ps = ps"
| "put_each f i (svc # svcs) ps = put_each f (Suc i) svcs (obj_put svc (f i) ps)"

definition circle_radius :: "nat \<Rightarrow> number" where
  "circle_radius n = max 130 (of_nat (n * 55))"

definition circle_pos :: "(number \<Rightarrow> number) \<Rightarrow> (number \<Rightarrow> number) \<Rightarrow> nat \<Rightarrow> nat \<Rightarrow> pos" where
  "circle_pos fcos fsin n i =
     (let r = circle_radius n;
          angle = fsub (fdiv (fmul (fmul 2 MATH_PI) (of_nat i)) (of_nat n)) (fdiv MATH_PI 2)
      in \<lparr>px = fadd 400 (fmul r (fcos angle)), py = fadd 220 (fmul r (fsin angle))\<rparr>)"

definition row_pos :: "nat \<Rightarrow> nat \<Rightarrow> nat \<Rightarrow> pos" where
  "row_pos n m i =
     \<lparr>px = fadd (fsub 400 (fdiv (fmul (of_nat m - 1) 200) 2)) (fmul (of_nat i) 200),
      py = fadd (fadd 220 (circle_radius n)) 180\<rparr>"

definition layoutNodes ::
  "(number \<Rightarrow> number) \<Rightarrow> (number \<Rightarrow> number) \<Rightarrow> string list \<Rightarrow> string list \<Rightarrow> pos obj" where
  "layoutNodes fcos fsin inner outer =
     put_each (row_pos (length inner) (length outer)) 0 outer
       (put_each (circle_pos fcos fsin (length inner)) 0 inner [])"

section \<open>Nodes\<close>

definition typed_endpoints :: "StatSnapshot \<Rightarrow> (string \<times> NodeType) list" where
  "typed_endpoints snap = [(src_service snap, src_type snap), (dst_service snap, dst_type snap)]"

definition services_of :: "NodeType \<Rightarrow> SnapshotMap \<Rightarrow> string list" where
  "services_of t snapshots =
     set_adds (map fst (filter (\<lambda>x. snd x = t) (concat (map typed_endpoints (obj_values snapshots))))) []"

record flow_node =
  fn_id :: string
  fn_position :: pos
  fn_label :: string
  fn_internal :: bool

record flow_state =
  fl_nodes :: "flow_node list"
  fl_edges :: "flow_edge list"
  fl_key :: "string option"
  initialFitDone :: bool
  fl_fits :: nat

definition flow_init :: flow_state where
  "flow_init = \<lparr>fl_nodes = [], fl_edges = [], fl_key = None, initialFitDone = False, fl_fits = 0\<rparr>"

text \<open>\<open>existingPositions[svc] ?? newPositions[svc]\<close>, for the services in order.\<close>

definition existingPositions :: "flow_node list \<Rightarrow> pos obj" where
  "existingPositions prev = obj_puts (map (\<lambda>n. (fn_id n, fn_position n)) prev) []"

definition nextNodes ::
  "(number \<Rightarrow> number) \<Rightarrow> (number \<Rightarrow> number) \<Rightarrow> SnapshotMap \<Rightarrow> flow_node list \<Rightarrow> flow_node list" where
  "nextNodes fcos fsin snapshots prev =
     (let inner = services_of Internal snapshots; outer = services_of External snapshots;
          old = existingPositions prev; new = layoutNodes fcos fsin inner outer
      in map (\<lambda>svc. \<lparr>fn_id = svc, fn_position = nullish (obj_get old svc) (the (obj_get new svc)), fn_label = svc,
           fn_internal = svc \<in> set inner\<rparr>) (inner @ outer))"

definition ids_key :: "string list \<Rightarrow> string" where
  "ids_key ids = join '','' (sort_strings ids)"

text \<open>The updater of \<open>setNodes\<close>, with the fit that it schedules once.\<close>

definition update_nodes :: "(number \<Rightarrow> number) \<Rightarrow> (number \<Rightarrow> number) \<Rightarrow> SnapshotMap \<Rightarrow> flow_state \<Rightarrow> flow_state" where
  "update_nodes fcos fsin snapshots st =
     (if ids_key (map fn_id (fl_nodes st)) =
         ids_key (services_of Internal snapshots @ services_of External snapshots) then st
      else (let next = nextNodes fcos fsin snapshots (fl_nodes st);
                fit = (\<not> initialFitDone st \<and> next \<noteq> [])
            in st\<lparr>fl_nodes := next, initialFitDone := initialFitDone st \<or> fit,
                  fl_fits := fl_fits st + (if fit then 1 else 0)\<rparr>))"

text \<open>A render with new snapshots: the edge effect, and the node effect when the keys changed.\<close>

definition flow_render ::
  "(number \<Rightarrow> string) \<Rightarrow> (number \<Rightarrow> number) \<Rightarrow> (number \<Rightarrow> number) \<Rightarrow> SnapshotMap \<Rightarrow> flow_state \<Rightarrow> flow_state" where
  "flow_render show_number fcos fsin snapshots st =
     (let st' = st\<lparr>fl_edges := flow_edges show_number snapshots\<rparr>; key = ids_key (obj_keys snapshots)
      in if fl_key st = Some key then st'
         else update_nodes fcos fsin snapshots (st'\<lparr>fl_key := Some key\<rparr>))"

definition hasExternal :: "SnapshotMap \<Rightarrow> bool" where
  "hasExternal snapshots \<longleftrightarrow> list_ex (\<lambda>s. src_type s = External \<or> dst_type s = External) (obj_values snapshots)"

text \<open>What a click reports.\<close>

definition onEdgeClick :: "flow_edge \<Rightarrow> string option" where
  "onEdgeClick e = Some (fe_id e)"

definition onPaneClick :: "string option" where
  "onPaneClick = None"

datatype flow_event =
    Data SnapshotMap
  | Nodes_change "flow_node list \<Rightarrow> flow_node list"
  | Edges_change "flow_edge list \<Rightarrow> flow_edge list"

fun flow_handle ::
  "(number \<Rightarrow> string) \<Rightarrow> (number \<Rightarrow> number) \<Rightarrow> (number \<Rightarrow> number) \<Rightarrow> flow_event \<Rightarrow> flow_state \<Rightarrow> flow_state" where
  "flow_handle show_number fcos fsin (Data snapshots) st = flow_render show_number fcos fsin snapshots st"
| "flow_handle show_number fcos fsin (Nodes_change change) st = st\<lparr>fl_nodes := change (fl_nodes st)\<rparr>"
| "flow_handle show_number fcos fsin (Edges_change change) st = st\<lparr>fl_edges := change (fl_edges st)\<rparr>"

section \<open>The nodes follow the connections\<close>

definition endpoints :: "SnapshotMap \<Rightarrow> string set" where
  "endpoints m = src_service ` set (obj_values m) \<union> dst_service ` set (obj_values m)"

text \<open>
  Names that the joined texts keep apart, snapshots under their own keys, and no service that
  is internal for one connection and external for another.
\<close>

definition plain_name :: "string \<Rightarrow> bool" where
  "plain_name n \<longleftrightarrow> n \<noteq> [] \<and> CHR 0x2C \<notin> set n \<and> no_arrow n"

definition flow_ok :: "SnapshotMap \<Rightarrow> bool" where
  "flow_ok m \<longleftrightarrow> keyed m \<and> list_all (\<lambda>s. plain_name (src_service s) \<and> plain_name (dst_service s)) (obj_values m) \<and>
     set (services_of Internal m) \<inter> set (services_of External m) = {}"

text \<open>
  Nodes for services of the data only, each at most once; edges for connections of the data
  only, each at most once and between its two services.
\<close>

definition nodes_ok :: "SnapshotMap \<Rightarrow> flow_state \<Rightarrow> bool" where
  "nodes_ok m st \<longleftrightarrow> distinct (map fn_id (fl_nodes st)) \<and> set (map fn_id (fl_nodes st)) \<subseteq> endpoints m"

definition all_nodes :: "SnapshotMap \<Rightarrow> flow_state \<Rightarrow> bool" where
  "all_nodes m st \<longleftrightarrow> distinct (map fn_id (fl_nodes st)) \<and> set (map fn_id (fl_nodes st)) = endpoints m"

definition edge_ends :: "flow_edge \<Rightarrow> string \<times> string \<times> string" where
  "edge_ends e = (fe_id e, fe_source e, fe_target e)"

definition edges_ok :: "SnapshotMap \<Rightarrow> flow_state \<Rightarrow> bool" where
  "edges_ok m st \<longleftrightarrow> distinct (map fe_id (fl_edges st)) \<and>
     list_all (\<lambda>e. \<exists>s. obj_get m (fe_id e) = Some s \<and> fe_source e = src_service s \<and> fe_target e = dst_service s) (fl_edges st)"

lemma all_nodes_ok: "all_nodes m st \<Longrightarrow> nodes_ok m st"
  by (simp add: all_nodes_def nodes_ok_def)

lemma set_services_of: "set (services_of t m) = {n. \<exists>s \<in> set (obj_values m). (n, t) \<in> set (typed_endpoints s)}"
  by (force simp: services_of_def)

lemma services_of_endpoints: "set (services_of Internal m) \<union> set (services_of External m) = endpoints m"
proof (intro equalityI subsetI)
  fix n assume "n \<in> endpoints m"
  then obtain s t where "s \<in> set (obj_values m)" "(n, t) \<in> set (typed_endpoints s)"
    by (auto simp: endpoints_def typed_endpoints_def)
  then have "n \<in> set (services_of t m)" by (auto simp: set_services_of)
  then show "n \<in> set (services_of Internal m) \<union> set (services_of External m)" by (cases t) simp_all
next
  fix n assume "n \<in> set (services_of Internal m) \<union> set (services_of External m)"
  then show "n \<in> endpoints m" by (auto simp: set_services_of endpoints_def typed_endpoints_def)
qed

lemma distinct_services_of: "distinct (services_of t m)"
  by (simp add: services_of_def)

lemma ids_key_inj:
  assumes "plain_for CHR 0x2C xs" "plain_for CHR 0x2C ys" "ids_key xs = ids_key ys"
  shows "set xs = set ys"
proof -
  have "sort_strings xs = sort_strings ys"
    using assms by (intro join_inj [of "CHR 0x2C"]) (auto simp: ids_key_def plain_for_def list_all_iff)
  then show ?thesis by (metis set_sort_strings)
qed

text \<open>Conversely the joined text depends on the set of names only.\<close>

lemma sorted_strings_unique:
  assumes "sorted_wrt str_le xs" "sorted_wrt str_le ys" "distinct xs" "distinct ys" "set xs = set ys"
  shows "xs = ys"
  using assms
proof (induction xs arbitrary: ys)
  case (Cons x xs)
  then obtain y zs where ys: "ys = y # zs" by (cases ys) auto
  have "x \<in> insert y (set zs)" "y \<in> insert x (set xs)" using Cons.prems(5) by (auto simp: ys)
  moreover have "\<forall>z \<in> set xs. str_le x z" "\<forall>z \<in> set zs. str_le y z" using Cons.prems(1,2) by (simp_all add: ys)
  ultimately have "x = y" using str_le_antisym [of x y] by blast
  then have "set xs = set zs" using Cons.prems(3-5) by (auto simp: ys)
  then show ?case using Cons \<open>x = y\<close> by (simp add: ys)
qed simp

lemma ids_key_cong: "distinct xs \<Longrightarrow> distinct ys \<Longrightarrow> set xs = set ys \<Longrightarrow> ids_key xs = ids_key ys"
  unfolding ids_key_def using sorted_strings_unique [of "sort_strings xs" "sort_strings ys"]
  by (simp add: sort_strings_sorted)

lemma plain_endpoints:
  assumes "flow_ok m" "set xs \<subseteq> endpoints m" shows "plain_for CHR 0x2C xs"
proof -
  have "plain_name x" if "x \<in> endpoints m" for x
    using that assms(1) by (auto simp: flow_ok_def endpoints_def list_all_iff)
  with assms(2) have "list_all plain_name xs" by (auto simp: list_all_iff)
  then show ?thesis by (auto simp: plain_for_def plain_name_def list_all_iff)
qed

lemma plain_keys:
  assumes "flow_ok m" shows "plain_for CHR 0x2C (obj_keys m)"
proof -
  have "obj_keys m = map snapKey (obj_values m)"
    using assms unfolding flow_ok_def keyed_def obj_all_def obj_keys_def obj_values_def
    by (auto simp: list_all_iff)
  then show ?thesis using assms
    by (auto simp: flow_ok_def plain_for_def plain_name_def list_all_iff snapKey_def connKey_def arrow_def)
qed

text \<open>The keys determine the endpoints.\<close>

lemma keys_endpoints:
  assumes "flow_ok m" "flow_ok m'" "set (obj_keys m) = set (obj_keys m')"
  shows "endpoints m \<subseteq> endpoints m'"
proof -
  have same: "\<exists>s' \<in> set (obj_values m'). src_service s' = src_service s \<and> dst_service s' = dst_service s"
    if s: "s \<in> set (obj_values m)" for s
  proof -
    obtain k where k: "obj_get m k = Some s"
      using s js_obj.vals_get [of m s] assms(1) by (auto simp: flow_ok_def keyed_def)
    then have "k \<in> set (obj_keys m')" using assms(3) js_obj.keys_get [of k m] by simp
    then obtain s' where s': "obj_get m' k = Some s'" using js_obj.keys_get [of k m'] by auto
    then have v: "s' \<in> set (obj_values m')"
      using js_obj.vals_get [of m' s'] assms(2) by (auto simp: flow_ok_def keyed_def)
    have "snapKey s = snapKey s'" using obj_all_get [OF _ k] obj_all_get [OF _ s'] assms(1,2)
      by (fastforce simp: flow_ok_def keyed_def)
    moreover have "no_arrow (src_service s)" "no_arrow (src_service s')"
      using s v assms(1,2) by (auto simp: flow_ok_def plain_name_def list_all_iff)
    ultimately show ?thesis using v by (auto simp: snapKey_def connKey_inj)
  qed
  have "{src_service s, dst_service s} \<subseteq> endpoints m'" if sv: "s \<in> set (obj_values m)" for s
  proof -
    obtain s' where "s' \<in> set (obj_values m')" "src_service s' = src_service s" "dst_service s' = dst_service s"
      using same [OF sv] by blast
    then show ?thesis by (metis endpoints_def UnCI empty_subsetI image_eqI insert_subset)
  qed
  then show ?thesis by (auto simp: endpoints_def [of m])
qed

lemma map_id_nextNodes: "map fn_id (nextNodes fcos fsin m prev) = services_of Internal m @ services_of External m"
  by (simp add: nextNodes_def Let_def comp_def)

lemma update_nodes_all:
  assumes "flow_ok m" "plain_for CHR 0x2C (map fn_id (fl_nodes st))" "distinct (map fn_id (fl_nodes st))"
  shows "all_nodes m (update_nodes fcos fsin m st)"
proof (cases "ids_key (map fn_id (fl_nodes st)) = ids_key (services_of Internal m @ services_of External m)")
  case True
  have "plain_for CHR 0x2C (services_of Internal m @ services_of External m)"
    by (rule plain_endpoints [OF assms(1)]) (simp add: services_of_endpoints)
  then have "set (map fn_id (fl_nodes st)) = set (services_of Internal m @ services_of External m)"
    by (rule ids_key_inj [OF assms(2) _ True])
  then show ?thesis using True assms(3) by (simp add: update_nodes_def all_nodes_def services_of_endpoints)
next
  case False
  then show ?thesis using assms(1)
    by (simp add: update_nodes_def Let_def all_nodes_def map_id_nextNodes services_of_endpoints distinct_services_of
        flow_ok_def del: map_eq_conv)
qed

lemma update_nodes_rest: "fl_key (update_nodes fcos fsin m st) = fl_key st" "fl_edges (update_nodes fcos fsin m st) = fl_edges st"
  by (simp_all add: update_nodes_def Let_def)

lemma flow_render_rest:
  "fl_key (flow_render show_number fcos fsin m st) = Some (ids_key (obj_keys m))"
  "fl_edges (flow_render show_number fcos fsin m st) = flow_edges show_number m"
  by (simp_all add: flow_render_def Let_def update_nodes_rest)

lemma flow_edges_ids: "map fe_id (flow_edges show_number m) = obj_keys m"
  by (simp add: flow_edges_def obj_keys_def comp_def case_prod_beta)

lemma flow_edges_ok:
  assumes "flow_ok m" "fl_edges st = flow_edges show_number m"
  shows "edges_ok m st"
proof -
  have w: "wf_obj m" using assms(1) by (simp add: flow_ok_def keyed_def)
  then have "obj_get m k = Some s" if "(k, s) \<in> set m" for k s
    using that by (simp add: obj_get_def wf_obj_def)
  then show ?thesis using w unfolding edges_ok_def assms(2) flow_edges_ids
    by (auto simp: flow_edges_def list_all_iff wf_obj_def obj_keys_def)
qed

text \<open>
  A render with sound data. When the keys of the connections are those of the last data, the nodes are left as
  they are; otherwise there is a node for every service.
\<close>

lemma same_keys:
  assumes "flow_ok m" "flow_ok m0"
  shows "ids_key (obj_keys m0) = ids_key (obj_keys m) \<longleftrightarrow> set (obj_keys m0) = set (obj_keys m)"
    "set (obj_keys m0) = set (obj_keys m) \<Longrightarrow> endpoints m0 = endpoints m"
proof -
  have "distinct (obj_keys m0)" "distinct (obj_keys m)"
    using assms js_obj.invar_keys by (auto simp: flow_ok_def keyed_def)
  then show "ids_key (obj_keys m0) = ids_key (obj_keys m) \<longleftrightarrow> set (obj_keys m0) = set (obj_keys m)"
    using ids_key_inj [OF plain_keys plain_keys, OF assms(2,1)] ids_key_cong by blast
  show "set (obj_keys m0) = set (obj_keys m) \<Longrightarrow> endpoints m0 = endpoints m"
    using keys_endpoints assms by (metis subset_antisym)
qed

lemma flow_render_same:
  assumes "flow_ok m" "flow_ok m0" "fl_key st = Some (ids_key (obj_keys m0))" "set (obj_keys m0) = set (obj_keys m)"
  shows "fl_nodes (flow_render show_number fcos fsin m st) = fl_nodes st"
  using assms same_keys(1) [OF assms(1,2)] by (simp add: flow_render_def Let_def)

lemma flow_render_other:
  assumes "flow_ok m" "flow_ok m0" "nodes_ok m0 st" "fl_key st = Some (ids_key (obj_keys m0))"
    "set (obj_keys m0) \<noteq> set (obj_keys m)"
  shows "all_nodes m (flow_render show_number fcos fsin m st)"
proof -
  let ?st = "st\<lparr>fl_edges := flow_edges show_number m, fl_key := Some (ids_key (obj_keys m))\<rparr>"
  have "plain_for CHR 0x2C (map fn_id (fl_nodes ?st))"
    by (rule plain_endpoints [OF assms(2)]) (use assms(3) in \<open>simp add: nodes_ok_def\<close>)
  moreover have "distinct (map fn_id (fl_nodes ?st))" using assms(3) by (simp add: nodes_ok_def)
  ultimately show ?thesis using update_nodes_all [OF assms(1), of ?st] same_keys(1) [OF assms(1,2)] assms(4,5)
    by (simp add: flow_render_def Let_def)
qed

lemma flow_render_first:
  "flow_ok m \<Longrightarrow> fl_key st = None \<Longrightarrow> fl_nodes st = [] \<Longrightarrow> all_nodes m (flow_render show_number fcos fsin m st)"
  by (auto simp: flow_render_def Let_def plain_for_def intro!: update_nodes_all)

section \<open>Runs\<close>

text \<open>
  Events that respect the contracts: sound data, and changes that keep or remove nodes (by
  their ids) and edges (by their ids and ends).
\<close>

fun event_ok :: "flow_event \<Rightarrow> bool" where
  "event_ok (Data m) \<longleftrightarrow> flow_ok m"
| "event_ok (Nodes_change c) \<longleftrightarrow> (\<forall>ns. mset (map fn_id (c ns)) \<subseteq># mset (map fn_id ns))"
| "event_ok (Edges_change c) \<longleftrightarrow> (\<forall>es. mset (map edge_ends (c es)) \<subseteq># mset (map edge_ends es))"

text \<open>Changes that remove no node, and no edge.\<close>

fun keeps_nodes :: "flow_event \<Rightarrow> bool" where
  "keeps_nodes (Nodes_change c) \<longleftrightarrow> (\<forall>ns. mset (map fn_id (c ns)) = mset (map fn_id ns))"
| "keeps_nodes _ \<longleftrightarrow> True"

fun keeps_edges :: "flow_event \<Rightarrow> bool" where
  "keeps_edges (Edges_change c) \<longleftrightarrow> (\<forall>es. mset (map edge_ends (c es)) = mset (map edge_ends es))"
| "keeps_edges _ \<longleftrightarrow> True"

definition flow_run ::
  "(number \<Rightarrow> string) \<Rightarrow> (number \<Rightarrow> number) \<Rightarrow> (number \<Rightarrow> number) \<Rightarrow> flow_event list \<Rightarrow> flow_state" where
  "flow_run show_number fcos fsin es = fold (flow_handle show_number fcos fsin) es flow_init"

fun last_data :: "flow_event list \<Rightarrow> SnapshotMap option" where
  "last_data [] = None"
| "last_data (e # es) = (case last_data es of Some m \<Rightarrow> Some m
     | None \<Rightarrow> (case e of Data m \<Rightarrow> Some m | _ \<Rightarrow> None))"

lemma last_data_snoc: "last_data (es @ [e]) = (case e of Data m \<Rightarrow> Some m | _ \<Rightarrow> last_data es)"
  by (induction es) (auto split: flow_event.split option.split)

lemma distinct_submset: "mset xs \<subseteq># mset ys \<Longrightarrow> distinct ys \<Longrightarrow> distinct xs"
  unfolding distinct_count_atmost_1
  by (metis count_mset_0_iff le_zero_eq mset_subset_eq_count less_one order.order_iff_strict)

lemma set_submset: "mset xs \<subseteq># mset ys \<Longrightarrow> set xs \<subseteq> set ys"
  using set_mset_mono by fastforce

lemma nodes_ok_change:
  assumes "nodes_ok m st" "event_ok (Nodes_change c)"
  shows "nodes_ok m (st\<lparr>fl_nodes := c (fl_nodes st)\<rparr>)"
proof -
  have "mset (map fn_id (c (fl_nodes st))) \<subseteq># mset (map fn_id (fl_nodes st))" using assms(2) by simp
  from distinct_submset [OF this] set_submset [OF this] assms(1) show ?thesis by (auto simp: nodes_ok_def)
qed

lemma all_nodes_change:
  assumes "all_nodes m st" "keeps_nodes (Nodes_change c)"
  shows "all_nodes m (st\<lparr>fl_nodes := c (fl_nodes st)\<rparr>)"
proof -
  have eq: "mset (map fn_id (c (fl_nodes st))) = mset (map fn_id (fl_nodes st))" using assms(2) by simp
  from mset_eq_setD [OF eq] mset_eq_imp_distinct_iff [OF eq] assms(1) show ?thesis
    by (simp add: all_nodes_def)
qed

lemma edge_ids: "map fe_id es = map fst (map edge_ends es)"
  by (simp add: edge_ends_def)

lemma edges_ok_ends:
  "edges_ok m st \<longleftrightarrow> distinct (map fst (map edge_ends (fl_edges st))) \<and>
     (\<forall>(k, a, b) \<in> set (map edge_ends (fl_edges st)).
       \<exists>s. obj_get m k = Some s \<and> a = src_service s \<and> b = dst_service s)"
  unfolding edges_ok_def edge_ids [symmetric] by (auto simp: list_all_iff edge_ends_def)

lemma edges_ok_change:
  assumes "edges_ok m st" "event_ok (Edges_change c)"
  shows "edges_ok m (st\<lparr>fl_edges := c (fl_edges st)\<rparr>)"
proof -
  have sub: "mset (map edge_ends (c (fl_edges st))) \<subseteq># mset (map edge_ends (fl_edges st))" using assms(2) by simp
  then have "mset (map fst (map edge_ends (c (fl_edges st)))) \<subseteq># mset (map fst (map edge_ends (fl_edges st)))"
    by (simp only: mset_map image_mset_subseteq_mono)
  then have d: "distinct (map fst (map edge_ends (c (fl_edges st))))"
    by (rule distinct_submset) (rule edges_ok_ends [THEN iffD1, OF assms(1), THEN conjunct1])
  have e: "fl_edges (st\<lparr>fl_edges := c (fl_edges st)\<rparr>) = c (fl_edges st)" by simp
  show ?thesis unfolding edges_ok_ends e
    using d set_submset [OF sub] edges_ok_ends [THEN iffD1, OF assms(1), THEN conjunct2] by (meson subset_iff)
qed

lemma all_edges_change:
  assumes "keeps_edges (Edges_change c)"
  shows "set (map fe_id (c es)) = set (map fe_id es)"
proof -
  have "mset (map edge_ends (c es)) = mset (map edge_ends es)" using assms by simp
  from mset_eq_setD [OF this] show ?thesis unfolding edge_ids by (metis list.set_map)
qed

text \<open>The state after a run, by the last data.\<close>

definition flow_inv :: "bool \<Rightarrow> bool \<Rightarrow> SnapshotMap option \<Rightarrow> flow_state \<Rightarrow> bool" where
  "flow_inv kn ke d st \<longleftrightarrow>
     (case d of
        None \<Rightarrow> fl_key st = None \<and> fl_nodes st = [] \<and> fl_edges st = []
      | Some m \<Rightarrow> flow_ok m \<and> nodes_ok m st \<and> edges_ok m st \<and> fl_key st = Some (ids_key (obj_keys m)) \<and>
          (kn \<longrightarrow> all_nodes m st) \<and> (ke \<longrightarrow> set (map fe_id (fl_edges st)) = set (obj_keys m)))"

lemma flow_inv_data:
  assumes "flow_inv kn ke d st" "flow_ok m"
  shows "flow_inv kn ke (Some m) (flow_render show_number fcos fsin m st)"
proof -
  let ?st = "flow_render show_number fcos fsin m st"
  have "nodes_ok m ?st \<and> (kn \<longrightarrow> all_nodes m ?st)"
  proof (cases d)
    case None
    with assms flow_render_first [of m st show_number fcos fsin] show ?thesis
      by (auto simp: flow_inv_def all_nodes_ok)
  next
    case (Some m0)
    with assms(1) have m0: "flow_ok m0" "nodes_ok m0 st" "fl_key st = Some (ids_key (obj_keys m0))"
      "kn \<longrightarrow> all_nodes m0 st" by (simp_all add: flow_inv_def)
    show ?thesis
    proof (cases "set (obj_keys m0) = set (obj_keys m)")
      case True
      with flow_render_same [OF assms(2) m0(1,3)] same_keys(2) [OF assms(2) m0(1)] m0(2,4) show ?thesis
        by (simp add: nodes_ok_def all_nodes_def)
    next
      case False
      with flow_render_other [OF assms(2) m0(1-3)] all_nodes_ok show ?thesis by blast
    qed
  qed
  moreover have "set (map fe_id (fl_edges ?st)) = set (obj_keys m)" by (simp only: flow_render_rest flow_edges_ids)
  ultimately show ?thesis using assms(2) flow_edges_ok [OF assms(2) flow_render_rest(2)]
    by (simp add: flow_inv_def flow_render_rest(1))
qed

lemma flow_run_inv:
  assumes "list_all event_ok es"
  shows "flow_inv (list_all keeps_nodes es) (list_all keeps_edges es) (last_data es) (flow_run show_number fcos fsin es)"
  using assms
proof (induction es rule: rev_induct)
  case Nil
  show ?case by (simp add: flow_run_def flow_init_def flow_inv_def)
next
  case (snoc e es)
  let ?st = "flow_run show_number fcos fsin es"
  have run: "flow_run show_number fcos fsin (es @ [e]) = flow_handle show_number fcos fsin e ?st"
    by (simp add: flow_run_def)
  have IH: "flow_inv (list_all keeps_nodes es) (list_all keeps_edges es) (last_data es) ?st" using snoc by simp
  show ?case
  proof (cases e)
    case (Data m)
    with flow_inv_data [OF IH, of m] snoc.prems show ?thesis by (simp add: run [unfolded Data] last_data_snoc)
  next
    case (Nodes_change c)
    then have ok: "event_ok (Nodes_change c)" using snoc.prems by simp
    then have "c [] = []" by (auto dest: spec [of _ "[]"])
    with IH ok show ?thesis using nodes_ok_change [of _ ?st c] all_nodes_change [of _ ?st c]
      by (auto simp: run [unfolded Nodes_change] Nodes_change last_data_snoc flow_inv_def edges_ok_def
          simp del: event_ok.simps keeps_nodes.simps split: option.splits)
  next
    case (Edges_change c)
    then have ok: "event_ok (Edges_change c)" using snoc.prems by simp
    then have "c [] = []" by (auto dest: spec [of _ "[]"])
    with IH ok show ?thesis using edges_ok_change [of _ ?st c] all_edges_change [of c "fl_edges ?st"]
      by (auto simp: run [unfolded Edges_change] Edges_change last_data_snoc flow_inv_def nodes_ok_def all_nodes_def
          simp del: event_ok.simps keeps_edges.simps split: option.splits)
  qed
qed

text \<open>
  C38: The drawing follows the data, for data stored under its own keys, with names without
  comma or arrow and no service both internal and external, and for changes by the user that
  move, select or remove. At every moment the nodes are services of the last data, each once,
  and the edges are connections of it, each once and between its two services; they are all of them, and
  every edge joins two drawn nodes, as long as the user removes none. The next data brings
  all edges back. It brings back all nodes exactly when the set of connections has changed;
  with the same connections the nodes stay as they are, and one that was removed stays away.
\<close>

theorem flow_nodes_current:
  assumes "list_all event_ok es" "last_data es = Some m" "st = flow_run show_number fcos fsin es"
    "flow_ok m'" "st' = flow_handle show_number fcos fsin (Data m') st"
  shows "distinct (map fn_id (fl_nodes st)) \<and> set (map fn_id (fl_nodes st)) \<subseteq> endpoints m \<and>
    distinct (map fe_id (fl_edges st)) \<and>
    list_all (\<lambda>e. \<exists>s. obj_get m (fe_id e) = Some s \<and> fe_source e = src_service s \<and> fe_target e = dst_service s) (fl_edges st) \<and>
    (list_all keeps_nodes es \<longrightarrow> set (map fn_id (fl_nodes st)) = endpoints m \<and>
      list_all (\<lambda>e. {fe_source e, fe_target e} \<subseteq> set (map fn_id (fl_nodes st))) (fl_edges st)) \<and>
    (list_all keeps_edges es \<longrightarrow> set (map fe_id (fl_edges st)) = set (obj_keys m)) \<and>
    map fe_id (fl_edges st') = obj_keys m' \<and>
    (if set (obj_keys m') = set (obj_keys m) then fl_nodes st' = fl_nodes st
     else set (map fn_id (fl_nodes st')) = endpoints m')"
proof -
  have inv: "flow_inv (list_all keeps_nodes es) (list_all keeps_edges es) (Some m) st"
    using flow_run_inv [OF assms(1), of show_number fcos fsin] assms(2,3) by simp
  then have n: "flow_ok m" "nodes_ok m st" "edges_ok m st" "fl_key st = Some (ids_key (obj_keys m))"
    "list_all keeps_nodes es \<longrightarrow> all_nodes m st"
    "list_all keeps_edges es \<longrightarrow> set (map fe_id (fl_edges st)) = set (obj_keys m)" by (simp_all add: flow_inv_def)
  have "{src_service s, dst_service s} \<subseteq> endpoints m" if g: "obj_get m k = Some s" for k s
  proof -
    have "s \<in> set (obj_values m)" using g js_obj.vals_get [of m s] n(1) by (auto simp: flow_ok_def keyed_def)
    then show ?thesis by (auto simp: endpoints_def)
  qed
  then have ends: "list_all (\<lambda>e. {fe_source e, fe_target e} \<subseteq> endpoints m) (fl_edges st)"
    using n(3) by (fastforce simp: edges_ok_def list_all_iff)
  have "if set (obj_keys m') = set (obj_keys m) then fl_nodes st' = fl_nodes st
     else set (map fn_id (fl_nodes st')) = endpoints m'"
    using flow_render_same [OF assms(4) n(1,4)] flow_render_other [OF assms(4) n(1,2,4)] assms(5)
    by (auto simp: all_nodes_def)
  moreover have "map fe_id (fl_edges st') = obj_keys m'"
    unfolding assms(5) flow_handle.simps flow_render_rest by (rule flow_edges_ids)
  ultimately show ?thesis using n ends by (auto simp: nodes_ok_def edges_ok_def all_nodes_def)
qed

lemma flow_ok_sample: "flow_ok [(connKey ''web'' ''db'', sample_snap False 9)]"
  by (simp add: flow_ok_def keyed_sample [unfolded sample_snap_def] sample_snap_def obj_values_def plain_name_def
      no_arrow_ascii services_of_def typed_endpoints_def keyed_def obj_all_def snapKey_def wf_obj_def)

text \<open>The user deletes the only nodes; data with the same connection does not bring them back.\<close>

theorem flow_nodes_current_witness:
  "let st = flow_run (\<lambda>x. []) (\<lambda>x. 0) (\<lambda>x. 0)
       [Data [(connKey ''web'' ''db'', sample_snap False 9)], Nodes_change (\<lambda>ns. [])]
   in fl_nodes (flow_handle (\<lambda>x. []) (\<lambda>x. 0) (\<lambda>x. 0) (Data [(connKey ''web'' ''db'', sample_snap False 9)]) st) = []"
proof -
  let ?m = "[(connKey ''web'' ''db'', sample_snap False 9)]"
  let ?st = "flow_run (\<lambda>x. []) (\<lambda>x. 0) (\<lambda>x. 0) [Data ?m, Nodes_change (\<lambda>ns. [])]"
  have "fl_nodes (flow_handle (\<lambda>x. []) (\<lambda>x. 0) (\<lambda>x. 0) (Data ?m) ?st) = fl_nodes ?st"
    using flow_nodes_current [of "[Data ?m, Nodes_change (\<lambda>ns. [])]", OF _ _ refl flow_ok_sample refl,
        of ?m "\<lambda>x. []" "\<lambda>x. 0" "\<lambda>x. 0"] flow_ok_sample
    by simp
  also have "\<dots> = []" by (simp add: flow_run_def)
  finally show ?thesis by (simp only: Let_def)
qed

text \<open>
  A service that is internal for one connection and external for another gets two nodes with
  the same id.
\<close>

lemma mixed_service_duplicated:
  assumes "n \<in> set (services_of Internal m)" "n \<in> set (services_of External m)"
  shows "\<not> distinct (map fn_id (nextNodes fcos fsin m prev))"
  using assms by (auto simp: map_id_nextNodes)

text \<open>A node that stays keeps the place the user gave it.\<close>

lemma nextNodes_keeps:
  assumes "distinct (map fn_id prev)" "n \<in> set prev" "n' \<in> set (nextNodes fcos fsin m prev)" "fn_id n' = fn_id n"
  shows "fn_position n' = fn_position n"
proof -
  have "existingPositions prev = map (\<lambda>n. (fn_id n, fn_position n)) prev"
    using assms(1) obj_puts_distinct [of "[]" "map (\<lambda>n. (fn_id n, fn_position n)) prev"]
    by (simp add: existingPositions_def comp_def)
  then have "obj_get (existingPositions prev) (fn_id n) = Some (fn_position n)"
    using assms(1,2) by (auto simp: obj_get_def comp_def intro!: map_of_is_SomeI)
  then show ?thesis using assms(3,4) by (auto simp: nextNodes_def Let_def)
qed

end
