(* ===== verification/MtData.thy ===== *)
theory MtData
  imports MockInvariant TopoGraph
begin

text \<open>
  \<open>design_handoff_microtrace/mt-data.js\<close>: the data source of the design prototype, the script
  from which \<open>hooks/useMockData.ts\<close> was ported. Its state lives in the variables of a module;
  here it is the record \<open>mt_state\<close>, and \<open>tick_mt\<close> returns the state it leaves together with its
  result or the exception it throws. (Names that the application has as well carry the
  suffix \<open>_mt\<close>.)

  The port changed the shape of the data: snapshots lost their \<open>key\<close> and \<open>history\<close> and gained
  \<open>latest_srtt_us\<close> and \<open>baseline_us\<close>, events got a cause that is never null, a missing
  destination is tolerated where the prototype throws. The abstraction functions \<open>abs_*\<close> state
  that change, and the two programs are shown to run in lock step on the same random draws
  and clock readings.
\<close>

section \<open>Running two actions in lock step\<close>

definition lockstep :: "('a \<Rightarrow> 'b \<Rightarrow> bool) \<Rightarrow> (env, 'a) state \<Rightarrow> (env, 'b) state \<Rightarrow> bool" where
  "lockstep R m n \<longleftrightarrow> (\<forall>e. R (fst (run_state m e)) (fst (run_state n e)) \<and>
     snd (run_state m e) = snd (run_state n e))"

named_theorems lockstep_rules "rules of the predicate lockstep"

lemma lockstep_return [lockstep_rules]: "R x y \<Longrightarrow> lockstep R (State_Monad.return x) (State_Monad.return y)"
  by (simp add: lockstep_def)

lemma lockstep_bind:
  "lockstep R m n \<Longrightarrow> (\<And>x y. R x y \<Longrightarrow> lockstep S (f x) (g y)) \<Longrightarrow>
   lockstep S (State_Monad.bind m f) (State_Monad.bind n g)"
  unfolding lockstep_def by (simp add: case_prod_beta)

lemma lockstep_refl: "(\<And>x. R x x) \<Longrightarrow> lockstep R m m"
  by (simp add: lockstep_def)

lemma lockstep_same_bind [lockstep_rules]:
  "(\<And>x. lockstep S (f x) (g x)) \<Longrightarrow> lockstep S (State_Monad.bind m f) (State_Monad.bind m g)"
  by (rule lockstep_bind [OF lockstep_refl, of "(=)"]) simp_all

lemma lockstep_mono: "lockstep R m n \<Longrightarrow> (\<And>x y. R x y \<Longrightarrow> S x y) \<Longrightarrow> lockstep S m n"
  by (simp add: lockstep_def)

lemma lockstep_if [lockstep_rules]:
  "b = c \<Longrightarrow> (c \<Longrightarrow> lockstep R m m') \<Longrightarrow> (\<not> c \<Longrightarrow> lockstep R n n') \<Longrightarrow>
   lockstep R (if b then m else n) (if c then m' else n')"
  by simp

lemma lockstep_traverse:
  "list_all2 (\<lambda>x y. lockstep R (f x) (g y)) xs ys \<Longrightarrow>
   lockstep (list_all2 R) (State_Monad.traverse_list f xs) (State_Monad.traverse_list g ys)"
proof (induction rule: list_all2_induct)
  case Nil
  show ?case by (simp add: lockstep_return)
next
  case (Cons x xs y ys)
  show ?case unfolding State_Monad.traverse_list.simps
    by (intro lockstep_bind [OF Cons.hyps(1)] lockstep_bind [OF Cons.IH] lockstep_return) simp
qed

lemma lockstepD: "lockstep R m n \<Longrightarrow> R (fst (run_state m e)) (fst (run_state n e))"
  by (simp add: lockstep_def)

section \<open>Definitions of the services and connections\<close>

definition INTERNAL_SERVICES_mt :: "string list" where
  "INTERNAL_SERVICES_mt =
     [''api-gateway'', ''auth-svc'', ''order-svc'', ''payment-svc'', ''inventory-svc'', ''notif-svc'']"

definition EXTERNAL_SERVICES_mt :: "string list" where
  "EXTERNAL_SERVICES_mt = [''postgres'', ''redis'', ''kafka'', ''stripe-api'']"

definition CONN_DEFS_mt :: "conn_def list" where
  "CONN_DEFS_mt =
     [\<lparr>cd_src = ''api-gateway'', cd_dst = ''auth-svc'', cd_baseMs = 3, cd_noiseMs = 3/2\<rparr>,
      \<lparr>cd_src = ''api-gateway'', cd_dst = ''order-svc'', cd_baseMs = 5, cd_noiseMs = 2\<rparr>,
      \<lparr>cd_src = ''auth-svc'', cd_dst = ''redis'', cd_baseMs = 3/2, cd_noiseMs = 1/2\<rparr>,
      \<lparr>cd_src = ''order-svc'', cd_dst = ''payment-svc'', cd_baseMs = 8, cd_noiseMs = 3\<rparr>,
      \<lparr>cd_src = ''order-svc'', cd_dst = ''inventory-svc'', cd_baseMs = 4, cd_noiseMs = 2\<rparr>,
      \<lparr>cd_src = ''order-svc'', cd_dst = ''notif-svc'', cd_baseMs = 6, cd_noiseMs = 2\<rparr>,
      \<lparr>cd_src = ''order-svc'', cd_dst = ''postgres'', cd_baseMs = 9, cd_noiseMs = 4\<rparr>,
      \<lparr>cd_src = ''payment-svc'', cd_dst = ''postgres'', cd_baseMs = 12, cd_noiseMs = 5\<rparr>,
      \<lparr>cd_src = ''payment-svc'', cd_dst = ''stripe-api'', cd_baseMs = 45, cd_noiseMs = 15\<rparr>,
      \<lparr>cd_src = ''notif-svc'', cd_dst = ''kafka'', cd_baseMs = 3, cd_noiseMs = 1\<rparr>]"

definition NODE_POS_mt :: "pos obj" where
  "NODE_POS_mt =
     [(''api-gateway'', hundredths 50 8), (''auth-svc'', hundredths 18 35), (''order-svc'', hundredths 78 35),
      (''redis'', hundredths 5 66), (''payment-svc'', hundredths 50 64), (''inventory-svc'', hundredths 95 66),
      (''notif-svc'', hundredths 78 93), (''postgres'', hundredths 28 93), (''kafka'', hundredths 96 96),
      (''stripe-api'', hundredths 52 93)]"

section \<open>State of the module\<close>

text \<open>A service has the fields it has in the application. The points of a connection's
  history are \<open>{ time, ...perc }\<close>, percentiles with a time.\<close>

record MtPoint = percs +
  mp_time :: number

record MtConn =
  mc_src :: string
  mc_dst :: string
  mc_baseMs :: number
  mc_noiseMs :: number
  mc_key :: string
  mc_isSpike :: bool
  mc_spikeTimer :: int
  mc_retransmitCount :: int
  mc_sampleCount :: int
  mc_closeStates :: CloseStates
  mc_history :: "MtPoint list"
  mc_causeKind :: "CauseKind option"

record MtSnap =
  ms_key :: string
  ms_src_service :: string
  ms_dst_service :: string
  ms_src_type :: NodeType
  ms_dst_type :: NodeType
  ms_avg_us :: number
  ms_p50_us :: number
  ms_p95_us :: number
  ms_p99_us :: number
  ms_jitter_us :: number
  ms_retransmit_count :: number
  ms_sample_count :: number
  ms_is_spike :: bool
  ms_spike_threshold_us :: number
  ms_history :: "MtPoint list"
  ms_cause_kind :: "CauseKind option"
  ms_close_states :: CloseStates
  ms_dst_cpu_pct :: number
  ms_dst_io_wait_pct :: number
  ms_dst_mem_pressure_pct :: number

record MtEvent =
  me_id :: string
  me_timestamp :: number
  me_key :: string
  me_src :: string
  me_dst :: string
  me_p99_us :: number
  me_baseline_us :: number
  me_severity :: Severity
  me_cause_kind :: "CauseKind option"
  me_dst_cpu_pct :: number
  me_dst_io_wait_pct :: number
  me_dst_mem_pressure_pct :: number

record mt_state =
  serviceState_mt :: "ServiceState obj"
  connState_mt :: "MtConn obj"
  allSpikeEvents :: "MtEvent list"
  eventCounter_mt :: nat

text \<open>What a tick returns, and the exception it may throw: reading a field of \<open>undefined\<close>.\<close>

record mt_result =
  mr_snapshots :: "MtSnap obj"
  mr_services :: "ServiceSnapshot obj"
  mr_newEvents :: "MtEvent list"
  mr_allEvents :: "MtEvent list"

datatype js_error = TypeError

definition init_service_mt :: "string \<Rightarrow> (env, string \<times> ServiceState) state" where
  "init_service_mt svc = do {
     cpu \<leftarrow> rand_from 15 25;
     io \<leftarrow> rand_from 2 6;
     mem \<leftarrow> rand_from 5 15;
     State_Monad.return (svc, \<lparr>ss_name = svc, ss_cpu_pct = cpu, ss_io_wait_pct = io, ss_mem_pressure_pct = mem,
       ss_cpu_throttle_pct = 0, ss_stressKind = None, ss_stressTimer = 0, ss_history = []\<rparr>) }"

definition init_conn_mt :: "conn_def \<Rightarrow> string \<times> MtConn" where
  "init_conn_mt d =
     (let key = cd_src d @ arrow @ cd_dst d
      in (key, \<lparr>mc_src = cd_src d, mc_dst = cd_dst d, mc_baseMs = cd_baseMs d, mc_noiseMs = cd_noiseMs d,
          mc_key = key, mc_isSpike = False, mc_spikeTimer = 0, mc_retransmitCount = 0, mc_sampleCount = 0,
          mc_closeStates = \<lparr>cs_fin = 0, cs_rst = 0, cs_timeout = 0\<rparr>, mc_history = [], mc_causeKind = None\<rparr>))"

definition mt_load :: "(env, mt_state) state" where
  "mt_load = do {
     svcs \<leftarrow> State_Monad.traverse_list init_service_mt (INTERNAL_SERVICES_mt @ EXTERNAL_SERVICES_mt);
     State_Monad.return \<lparr>serviceState_mt = obj_puts svcs [], connState_mt = obj_puts (map init_conn_mt CONN_DEFS_mt) [],
       allSpikeEvents = [], eventCounter_mt = 0\<rparr> }"

section \<open>Helpers\<close>

definition SAMPLES_mt :: nat where "SAMPLES_mt = 30"

definition rnd_mt :: "number \<Rightarrow> number \<Rightarrow> (env, number) state" where
  "rnd_mt lo hi = do { r \<leftarrow> random; State_Monad.return (fadd lo (fmul r (fsub hi lo))) }"

text \<open>Unlike the port, \<open>classifyCause\<close> answers \<open>network\<close> for a service it does not find.\<close>

definition classifyCause_mt :: "ServiceState obj \<Rightarrow> MtConn \<Rightarrow> string \<Rightarrow> CauseKind" where
  "classifyCause_mt svcs c dstSvc =
     (case obj_get svcs dstSvc of None \<Rightarrow> Cause_network
      | Some d \<Rightarrow>
          (if dstSvc \<in> set EXTERNAL_SERVICES_mt \<and> mc_baseMs c > 30 then Cause_external
           else if ss_stressKind d = Some Stress_cpu then Cause_cpu
           else if ss_stressKind d = Some Stress_io then Cause_io
           else if ss_stressKind d = Some Stress_memory then Cause_memory
           else Cause_network))"

definition genPercs_mt :: "MtConn \<Rightarrow> (env, percs) state" where
  "genPercs_mt c = do {
     base \<leftarrow> (if mc_isSpike c then do { x \<leftarrow> rnd_mt 8 25; State_Monad.return (fmul (mc_baseMs c) x) }
             else State_Monad.return (mc_baseMs c));
     let noise = (if mc_isSpike c then fmul (mc_baseMs c) 5 else mc_noiseMs c);
     samples \<leftarrow> State_Monad.traverse_list
       (\<lambda>_. do { x \<leftarrow> rnd_mt (fmul (- noise) (fl (8/10))) (fmul noise (fl (12/10)));
                State_Monad.return (max (fl (1/10)) (fadd base x)) }) [0..<SAMPLES_mt];
     let arr = js_sort (\<lambda>a b. fsub a b) samples;
     let p = (\<lambda>pct. arr ! nat (max 0 \<lfloor>fmul (fdiv pct 100) (of_nat (length arr) - 1)\<rfloor>));
     let avg = fdiv (fsum (\<lambda>v. v) arr) (of_nat (length arr));
     State_Monad.return \<lparr>pc_avg_us = fmul avg 1000, pc_p50_us = fmul (p 50) 1000, pc_p95_us = fmul (p 95) 1000,
       pc_p99_us = fmul (p 99) 1000, pc_jitter_us = fmul (fsub (p 75) (p 25)) 1000\<rparr> }"

section \<open>A tick of a service\<close>

text \<open>The stress timer, the targets, then the step towards them. The targets the stress does
  not replace keep their base level; each \<open>Math.random()\<close> is drawn in the order of the lines.\<close>

definition stress_mt :: "ServiceState \<Rightarrow> (env, ServiceState) state" where
  "stress_mt s =
     (if ss_stressTimer s > 0 then
        (let s' = s\<lparr>ss_stressTimer := ss_stressTimer s - 1\<rparr>
         in State_Monad.return (if ss_stressTimer s' = 0 then s'\<lparr>ss_stressKind := None\<rparr> else s'))
      else do {
        r \<leftarrow> random;
        if r < fl (8/1000) then do {
          k \<leftarrow> random;
          let i = \<lfloor>fmul k 3\<rfloor>;
          let kind = (if i = 0 then Some Stress_cpu else if i = 1 then Some Stress_io
                      else if i = 2 then Some Stress_memory else None);
          t \<leftarrow> rnd_mt 5 14;
          State_Monad.return (s\<lparr>ss_stressKind := kind, ss_stressTimer := \<lfloor>t\<rfloor>\<rparr>) }
        else State_Monad.return s })"

definition targets_mt :: "StressKind option \<Rightarrow> (env, targets) state" where
  "targets_mt kind = do {
     targetCpu \<leftarrow> rand_from 15 25;
     targetIo \<leftarrow> rand_from 2 6;
     targetMem \<leftarrow> rand_from 5 15;
     let t = \<lparr>tg_cpu = targetCpu, tg_io = targetIo, tg_mem = targetMem, tg_throttle = 0\<rparr>;
     t \<leftarrow> (if kind = Some Stress_cpu then do {
             c \<leftarrow> rand_from 85 14; th \<leftarrow> rand_from 20 60;
             State_Monad.return (t\<lparr>tg_cpu := c, tg_throttle := th\<rparr>) }
           else State_Monad.return t);
     t \<leftarrow> (if kind = Some Stress_io then do { i \<leftarrow> rand_from 35 40; State_Monad.return (t\<lparr>tg_io := i\<rparr>) }
           else State_Monad.return t);
     (if kind = Some Stress_memory then do {
        m \<leftarrow> rand_from 75 22; c \<leftarrow> rand_from 50 30;
        State_Monad.return (t\<lparr>tg_mem := m, tg_cpu := c\<rparr>) }
      else State_Monad.return t) }"

definition tickService_mt :: "ServiceState \<Rightarrow> (env, ServiceState) state" where
  "tickService_mt s = do {
     s \<leftarrow> stress_mt s;
     t \<leftarrow> targets_mt (ss_stressKind s);
     let s = s\<lparr>ss_cpu_pct := fadd (ss_cpu_pct s) (fmul (fsub (tg_cpu t) (ss_cpu_pct s)) (fl (4/10)))\<rparr>;
     let s = s\<lparr>ss_io_wait_pct := fadd (ss_io_wait_pct s) (fmul (fsub (tg_io t) (ss_io_wait_pct s)) (1/2))\<rparr>;
     let s = s\<lparr>ss_mem_pressure_pct :=
       fadd (ss_mem_pressure_pct s) (fmul (fsub (tg_mem t) (ss_mem_pressure_pct s)) (fl (3/10)))\<rparr>;
     let s = s\<lparr>ss_cpu_throttle_pct :=
       fadd (ss_cpu_throttle_pct s) (fmul (fsub (tg_throttle t) (ss_cpu_throttle_pct s)) (1/2))\<rparr>;
     now \<leftarrow> Date_now;
     State_Monad.return (s\<lparr>ss_history := keep_last 300 (ss_history s) @
       [\<lparr>rp_time = of_int now, rp_cpu_pct = ss_cpu_pct s, rp_io_wait_pct = ss_io_wait_pct s,
         rp_mem_pressure_pct = ss_mem_pressure_pct s, rp_cpu_throttle_pct = ss_cpu_throttle_pct s\<rparr>]\<rparr>) }"

section \<open>A tick of a connection\<close>

definition spike_mt :: "bool \<Rightarrow> MtConn \<Rightarrow> (env, MtConn) state" where
  "spike_mt stressed c =
     (if mc_isSpike c then
        (let c' = c\<lparr>mc_spikeTimer := mc_spikeTimer c - 1\<rparr>
         in State_Monad.return (if mc_spikeTimer c' \<le> 0 then c'\<lparr>mc_isSpike := False\<rparr> else c'))
      else do {
        let p = (if stressed then fl (18/100) else fl (8/1000));
        r \<leftarrow> random;
        if r < p then do {
          t \<leftarrow> rnd_mt 3 8;
          n \<leftarrow> rnd_mt 1 5;
          let c = c\<lparr>mc_isSpike := True, mc_spikeTimer := \<lfloor>t\<rfloor>,
                    mc_retransmitCount := mc_retransmitCount c + \<lfloor>n\<rfloor>\<rparr>;
          let cs = mc_closeStates c;
          r2 \<leftarrow> random;
          if r2 < fl (15/100) then do {
            r3 \<leftarrow> random;
            if r3 < fl (33/100) then State_Monad.return (c\<lparr>mc_closeStates := cs\<lparr>cs_rst := fadd (cs_rst cs) 1\<rparr>\<rparr>)
            else if r3 < fl (66/100) then
              State_Monad.return (c\<lparr>mc_closeStates := cs\<lparr>cs_timeout := fadd (cs_timeout cs) 1\<rparr>\<rparr>)
            else State_Monad.return (c\<lparr>mc_closeStates := cs\<lparr>cs_fin := fadd (cs_fin cs) 1\<rparr>\<rparr>) }
          else State_Monad.return (c\<lparr>mc_closeStates := cs\<lparr>cs_fin := fadd (cs_fin cs) 1\<rparr>\<rparr>) }
        else State_Monad.return c })"

definition node_type_mt :: "string \<Rightarrow> NodeType" where
  "node_type_mt n = (if n \<in> set INTERNAL_SERVICES_mt then Internal else External)"

definition snapshot_mt :: "MtConn \<Rightarrow> percs \<Rightarrow> ServiceState \<Rightarrow> MtSnap" where
  "snapshot_mt c perc d =
     \<lparr>ms_key = mc_key c, ms_src_service = mc_src c, ms_dst_service = mc_dst c,
      ms_src_type = node_type_mt (mc_src c), ms_dst_type = node_type_mt (mc_dst c),
      ms_avg_us = pc_avg_us perc, ms_p50_us = pc_p50_us perc, ms_p95_us = pc_p95_us perc,
      ms_p99_us = pc_p99_us perc, ms_jitter_us = pc_jitter_us perc,
      ms_retransmit_count = of_int (mc_retransmitCount c), ms_sample_count = of_int (mc_sampleCount c),
      ms_is_spike = mc_isSpike c, ms_spike_threshold_us = fmul (fmul (mc_baseMs c) 5) 1000,
      ms_history = mc_history c, ms_cause_kind = mc_causeKind c, ms_close_states = mc_closeStates c,
      ms_dst_cpu_pct = ss_cpu_pct d, ms_dst_io_wait_pct = ss_io_wait_pct d,
      ms_dst_mem_pressure_pct = ss_mem_pressure_pct d\<rparr>"

definition event_mt :: "int \<Rightarrow> int \<Rightarrow> nat \<Rightarrow> MtConn \<Rightarrow> percs \<Rightarrow> ServiceState \<Rightarrow> MtEvent" where
  "event_mt t_id t_ev n c perc d =
     \<lparr>me_id = mc_key c @ ''-'' @ show_int t_id @ ''-'' @ show_nat n, me_timestamp = of_int t_ev,
      me_key = mc_key c, me_src = mc_src c, me_dst = mc_dst c, me_p99_us = pc_p99_us perc,
      me_baseline_us = fmul (mc_baseMs c) 1000,
      me_severity = (if pc_p99_us perc > 80000 then Sev_critical else Sev_warning),
      me_cause_kind = mc_causeKind c, me_dst_cpu_pct = ss_cpu_pct d, me_dst_io_wait_pct = ss_io_wait_pct d,
      me_dst_mem_pressure_pct = ss_mem_pressure_pct d\<rparr>"

record mt_out =
  mo_state :: MtConn
  mo_snap :: MtSnap
  mo_event :: "MtEvent option"

text \<open>The body of the loop over the connections. \<open>serviceState[state.dst].stressKind\<close> is read
  first: for a destination that is not a service it throws before anything is changed.\<close>

definition conn_tick_mt :: "ServiceState obj \<Rightarrow> nat \<Rightarrow> MtConn \<Rightarrow> (env, js_error + mt_out) state" where
  "conn_tick_mt svcs counter c =
     (case obj_get svcs (mc_dst c) of None \<Rightarrow> State_Monad.return (Inl TypeError)
      | Some d \<Rightarrow> do {
          let wasSpike = mc_isSpike c;
          c \<leftarrow> spike_mt (ss_stressKind d \<noteq> None) c;
          perc \<leftarrow> genPercs_mt c;
          let c = c\<lparr>mc_sampleCount := mc_sampleCount c + int SAMPLES_mt\<rparr>;
          let c = c\<lparr>mc_causeKind := (if mc_isSpike c then Some (classifyCause_mt svcs c (mc_dst c)) else None)\<rparr>;
          now \<leftarrow> Date_now;
          let point = percs.extend perc \<lparr>mp_time = of_int now\<rparr>;
          let c = c\<lparr>mc_history := keep_last 300 (mc_history c) @ [point]\<rparr>;
          let snap = snapshot_mt c perc d;
          if mc_isSpike c \<and> \<not> wasSpike then do {
            t_id \<leftarrow> Date_now;
            t_ev \<leftarrow> Date_now;
            State_Monad.return (Inr \<lparr>mo_state = c, mo_snap = snap,
              mo_event = Some (event_mt t_id t_ev (Suc counter) c perc d)\<rparr>) }
          else State_Monad.return (Inr \<lparr>mo_state = c, mo_snap = snap, mo_event = None\<rparr>) })"

record mt_acc =
  ma_conns :: "MtConn obj"
  ma_snapshots :: "MtSnap obj"
  ma_new :: "MtEvent list"
  ma_all :: "MtEvent list"
  ma_counter :: nat

definition add_mt :: "string \<Rightarrow> mt_out \<Rightarrow> mt_acc \<Rightarrow> mt_acc" where
  "add_mt k o1 acc =
     (let acc' = acc\<lparr>ma_conns := ma_conns acc @ [(k, mo_state o1)],
                     ma_snapshots := obj_put (mc_key (mo_state o1)) (mo_snap o1) (ma_snapshots acc)\<rparr>
      in case mo_event o1 of None \<Rightarrow> acc'
         | Some ev \<Rightarrow> acc'\<lparr>ma_new := ma_new acc @ [ev], ma_all := take 100 (ev # ma_all acc),
                           ma_counter := Suc (ma_counter acc)\<rparr>)"

text \<open>An exception leaves the connections before it ticked and the others as they were.\<close>

fun conns_mt :: "ServiceState obj \<Rightarrow> MtConn obj \<Rightarrow> mt_acc \<Rightarrow> (env, mt_acc \<times> js_error option) state" where
  "conns_mt svcs [] acc = State_Monad.return (acc, None)"
| "conns_mt svcs ((k, c) # cs) acc = do {
     r \<leftarrow> conn_tick_mt svcs (ma_counter acc) c;
     case r of Inl ex \<Rightarrow> State_Monad.return (acc\<lparr>ma_conns := ma_conns acc @ (k, c) # cs\<rparr>, Some ex)
     | Inr o1 \<Rightarrow> conns_mt svcs cs (add_mt k o1 acc) }"

definition service_mt :: "ServiceState \<Rightarrow> ServiceSnapshot" where
  "service_mt s =
     \<lparr>sv_name = ss_name s, sv_cpu_pct = ss_cpu_pct s, sv_io_wait_pct = ss_io_wait_pct s,
      sv_mem_pressure_pct = ss_mem_pressure_pct s, sv_cpu_throttle_pct = ss_cpu_throttle_pct s,
      sv_stress_kind = ss_stressKind s, sv_history = ss_history s\<rparr>"

definition tick_mt :: "mt_state \<Rightarrow> (env, mt_state \<times> (js_error + mt_result)) state" where
  "tick_mt m = do {
     svcs \<leftarrow> State_Monad.traverse_list
       (\<lambda>(k, s). do { s' \<leftarrow> tickService_mt s; State_Monad.return (k, s') }) (serviceState_mt m);
     r \<leftarrow> conns_mt svcs (connState_mt m) \<lparr>ma_conns = [], ma_snapshots = [], ma_new = [],
            ma_all = allSpikeEvents m, ma_counter = eventCounter_mt m\<rparr>;
     let acc = fst r;
     let m' = \<lparr>serviceState_mt = svcs, connState_mt = ma_conns acc, allSpikeEvents = ma_all acc,
               eventCounter_mt = ma_counter acc\<rparr>;
     State_Monad.return (m', case snd r of Some ex \<Rightarrow> Inl ex
       | None \<Rightarrow> Inr \<lparr>mr_snapshots = ma_snapshots acc,
           mr_services = obj_puts (map (\<lambda>s. (ss_name s, service_mt s)) (obj_values svcs)) [],
           mr_newEvents = ma_new acc, mr_allEvents = ma_all acc\<rparr>) }"

section \<open>The change of shape\<close>

definition abs_point :: "MtPoint \<Rightarrow> HistoryPoint" where
  "abs_point p =
     \<lparr>hp_time = mp_time p, hp_latest_srtt_us = pc_avg_us p, hp_avg_us = pc_avg_us p, hp_p50_us = pc_p50_us p,
      hp_p95_us = pc_p95_us p, hp_p99_us = pc_p99_us p, hp_jitter_us = pc_jitter_us p\<rparr>"

definition abs_conn :: "MtConn \<Rightarrow> ConnState" where
  "abs_conn c =
     \<lparr>cn_src = mc_src c, cn_dst = mc_dst c, cn_key = mc_key c, cn_baseMs = mc_baseMs c, cn_noiseMs = mc_noiseMs c,
      cn_isSpike = mc_isSpike c, cn_spikeTimer = mc_spikeTimer c, cn_retransmitCount = mc_retransmitCount c,
      cn_sampleCount = mc_sampleCount c, cn_closeStates = mc_closeStates c,
      cn_history = map abs_point (mc_history c), cn_causeKind = mc_causeKind c\<rparr>"

text \<open>A snapshot of the prototype has no baseline: the field is free.\<close>

definition abs_snap :: "number option \<Rightarrow> MtSnap \<Rightarrow> StatSnapshot" where
  "abs_snap baseline s =
     \<lparr>src_service = ms_src_service s, dst_service = ms_dst_service s, src_type = ms_src_type s,
      dst_type = ms_dst_type s, latest_srtt_us = ms_avg_us s, avg_us = ms_avg_us s,
      p50_us = ms_p50_us s, p95_us = ms_p95_us s, p99_us = ms_p99_us s, jitter_us = ms_jitter_us s,
      retransmit_count = ms_retransmit_count s, sample_count = ms_sample_count s,
      is_spike = ms_is_spike s, spike_threshold_us = ms_spike_threshold_us s,
      cause_kind = ms_cause_kind s, close_states = Some (ms_close_states s),
      dst_cpu_pct = Some (ms_dst_cpu_pct s), dst_io_wait_pct = Some (ms_dst_io_wait_pct s),
      dst_mem_pressure_pct = Some (ms_dst_mem_pressure_pct s), baseline_us = baseline\<rparr>"

definition snap_rel :: "MtSnap \<Rightarrow> StatSnapshot \<Rightarrow> bool" where
  "snap_rel s t \<longleftrightarrow> t = abs_snap (baseline_us t) s \<and> ms_key s = snapKey t"

definition abs_event :: "MtEvent \<Rightarrow> SpikeEvent" where
  "abs_event e =
     \<lparr>ev_id = me_id e, ev_timestamp = me_timestamp e, ev_key = me_key e, ev_src = me_src e, ev_dst = me_dst e,
      ev_p99_us = me_p99_us e, ev_baseline_us = me_baseline_us e, ev_severity = me_severity e,
      ev_cause_kind = nullish (me_cause_kind e) Cause_network, ev_dst_cpu_pct = me_dst_cpu_pct e,
      ev_dst_io_wait_pct = me_dst_io_wait_pct e, ev_dst_mem_pressure_pct = me_dst_mem_pressure_pct e\<rparr>"

text \<open>Two objects with the same keys in the same order and related values.\<close>

definition obj_rel :: "('a \<Rightarrow> 'b \<Rightarrow> bool) \<Rightarrow> 'a obj \<Rightarrow> 'b obj \<Rightarrow> bool" where
  "obj_rel R m n \<longleftrightarrow> list_all2 (\<lambda>kv kw. fst kv = fst kw \<and> R (snd kv) (snd kw)) m n"

lemma obj_rel_Nil [simp]: "obj_rel R [] []"
  by (simp add: obj_rel_def)

lemma obj_rel_append: "obj_rel R m n \<Longrightarrow> obj_rel R m' n' \<Longrightarrow> obj_rel R (m @ m') (n @ n')"
  by (simp add: obj_rel_def list_all2_appendI)

lemma obj_rel_put: "obj_rel R m n \<Longrightarrow> R v w \<Longrightarrow> obj_rel R (obj_put k v m) (obj_put k w n)"
  unfolding obj_rel_def obj_put_def
  by (induction rule: list_all2_induct) (auto simp: case_prod_beta)

lemma obj_rel_get: "obj_rel R m n \<Longrightarrow> rel_option R (obj_get m k) (obj_get n k)"
  unfolding obj_rel_def obj_get_def by (induction rule: list_all2_induct) auto

lemma obj_rel_values: "obj_rel R m n \<Longrightarrow> list_all2 R (obj_values m) (obj_values n)"
  unfolding obj_rel_def obj_values_def by (induction rule: list_all2_induct) auto

lemma obj_rel_keys: "obj_rel R m n \<Longrightarrow> obj_keys m = obj_keys n"
  unfolding obj_rel_def obj_keys_def by (induction rule: list_all2_induct) auto

lemma obj_rel_mono: "obj_rel R m n \<Longrightarrow> (\<And>x y. R x y \<Longrightarrow> S x y) \<Longrightarrow> obj_rel S m n"
  unfolding obj_rel_def by (erule list_all2_mono) simp

section \<open>The helpers agree\<close>

lemma tables_agree [simp]:
  "INTERNAL_SERVICES_mt = INTERNAL_SERVICES" "EXTERNAL_SERVICES_mt = EXTERNAL_SERVICES"
  "CONN_DEFS_mt = CONN_DEFS" "SAMPLES_mt = SAMPLES" "node_type_mt = node_type" "NODE_POS_mt = NODE_POS"
  by (simp_all add: INTERNAL_SERVICES_mt_def INTERNAL_SERVICES_def EXTERNAL_SERVICES_mt_def EXTERNAL_SERVICES_def
      CONN_DEFS_mt_def CONN_DEFS_def SAMPLES_mt_def SAMPLES_def node_type_mt_def node_type_def fun_eq_iff
      NODE_POS_mt_def NODE_POS_def)

lemma rnd_mt_eq [simp]: "rnd_mt = rnd"
  by (simp add: rnd_mt_def rnd_def fun_eq_iff)

lemma genPercs_mt_eq [simp]: "genPercs_mt c = genPercs (abs_conn c)"
  by (simp add: genPercs_mt_def genPercs_def abs_conn_def percs_of_def perc_index_def sample_def Let_def)

lemma stress_mt_eq [simp]: "stress_mt = tick_stress"
  unfolding fun_eq_iff stress_mt_def tick_stress_def pick_kind_def Let_def rnd_mt_eq by simp

lemma targets_mt_eq [simp]: "targets_mt = pick_targets"
proof
  fix kind :: "StressKind option"
  consider "kind = None" | k where "kind = Some k" by blast
  then show "targets_mt kind = pick_targets kind"
  proof cases
    case 1
    then show ?thesis by (simp add: targets_mt_def pick_targets_def Let_def)
  next
    case 2
    then show ?thesis by (cases k) (simp_all add: targets_mt_def pick_targets_def Let_def)
  qed
qed

lemma tickService_mt_eq [simp]: "tickService_mt = tickService"
  by (simp add: tickService_mt_def tickService_def move_service_def approach_def Let_def fun_eq_iff)

lemma service_mt_eq [simp]: "service_mt = mock_service"
  by (simp add: service_mt_def mock_service_def fun_eq_iff)

lemma init_service_mt_eq [simp]: "init_service_mt = init_service"
  by (simp add: init_service_mt_def init_service_def fun_eq_iff)

lemma init_conn_mt_eq: "init_conn d = map_prod id abs_conn (init_conn_mt d)"
  by (simp add: init_conn_def init_conn_mt_def abs_conn_def connKey_def Let_def)

lemma classify_eq: "obj_get svcs (mc_dst c) = Some d \<Longrightarrow>
    classifyCause (abs_conn c) (Some d) = Some (classifyCause_mt svcs c (mc_dst c))"
  by (simp add: classifyCause_def classifyCause_mt_def abs_conn_def split: option.split StressKind.split)

lemma abs_conn_sel [simp]:
  "cn_src (abs_conn c) = mc_src c" "cn_dst (abs_conn c) = mc_dst c" "cn_key (abs_conn c) = mc_key c"
  "cn_isSpike (abs_conn c) = mc_isSpike c" "cn_history (abs_conn c) = map abs_point (mc_history c)"
  by (simp_all add: abs_conn_def)

section \<open>A tick in lock step\<close>

text \<open>The fields of a connection that never change.\<close>

definition same_conn :: "MtConn \<Rightarrow> MtConn \<Rightarrow> bool" where
  "same_conn c c' \<longleftrightarrow> mc_src c' = mc_src c \<and> mc_dst c' = mc_dst c \<and> mc_key c' = mc_key c"

lemma spike_lockstep:
  "lockstep (\<lambda>x y. y = abs_conn x \<and> same_conn c x)
     (spike_mt (dstStressed d) c) (spike_step d (abs_conn c))"
  unfolding spike_mt_def spike_step_def close_one_def Let_def rnd_mt_eq
  by (auto intro!: lockstep_rules simp: abs_conn_def same_conn_def)

definition out_rel :: "mt_out \<Rightarrow> conn_out \<Rightarrow> bool" where
  "out_rel x y \<longleftrightarrow> co_state y = abs_conn (mo_state x) \<and> snap_rel (mo_snap x) (co_snap y) \<and>
     ms_history (mo_snap x) = mc_history (mo_state x) \<and> co_event y = map_option abs_event (mo_event x)"

lemma publish_abs [simp]: "publish_point (abs_point p) = abs_point p"
  by (simp add: publish_point_def abs_point_def)

lemma abs_point_extend [simp]: "abs_point (percs.extend p \<lparr>mp_time = of_int now\<rparr>) = mock_point now p"
  by (simp add: abs_point_def mock_point_def percs.extend_def)

lemma keep_last_map: "keep_last n (map f xs) = map f (keep_last n xs)"
  by (simp add: keep_last_def drop_map)

lemma snapshot_rel:
  "mc_key c = connKey (mc_src c) (mc_dst c) \<Longrightarrow>
   snap_rel (snapshot_mt c p d) (mock_snapshot (abs_conn c) p (Some d))"
  by (simp add: snap_rel_def snapshot_mt_def mock_snapshot_def abs_snap_def abs_conn_def snapKey_def)

lemma event_abs: "abs_event (event_mt t_id t_ev n c p d) = mock_event t_id t_ev n (abs_conn c) p (Some d)"
  by (simp add: abs_event_def event_mt_def mock_event_def abs_conn_def)

lemma conn_tick_lockstep:
  assumes d: "obj_get svcs (mc_dst c) = Some d" and key: "mc_key c = connKey (mc_src c) (mc_dst c)"
  shows "lockstep (\<lambda>x y. \<exists>o1 o2. x = Inr o1 \<and> y = Some o2 \<and> out_rel o1 o2 \<and> same_conn c (mo_state o1))
    (conn_tick_mt svcs n c) (conn_tick svcs n (abs_conn c))"
proof -
  have st: "(ss_stressKind d \<noteq> None) = dstStressed (Some d)" by (simp add: dstStressed_def)
  show ?thesis
    unfolding conn_tick_mt_def conn_tick_def d abs_conn_sel option.case Let_def st genPercs_mt_eq
  proof (rule lockstep_bind [OF spike_lockstep], elim conjE, hypsubst, rule lockstep_same_bind, goal_cases)
    case (1 c1 _ p)
    then have c1: "obj_get svcs (mc_dst c1) = Some d" "mc_key c1 = connKey (mc_src c1) (mc_dst c1)" "same_conn c c1"
      using d key by (simp_all add: same_conn_def)
    define kind where "kind = classifyCause_mt svcs c1 (mc_dst c1)"
    have "classifyCause_mt svcs (c1\<lparr>mc_sampleCount := k\<rparr>) (mc_dst c1) = kind" for k
      by (simp add: kind_def classifyCause_mt_def c1(1))
    moreover have "classifyCause (abs_conn c1\<lparr>cn_sampleCount := k\<rparr>) (Some d) = classifyCause (abs_conn c1) (Some d)" for k
      by (simp add: classifyCause_def)
    ultimately have kind: "classifyCause_mt svcs (c1\<lparr>mc_sampleCount := k\<rparr>) (mc_dst c1) = kind"
      "classifyCause (abs_conn c1\<lparr>cn_sampleCount := k\<rparr>) (Some d) = Some kind" for k
      using classify_eq [OF c1(1)] by (simp_all only: kind_def)
    have guard: "(b \<and> Some kind = None) = False" for b by simp
    have sel: "mc_dst (c1\<lparr>mc_sampleCount := k\<rparr>) = mc_dst c1" for k by simp
    show ?case unfolding kind sel guard if_False
      by (intro lockstep_rules)
        (use c1 in \<open>auto simp: out_rel_def snap_rel_def snapshot_mt_def mock_snapshot_def abs_snap_def abs_conn_def
          snapKey_def abs_event_def event_mt_def mock_event_def same_conn_def keep_last_map\<close>)
  qed
qed

definition conn_ok :: "ServiceState obj \<Rightarrow> MtConn \<Rightarrow> bool" where
  "conn_ok svcs c \<longleftrightarrow> obj_get svcs (mc_dst c) \<noteq> None \<and> mc_key c = connKey (mc_src c) (mc_dst c)"

definition acc_rel :: "mt_acc \<Rightarrow> tick_acc \<Rightarrow> bool" where
  "acc_rel a b \<longleftrightarrow> obj_rel (\<lambda>c c'. c' = abs_conn c) (ma_conns a) (ta_conns b) \<and>
     obj_rel snap_rel (ma_snapshots a) (ta_snapshots b) \<and>
     obj_rel (\<lambda>s ps. ps = map abs_point (ms_history s)) (ma_snapshots a) (ta_history b) \<and>
     ta_new b = map abs_event (ma_new a) \<and> ta_all b = map abs_event (ma_all a) \<and> ta_counter b = ma_counter a"

lemma add_rel:
  assumes "acc_rel a b" "out_rel o1 o2"
  shows "acc_rel (add_mt k o1 a) (add_conn k o2 b)"
proof -
  have "obj_rel (\<lambda>c c'. c' = abs_conn c) [(k, mo_state o1)] [(k, co_state o2)]"
    using assms(2) by (simp add: obj_rel_def out_rel_def)
  with assms show ?thesis
    by (cases "mo_event o1") (auto simp: acc_rel_def out_rel_def add_mt_def add_conn_def Let_def comp_def take_map
      intro!: obj_rel_append obj_rel_put)
qed

lemma conns_lockstep:
  assumes "obj_all (\<lambda>k. conn_ok svcs) cs" "obj_rel (\<lambda>c c'. c' = abs_conn c) cs cs'" "acc_rel a b"
    "obj_all (\<lambda>k. conn_ok svcs) (ma_conns a)" "ma_new a = [] \<longrightarrow> ma_all a = all"
  shows "lockstep (\<lambda>x y. snd x = None \<and> obj_all (\<lambda>k. conn_ok svcs) (ma_conns (fst x)) \<and>
      (ma_new (fst x) = [] \<longrightarrow> ma_all (fst x) = all) \<and>
      (\<exists>b'. y = Some b' \<and> acc_rel (fst x) b'))
    (conns_mt svcs cs a) (conns_tick svcs cs' b)"
  using assms(2,1,3-5) unfolding obj_rel_def
proof (induction arbitrary: a b rule: list_all2_induct)
  case Nil
  then show ?case by (auto intro: lockstep_return)
next
  case (Cons kc cs kc' cs')
  obtain k c where kc: "kc = (k, c)" by force
  with Cons have kc': "kc' = (k, abs_conn c)" by (cases kc') simp
  from Cons.prems kc obtain d where d: "obj_get svcs (mc_dst c) = Some d" "mc_key c = connKey (mc_src c) (mc_dst c)"
    by (auto simp: obj_all_def conn_ok_def)
  have n: "ta_counter b = ma_counter a" using Cons.prems by (simp add: acc_rel_def)
  show ?case unfolding kc kc' conns_mt.simps conns_tick.simps n
  proof (rule lockstep_bind [OF conn_tick_lockstep [OF d]], elim exE conjE, hypsubst, unfold sum.case option.case)
    fix x y o1 o2 assume o: "out_rel o1 o2" "same_conn c (mo_state o1)"
    have "conn_ok svcs (mo_state o1)" using o d by (simp add: conn_ok_def same_conn_def)
    then have "obj_all (\<lambda>k. conn_ok svcs) (ma_conns (add_mt k o1 a))"
      "ma_new (add_mt k o1 a) = [] \<longrightarrow> ma_all (add_mt k o1 a) = all"
      using Cons.prems(3,4) by (simp_all add: add_mt_def obj_all_def Let_def split: option.split)
    with Cons.IH [OF _ add_rel [OF Cons.prems(2) o(1)]] Cons.prems(1)
    show "lockstep (\<lambda>x y. snd x = None \<and> obj_all (\<lambda>k. conn_ok svcs) (ma_conns (fst x)) \<and>
      (ma_new (fst x) = [] \<longrightarrow> ma_all (fst x) = all) \<and>
        (\<exists>b'. y = Some b' \<and> acc_rel (fst x) b')) (conns_mt svcs cs (add_mt k o1 a)) (conns_tick svcs cs' (add_conn k o2 b))"
      by (simp add: obj_all_def)
  qed
qed

text \<open>The states of the two programs, and what a tick of the prototype returns against what
  the hook publishes.\<close>

definition state_rel :: "mt_state \<Rightarrow> mock_hook \<Rightarrow> bool" where
  "state_rel m h \<longleftrightarrow> serviceState h = serviceState_mt m \<and>
     obj_rel (\<lambda>c c'. c' = abs_conn c) (connState_mt m) (connState h) \<and>
     allEvents h = map abs_event (allSpikeEvents m) \<and> events h = allEvents h \<and> eventCounter h = eventCounter_mt m"

definition mt_inv :: "mt_state \<Rightarrow> bool" where
  "mt_inv m \<longleftrightarrow> obj_all (\<lambda>k. conn_ok (serviceState_mt m)) (connState_mt m)"

definition published :: "mt_result \<Rightarrow> mock_hook \<Rightarrow> bool" where
  "published r h \<longleftrightarrow> obj_rel snap_rel (mr_snapshots r) (snapshots h) \<and>
     obj_rel (\<lambda>s ps. ps = map abs_point (ms_history s)) (mr_snapshots r) (conn_history h) \<and>
     mr_services r = services h \<and> map abs_event (mr_allEvents r) = events h"

lemma traverse_keys: "map fst (fst (run_state (State_Monad.traverse_list
    (\<lambda>(k, s). do { s' \<leftarrow> f s; State_Monad.return (k, s') }) svcs) e)) = map fst svcs"
  by (induction svcs arbitrary: e) (auto simp: case_prod_beta)

lemma conn_ok_cong: "map fst svcs = map fst svcs' \<Longrightarrow> conn_ok svcs = conn_ok svcs'"
  unfolding conn_ok_def obj_get_def fun_eq_iff by (metis map_of_eq_None_iff list.set_map)

lemma tick_lockstep:
  assumes "state_rel m h" "mt_inv m"
  shows "lockstep (\<lambda>x y. \<exists>r h'. snd x = Inr r \<and> y = Some h' \<and> state_rel (fst x) h' \<and> mt_inv (fst x) \<and> published r h')
    (tick_mt m) (tick h)"
proof -
  define svcs where "svcs = serviceState h"
  have svcs: "serviceState h = svcs" "serviceState_mt m = svcs" using assms(1) by (simp_all add: svcs_def state_rel_def)
  have start: "lockstep (\<lambda>x y. y = x \<and> map fst x = map fst svcs) (tick_services svcs) (tick_services svcs)"
    unfolding lockstep_def tick_services_def by (simp add: traverse_keys)
  have fold: "State_Monad.traverse_list (\<lambda>(k, s). do { s' \<leftarrow> tickService_mt s; State_Monad.return (k, s') }) svcs
      = tick_services svcs" by (simp add: tick_services_def)
  show ?thesis unfolding tick_mt_def tick_def svcs fold
  proof (rule lockstep_bind [OF start], elim conjE, hypsubst)
    fix svcs' :: "ServiceState obj" assume keys: "map fst svcs' = map fst svcs"
    have ok: "obj_all (\<lambda>k. conn_ok svcs') (connState_mt m)"
      using assms(2) conn_ok_cong [OF keys] by (simp add: mt_inv_def svcs)
    have acc: "acc_rel \<lparr>ma_conns = [], ma_snapshots = [], ma_new = [], ma_all = allSpikeEvents m,
        ma_counter = eventCounter_mt m\<rparr> (acc0 h)"
      using assms(1) by (simp add: acc_rel_def acc0_def state_rel_def)
    show "lockstep (\<lambda>x y. \<exists>r h'. snd x = Inr r \<and> y = Some h' \<and> state_rel (fst x) h' \<and> mt_inv (fst x) \<and> published r h')
      (do { r \<leftarrow> conns_mt svcs' (connState_mt m) \<lparr>ma_conns = [], ma_snapshots = [], ma_new = [],
              ma_all = allSpikeEvents m, ma_counter = eventCounter_mt m\<rparr>;
           let acc = fst r;
           let m' = \<lparr>serviceState_mt = svcs', connState_mt = ma_conns acc, allSpikeEvents = ma_all acc,
               eventCounter_mt = ma_counter acc\<rparr>;
           State_Monad.return (m', case snd r of Some ex \<Rightarrow> Inl ex
             | None \<Rightarrow> Inr \<lparr>mr_snapshots = ma_snapshots acc,
                 mr_services = obj_puts (map (\<lambda>s. (ss_name s, service_mt s)) (obj_values svcs')) [],
                 mr_newEvents = ma_new acc, mr_allEvents = ma_all acc\<rparr>) })
      (do { r \<leftarrow> conns_tick svcs' (connState h) (acc0 h); State_Monad.return (map_option (publish_tick svcs' h) r) })"
      unfolding Let_def
      by (rule lockstep_bind [OF conns_lockstep [OF ok _ acc, where all = "allSpikeEvents m"]],
          use assms(1) in \<open>simp add: state_rel_def\<close>, simp add: obj_all_def, simp, elim conjE exE, rule lockstep_return)
        (use assms(1) in \<open>auto simp: state_rel_def mt_inv_def published_def publish_tick_def acc_rel_def\<close>)
  qed
qed

section \<open>Whole runs\<close>

text \<open>The module loaded and ticked \<open>n + 1\<close> times; an exception does not undo the state.\<close>

fun mt_ticks :: "nat \<Rightarrow> (env, mt_state \<times> (js_error + mt_result)) state" where
  "mt_ticks 0 = do { m \<leftarrow> mt_load; tick_mt m }"
| "mt_ticks (Suc n) = do { x \<leftarrow> mt_ticks n; tick_mt (fst x) }"

lemma init_services_keys: "map fst (fst (run_state (State_Monad.traverse_list init_service ns) e)) = ns"
  by (induction ns arbitrary: e) (auto simp: case_prod_beta init_service_def)

lemma load_lockstep: "lockstep (\<lambda>m h. state_rel m h \<and> mt_inv m) mt_load mock_init"
proof -
  let ?ns = "INTERNAL_SERVICES @ EXTERNAL_SERVICES"
  have start: "lockstep (\<lambda>x y. y = x \<and> map fst x = ?ns)
      (State_Monad.traverse_list init_service ?ns) (State_Monad.traverse_list init_service ?ns)"
    unfolding lockstep_def using init_services_keys [of ?ns] by simp
  show ?thesis unfolding mt_load_def mock_init_def tables_agree init_service_mt_eq
  proof (rule lockstep_bind [OF start], elim conjE, hypsubst, rule lockstep_return)
    fix svcs :: "ServiceState obj" assume keys: "map fst svcs = ?ns"
    have conns: "obj_puts (map init_conn_mt CONN_DEFS) [] = map init_conn_mt CONN_DEFS"
      "obj_puts (map init_conn CONN_DEFS) [] = map init_conn CONN_DEFS"
      by (subst obj_puts_distinct; simp add: CONN_DEFS_def init_conn_mt_def init_conn_def connKey_def arrow_def utf8_def Let_def)+
    have "obj_rel (\<lambda>c c'. c' = abs_conn c) (map init_conn_mt CONN_DEFS) (map init_conn CONN_DEFS)"
      by (simp add: obj_rel_def list_all2_map1 list_all2_map2 list.rel_refl init_conn_mt_eq)
    moreover have "conn_ok (obj_puts svcs []) (snd (init_conn_mt d))" if "d \<in> set CONN_DEFS" for d
      using conn_defs_known that set_keys_obj_puts [of svcs "[]"] keys
      unfolding conn_ok_def js_obj.keys_get [symmetric]
      by (simp add: list_all_iff init_conn_mt_def connKey_def Let_def)
    ultimately show "state_rel \<lparr>serviceState_mt = obj_puts svcs [], connState_mt = obj_puts (map init_conn_mt CONN_DEFS) [],
          allSpikeEvents = [], eventCounter_mt = 0\<rparr>
        (ws_state.extend ws_init \<lparr>serviceState = obj_puts svcs [], connState = obj_puts (map init_conn CONN_DEFS) [],
          allEvents = [], eventCounter = 0\<rparr>) \<and>
        mt_inv \<lparr>serviceState_mt = obj_puts svcs [], connState_mt = obj_puts (map init_conn_mt CONN_DEFS) [],
          allSpikeEvents = [], eventCounter_mt = 0\<rparr>"
      by (auto simp: conns state_rel_def mt_inv_def obj_all_def list_all_iff ws_init_def ws_state.defs case_prod_beta)
  qed
qed

lemma ticks_lockstep:
  "lockstep (\<lambda>x y. \<exists>r h. snd x = Inr r \<and> y = Some h \<and> state_rel (fst x) h \<and> mt_inv (fst x) \<and> published r h)
     (mt_ticks n) (mock_ticks n)"
proof (induction n)
  case 0
  show ?case unfolding mt_ticks.simps mock_ticks.simps
    by (rule lockstep_bind [OF load_lockstep]) (rule tick_lockstep; simp)
next
  case (Suc n)
  show ?case unfolding mt_ticks.simps mock_ticks.simps
    by (rule lockstep_bind [OF Suc], elim exE conjE, hypsubst, unfold option.case) (rule tick_lockstep)
qed

text \<open>
  C11: the hook \<open>useMockData\<close> is a faithful port of the prototype's \<open>MTData\<close>. Run on the same
  random draws and the same clock readings, whatever they are, both load and tick without
  an exception any number of times, leave the same services and connections, and the
  prototype's result is what the hook publishes: snapshot by snapshot under the same keys
  the same readings (the reading \<open>latest_srtt_us\<close> is the average), the history inside a
  snapshot is the connection's entry of the hook's history, and the services and the event
  log agree.
\<close>

theorem mt_data_ported:
  "\<exists>r h. snd (fst (run_state (mt_ticks n) e)) = Inr r \<and> fst (run_state (mock_ticks n) e) = Some h \<and>
     published r h \<and> state_rel (fst (fst (run_state (mt_ticks n) e))) h \<and>
     snd (run_state (mt_ticks n) e) = snd (run_state (mock_ticks n) e)"
  using ticks_lockstep [of n] unfolding lockstep_def by blast

section \<open>The exception\<close>

text \<open>Without an assumption on the environment, what one pass of the loop does to a connection.\<close>

definition ticked_once :: "MtConn \<Rightarrow> MtConn \<Rightarrow> bool" where
  "ticked_once c c' \<longleftrightarrow> same_conn c c' \<and> mc_sampleCount c' = mc_sampleCount c + 30 \<and>
     length (mc_history c') = Suc (min 300 (length (mc_history c)))"

lemma spike_mt_keeps:
  "let c' = fst (run_state (spike_mt b c) e) in
   same_conn c c' \<and> mc_sampleCount c' = mc_sampleCount c \<and> mc_history c' = mc_history c"
  unfolding spike_mt_def by (auto simp: Let_def case_prod_beta same_conn_def)

lemma conn_tick_mt_ok:
  assumes "obj_get svcs (mc_dst c) = Some d"
  shows "\<exists>o1. fst (run_state (conn_tick_mt svcs n c) e) = Inr o1 \<and> ticked_once c (mo_state o1)"
  using spike_mt_keeps [of "ss_stressKind d \<noteq> None" c e] unfolding conn_tick_mt_def assms option.case
  by (auto simp: Let_def case_prod_beta ticked_once_def same_conn_def SAMPLES_def)

lemma add_mt_conns [simp]: "ma_conns (add_mt k o1 acc) = ma_conns acc @ [(k, mo_state o1)]"
  by (simp add: add_mt_def Let_def split: option.split)

lemma conns_mt_throws:
  assumes "obj_all (\<lambda>_ c. obj_get svcs (mc_dst c) \<noteq> None) xs" "obj_get svcs (mc_dst c) = None"
  shows "\<exists>acc' xs'. fst (run_state (conns_mt svcs (xs @ (k, c) # ys) acc) e) = (acc', Some TypeError) \<and>
    ma_conns acc' = ma_conns acc @ xs' @ (k, c) # ys \<and> obj_rel ticked_once xs xs'"
  using assms(1)
proof (induction xs arbitrary: acc e)
  case Nil
  show ?case by (simp add: conn_tick_mt_def assms(2) obj_rel_def)
next
  case (Cons kx xs)
  obtain k1 c1 where kx: "kx = (k1, c1)" by force
  with Cons.prems obtain d where "obj_get svcs (mc_dst c1) = Some d" by (auto simp: obj_all_def)
  from conn_tick_mt_ok [OF this, of "ma_counter acc" e] obtain o1 where
    o1: "fst (run_state (conn_tick_mt svcs (ma_counter acc) c1) e) = Inr o1" "ticked_once c1 (mo_state o1)" by blast
  have "obj_all (\<lambda>_ c. obj_get svcs (mc_dst c) \<noteq> None) xs" using Cons.prems by (simp add: obj_all_def)
  from Cons.IH [OF this, of "add_mt k1 o1 acc" "snd (run_state (conn_tick_mt svcs (ma_counter acc) c1) e)"]
  obtain acc' xs' where "fst (run_state (conns_mt svcs (xs @ (k, c) # ys) (add_mt k1 o1 acc))
      (snd (run_state (conn_tick_mt svcs (ma_counter acc) c1) e))) = (acc', Some TypeError)"
    "ma_conns acc' = ma_conns acc @ ((k1, mo_state o1) # xs') @ (k, c) # ys" "obj_rel ticked_once xs xs'" by auto
  with o1 show ?case
    by (intro exI [of _ acc'] exI [of _ "(k1, mo_state o1) # xs'"]) (simp add: kx case_prod_beta obj_rel_def)
qed

text \<open>
  C14: the error path of the prototype's \<open>tick\<close>. When a connection's destination is not a
  service, reading its \<open>stressKind\<close> throws, at the first such connection: the call returns
  no snapshots, the services and the connections before it have been ticked (30 samples
  more, one point more of history), and it and the connections after it are as they were.
  (So \<open>classifyCause\<close>'s own test for a missing service is never reached.)
\<close>

theorem mt_tick_throws:
  assumes "connState_mt m = xs @ (k, c) # ys"
    and "obj_all (\<lambda>_ x. obj_get (serviceState_mt m) (mc_dst x) \<noteq> None) xs"
    and "obj_get (serviceState_mt m) (mc_dst c) = None"
  shows "\<exists>m' xs'. fst (run_state (tick_mt m) e) = (m', Inl TypeError) \<and>
    connState_mt m' = xs' @ (k, c) # ys \<and> obj_rel ticked_once xs xs' \<and>
    obj_keys (serviceState_mt m') = obj_keys (serviceState_mt m)"
proof -
  let ?run = "run_state (tick_services (serviceState_mt m)) e"
  have keys: "map fst (fst ?run) = map fst (serviceState_mt m)" by (simp add: tick_services_def traverse_keys)
  then have none: "(obj_get (fst ?run) d = None) = (obj_get (serviceState_mt m) d = None)" for d
    unfolding obj_get_def by (metis map_of_eq_None_iff list.set_map)
  have "obj_all (\<lambda>_ x. obj_get (fst ?run) (mc_dst x) \<noteq> None) xs" "obj_get (fst ?run) (mc_dst c) = None"
    using assms(2,3) by (simp_all add: none)
  from conns_mt_throws [OF this, of k ys "\<lparr>ma_conns = [], ma_snapshots = [], ma_new = [],
      ma_all = allSpikeEvents m, ma_counter = eventCounter_mt m\<rparr>" "snd ?run"]
  show ?thesis using keys
    by (auto simp: tick_mt_def Let_def assms(1) obj_keys_def case_prod_beta tick_services_def)
qed

definition mt_broken :: mt_state where
  "mt_broken = \<lparr>serviceState_mt = [(''redis'', \<lparr>ss_name = ''redis'', ss_cpu_pct = 20, ss_io_wait_pct = 4,
       ss_mem_pressure_pct = 9, ss_cpu_throttle_pct = 0, ss_stressKind = None, ss_stressTimer = 0, ss_history = []\<rparr>)],
     connState_mt = map init_conn_mt
       [\<lparr>cd_src = ''auth-svc'', cd_dst = ''redis'', cd_baseMs = 2, cd_noiseMs = 1\<rparr>,
        \<lparr>cd_src = ''auth-svc'', cd_dst = ''kafka'', cd_baseMs = 3, cd_noiseMs = 1\<rparr>],
     allSpikeEvents = [], eventCounter_mt = 0\<rparr>"

theorem mt_tick_throws_witness:
  "\<exists>m' x'. fst (run_state (tick_mt mt_broken) env0) = (m', Inl TypeError) \<and>
     connState_mt m' = [x', connState_mt mt_broken ! 1]"
proof -
  let ?x = "connState_mt mt_broken ! 0" and ?c = "snd (connState_mt mt_broken ! 1)"
  have "connState_mt mt_broken = [?x] @ (fst (connState_mt mt_broken ! 1), ?c) # []"
    by (simp add: mt_broken_def)
  moreover have "obj_all (\<lambda>_ x. obj_get (serviceState_mt mt_broken) (mc_dst x) \<noteq> None) [?x]"
    "obj_get (serviceState_mt mt_broken) (mc_dst ?c) = None"
    by (simp_all add: mt_broken_def obj_all_def obj_get_def init_conn_mt_def Let_def)
  ultimately show ?thesis
    using mt_tick_throws [of mt_broken "[?x]" "fst (connState_mt mt_broken ! 1)" ?c "[]" env0]
    by (auto simp: obj_rel_def list_all2_Cons1)
qed

end
