(* ===== verification/MtPlot.thy ===== *)
theory MtPlot
  imports Format
begin

text \<open>
  What the drawing code of the design prototype shares: the extremes of a list of numbers,
  a linear scale computed in doubles, and the polyline of a sparkline (\<open>MiniSpark\<close> of
  \<open>mt-views.jsx\<close> and \<open>Sparkline\<close> of \<open>mt-chart.jsx\<close> use the same two formulas).

  Rounding is monotone and fixes doubles, so a scale maps the data into its interval exactly,
  with no tolerance for rounding errors.
\<close>

section \<open>Extremes\<close>

text \<open>\<open>Math.min(...values)\<close> and \<open>Math.max(...values)\<close> of a list that is not empty.\<close>

definition math_min :: "number list \<Rightarrow> number" where
  "math_min vs = fold min (tl vs) (hd vs)"

definition math_max :: "number list \<Rightarrow> number" where
  "math_max vs = fold max (tl vs) (hd vs)"

lemma math_min_Min: "vs \<noteq> [] \<Longrightarrow> math_min vs = Min (set vs)"
  unfolding math_min_def by (cases vs) (simp_all add: Min.set_eq_fold [symmetric])

lemma math_max_Max: "vs \<noteq> [] \<Longrightarrow> math_max vs = Max (set vs)"
  unfolding math_max_def by (cases vs) (simp_all add: Max.set_eq_fold [symmetric])

lemma math_extremes: "v \<in> set vs \<Longrightarrow> math_min vs \<le> v \<and> v \<le> math_max vs"
  by (cases "vs = []") (simp_all add: math_min_Min math_max_Max)

lemma math_extremes_in: "vs \<noteq> [] \<Longrightarrow> math_min vs \<in> set vs \<and> math_max vs \<in> set vs"
  by (simp add: math_min_Min math_max_Max)

section \<open>A linear scale\<close>

text \<open>\<open>(x - lo) / range * width\<close>, each operation rounded.\<close>

definition lin_scale :: "number \<Rightarrow> number \<Rightarrow> number \<Rightarrow> number \<Rightarrow> number" where
  "lin_scale lo r width x = fmul (fdiv (fsub x lo) r) width"

lemma fdiv_unit: "0 \<le> a \<Longrightarrow> a \<le> r \<Longrightarrow> 0 < r \<Longrightarrow> 0 \<le> fdiv a r \<and> fdiv a r \<le> 1"
  unfolding fdiv_def using f64.rnd_between [of 0 1 "a / r"] by simp

lemma fmul_unit: "0 \<le> c \<Longrightarrow> c \<le> 1 \<Longrightarrow> 0 \<le> w \<Longrightarrow> is_double w \<Longrightarrow> 0 \<le> fmul c w \<and> fmul c w \<le> w"
  unfolding fmul_def is_double_def
  using f64.rnd_between [of 0 w "c * w"] mult_right_mono [of c 1 w] by simp

lemma lin_scale_bounds:
  assumes "lo \<le> x" "fsub x lo \<le> r" "0 < r" "0 \<le> w" "is_double w"
  shows "0 \<le> lin_scale lo r w x" "lin_scale lo r w x \<le> w"
proof -
  have "0 \<le> fsub x lo" using assms(1) by (simp add: fsub_def f64.rnd_nonneg)
  then have "0 \<le> fdiv (fsub x lo) r \<and> fdiv (fsub x lo) r \<le> 1" using assms by (intro fdiv_unit)
  then show "0 \<le> lin_scale lo r w x" "lin_scale lo r w x \<le> w"
    unfolding lin_scale_def using fmul_unit assms(4,5) by blast+
qed

lemma fsub_mono: "a \<le> b \<Longrightarrow> d \<le> c \<Longrightarrow> fsub a c \<le> fsub b d"
  unfolding fsub_def by (rule fl_mono) simp

lemma fadd_mono: "a \<le> b \<Longrightarrow> c \<le> d \<Longrightarrow> fadd a c \<le> fadd b d"
  unfolding fadd_def by (rule fl_mono) simp

lemma lin_scale_mono: "x \<le> y \<Longrightarrow> 0 < r \<Longrightarrow> 0 \<le> w \<Longrightarrow> lin_scale lo r w x \<le> lin_scale lo r w y"
  unfolding lin_scale_def fmul_def fdiv_def
  by (intro fl_mono mult_right_mono divide_right_mono fsub_mono) simp_all

section \<open>The polyline of a sparkline\<close>

definition spark_range :: "number list \<Rightarrow> number" where
  "spark_range vs = (let r = fsub (math_max vs) (math_min vs) in if r = 0 then 1 else r)"

definition spark_point :: "number list \<Rightarrow> number \<Rightarrow> number \<Rightarrow> nat \<Rightarrow> number \<times> number" where
  "spark_point vs W H i =
     (fmul (fdiv (of_nat i) (of_nat (length vs - 1))) W,
      fsub (fsub H (fmul (fdiv (fsub (vs ! i) (math_min vs)) (spark_range vs)) (fsub H 4))) 2)"

definition spark_points :: "number list \<Rightarrow> number \<Rightarrow> number \<Rightarrow> (number \<times> number) list" where
  "spark_points vs W H = map (spark_point vs W H) [0..<length vs]"

lemma spark_range_pos: "vs \<noteq> [] \<Longrightarrow> 0 < spark_range vs"
proof -
  assume "vs \<noteq> []"
  then have "math_min vs \<le> math_max vs" using math_extremes math_extremes_in by blast
  then have "0 \<le> fsub (math_max vs) (math_min vs)" by (simp add: fsub_def f64.rnd_nonneg)
  then show ?thesis by (simp add: spark_range_def Let_def)
qed

lemma spark_point_in_box:
  assumes i: "i < length vs" "2 \<le> length vs" and W: "0 \<le> W" "is_double W"
    and H: "4 \<le> H" "is_double H" "is_double (H - 4)" "is_double (H - 2)"
  shows "0 \<le> fst (spark_point vs W H i) \<and> fst (spark_point vs W H i) \<le> W \<and>
    2 \<le> snd (spark_point vs W H i) \<and> snd (spark_point vs W H i) \<le> H - 2"
proof -
  have "0 \<le> fdiv (of_nat i) (of_nat (length vs - 1)) \<and> fdiv (of_nat i) (of_nat (length vs - 1)) \<le> 1"
    using i by (intro fdiv_unit) auto
  then have x: "0 \<le> fst (spark_point vs W H i) \<and> fst (spark_point vs W H i) \<le> W"
    unfolding spark_point_def using fmul_unit W by simp
  have ne: "vs \<noteq> []" using i by auto
  have v: "math_min vs \<le> vs ! i" "vs ! i \<le> math_max vs" using math_extremes [of "vs ! i" vs] i by simp_all
  have "0 \<le> fsub (vs ! i) (math_min vs)" using v by (simp add: fsub_def f64.rnd_nonneg)
  moreover have "fsub (vs ! i) (math_min vs) \<le> spark_range vs"
  proof -
    have "fsub (vs ! i) (math_min vs) \<le> fsub (math_max vs) (math_min vs)" by (rule fsub_mono) (use v in simp_all)
    then show ?thesis by (simp add: spark_range_def Let_def)
  qed
  ultimately have q: "0 \<le> fdiv (fsub (vs ! i) (math_min vs)) (spark_range vs) \<and>
      fdiv (fsub (vs ! i) (math_min vs)) (spark_range vs) \<le> 1"
    using spark_range_pos [OF ne] by (intro fdiv_unit)
  define m where "m = fmul (fdiv (fsub (vs ! i) (math_min vs)) (spark_range vs)) (fsub H 4)"
  have H4: "fsub H 4 = H - 4" using H(3) by (simp add: fsub_def is_double_def)
  have m: "0 \<le> m" "m \<le> H - 4"
    using fmul_unit [of "fdiv (fsub (vs ! i) (math_min vs)) (spark_range vs)" "H - 4"] q H by (simp_all add: m_def H4)
  have "4 \<le> fsub H m" "fsub H m \<le> H"
    using m H(2) f64.le_rnd [of 4 "H - m"] f64.rnd_le [of H "H - m"] by (simp_all add: fsub_def is_double_def)
  then have "2 \<le> fsub (fsub H m) 2" "fsub (fsub H m) 2 \<le> H - 2"
    using f64.le_rnd [of 2 "fsub H m - 2"] f64.rnd_le [of "H - 2" "fsub H m - 2"] H(4)
    by (simp_all add: fsub_def [of "fsub H m" 2] is_double_def)
  with x show ?thesis by (simp add: spark_point_def m_def)
qed

end
