(* ===== verification/MtViews.thy ===== *)
theory MtViews
  imports MtData MtPlot Overview ConnectionList HeatmapMatrix
begin

text \<open>
  \<open>design_handoff_microtrace/mt-views.jsx\<close>: the list and the matrix of the prototype and the
  tab bar, with the formatters and tables the file has for itself. A style object is a list
  of its properties; hover effects, which set a property of the element, are functions of
  the event.

  The file's \<open>sort\<close> subtracts the two values of the chosen column. For the column of the
  connection names these are strings: the operator \<open>-\<close> converts them to numbers, which for a
  text that is no number gives NaN, and \<open>sort\<close> takes NaN for 0. The conversion of the
  language (\<open>ToNumber\<close> of a string) is the argument \<open>tonum\<close>, with \<open>None\<close> for NaN.
\<close>

section \<open>Formatters and tables\<close>

definition vFmtUs :: "number \<Rightarrow> string" where
  "vFmtUs us =
     (if us \<ge> 1000 then toFixed (if us \<ge> 10000 then 1 else 2) (fdiv us 1000) @ ''ms''
      else show_int (math_round us) @ micro @ ''s'')"

definition vLatencyStatus :: "number \<Rightarrow> LatencyStatus" where
  "vLatencyStatus p99 =
     (if p99 < 5000 then St_ok else if p99 < 20000 then St_warning
      else if p99 < 100000 then St_high else St_critical)"

fun V_STATUS_COLOR :: "LatencyStatus \<Rightarrow> string" where
  "V_STATUS_COLOR St_ok = ''#16a34a''"
| "V_STATUS_COLOR St_warning = ''#d97706''"
| "V_STATUS_COLOR St_high = ''#ea580c''"
| "V_STATUS_COLOR St_critical = ''#dc2626''"

fun V_STATUS_BG :: "LatencyStatus \<Rightarrow> string" where
  "V_STATUS_BG St_ok = ''#dcfce7''"
| "V_STATUS_BG St_warning = ''#fef3c7''"
| "V_STATUS_BG St_high = ''#fed7aa''"
| "V_STATUS_BG St_critical = ''#fee2e2''"

record v_meta =
  vm_label :: string
  vm_color :: string
  vm_icon :: string

fun V_CAUSE_META :: "CauseKind \<Rightarrow> v_meta" where
  "V_CAUSE_META Cause_network =
     \<lparr>vm_label = ''Network'', vm_color = ''#2563eb'', vm_icon = utf8 [0xF0, 0x9F, 0x8C, 0x90]\<rparr>"
| "V_CAUSE_META Cause_cpu =
     \<lparr>vm_label = ''CPU'', vm_color = ''#dc2626'', vm_icon = utf8 [0xF0, 0x9F, 0x94, 0xA5]\<rparr>"
| "V_CAUSE_META Cause_io =
     \<lparr>vm_label = ''I/O'', vm_color = ''#7c3aed'', vm_icon = utf8 [0xF0, 0x9F, 0x92, 0xBE]\<rparr>"
| "V_CAUSE_META Cause_memory =
     \<lparr>vm_label = ''Memory'', vm_color = ''#ea580c'', vm_icon = utf8 [0xF0, 0x9F, 0xA7, 0xA0]\<rparr>"
| "V_CAUSE_META Cause_external =
     \<lparr>vm_label = ''External'', vm_color = ''#d97706'', vm_icon = utf8 [0xF0, 0x9F, 0x94, 0x8C]\<rparr>"

section \<open>MiniSpark\<close>

datatype mini_spark =
    Spark_blank number number
  | Spark_line string string number number

definition MiniSpark :: "number list \<Rightarrow> string \<Rightarrow> number \<Rightarrow> number \<Rightarrow> mini_spark" where
  "MiniSpark vs color width height =
     (if length vs < 2 then Spark_blank width height
      else Spark_line
        (join '' '' (map (\<lambda>(x, y). toFixed 1 x @ '','' @ toFixed 1 y) (spark_points vs width height)))
        color width height)"

section \<open>ConnectionListView\<close>

datatype FilterMt = MF_all | MF_spike | MF_stressed

datatype SortKeyMt = K_src_service | K_p50_us | K_p95_us | K_p99_us | K_retransmit_count

record list_state_mt =
  sortKey_mt :: SortKeyMt
  sortDir_mt :: SortDir
  filter_mt :: FilterMt

definition list_init_mt :: list_state_mt where
  "list_init_mt = \<lparr>sortKey_mt = K_p99_us, sortDir_mt = Desc, filter_mt = MF_all\<rparr>"

definition stressed_mt :: "MtSnap \<Rightarrow> bool" where
  "stressed_mt s \<longleftrightarrow> ms_dst_cpu_pct s > 70 \<or> ms_dst_io_wait_pct s > 30 \<or> ms_dst_mem_pressure_pct s > 70"

fun keeps_mt :: "FilterMt \<Rightarrow> MtSnap \<Rightarrow> bool" where
  "keeps_mt MF_all s = True"
| "keeps_mt MF_spike s = ms_is_spike s"
| "keeps_mt MF_stressed s = stressed_mt s"

datatype js_val = JStr string | JNum number

fun sort_value :: "SortKeyMt \<Rightarrow> MtSnap \<Rightarrow> js_val" where
  "sort_value K_src_service s = JStr (ms_src_service s)"
| "sort_value K_p50_us s = JNum (ms_p50_us s)"
| "sort_value K_p95_us s = JNum (ms_p95_us s)"
| "sort_value K_p99_us s = JNum (ms_p99_us s)"
| "sort_value K_retransmit_count s = JNum (ms_retransmit_count s)"

fun to_number :: "(string \<Rightarrow> number option) \<Rightarrow> js_val \<Rightarrow> number option" where
  "to_number tonum (JStr s) = tonum s"
| "to_number tonum (JNum x) = Some x"

definition js_minus :: "(string \<Rightarrow> number option) \<Rightarrow> js_val \<Rightarrow> js_val \<Rightarrow> number option" where
  "js_minus tonum v w = Option.bind (to_number tonum v) (\<lambda>x. map_option (fsub x) (to_number tonum w))"

text \<open>The comparison of \<open>sort\<close>: NaN counts as 0.\<close>

definition sort_cmp_mt :: "(string \<Rightarrow> number option) \<Rightarrow> SortKeyMt \<Rightarrow> SortDir \<Rightarrow> MtSnap \<Rightarrow> MtSnap \<Rightarrow> number" where
  "sort_cmp_mt tonum key dir a b =
     (let va = sort_value key a; vb = sort_value key b
      in nullish (if dir = Asc then js_minus tonum va vb else js_minus tonum vb va) 0)"

definition rows_mt :: "(string \<Rightarrow> number option) \<Rightarrow> list_state_mt \<Rightarrow> MtSnap obj \<Rightarrow> MtSnap list" where
  "rows_mt tonum st snaps =
     (let arr = obj_values snaps;
          arr = (if filter_mt st = MF_spike then filter ms_is_spike arr else arr);
          arr = (if filter_mt st = MF_stressed then filter stressed_mt arr else arr)
      in js_sort (sort_cmp_mt tonum (sortKey_mt st) (sortDir_mt st)) arr)"

definition setSort :: "SortKeyMt \<Rightarrow> list_state_mt \<Rightarrow> list_state_mt" where
  "setSort key st =
     (if key = sortKey_mt st then st\<lparr>sortDir_mt := (if sortDir_mt st = Asc then Desc else Asc)\<rparr>
      else st\<lparr>sortKey_mt := key, sortDir_mt := Desc\<rparr>)"

definition setFilter_mt :: "FilterMt \<Rightarrow> list_state_mt \<Rightarrow> list_state_mt" where
  "setFilter_mt k st = st\<lparr>filter_mt := k\<rparr>"

type_synonym style = "(string \<times> string) list"

definition width_style :: "nat option \<Rightarrow> style" where
  "width_style w = (case w of None \<Rightarrow> [] | Some n \<Rightarrow> [(''width'', show_nat n)])"

definition hStyle :: "string \<Rightarrow> string \<Rightarrow> nat option \<Rightarrow> style" where
  "hStyle label align width =
     [(''padding'', ''7px 10px''), (''fontSize'', ''10''), (''color'', ''#475569''),
      (''textTransform'', ''uppercase''), (''letterSpacing'', ''0.05em''), (''fontWeight'', ''700''),
      (''textAlign'', align), (''background'', ''#f8fafc''),
      (''borderBottom'', ''1px solid #e2e8f0''),
      (''position'', ''sticky''), (''top'', ''0''), (''zIndex'', ''1'')] @ width_style width @
     [(''fontFamily'', ''Inter, system-ui'')]"

definition tdStyle :: "string \<Rightarrow> style" where
  "tdStyle align =
     [(''padding'', ''8px 10px''), (''borderBottom'', ''1px solid #f1f5f9''), (''textAlign'', align),
      (''verticalAlign'', ''middle'')]"

text \<open>A cell of the header: the key a click sorts by, or none; the style; the label; the arrow.\<close>

record head_cell =
  hc_click :: "SortKeyMt option"
  hc_style :: style
  hc_label :: string
  hc_arrow :: "string option"

definition headerCell :: "list_state_mt \<Rightarrow> SortKeyMt \<Rightarrow> string \<Rightarrow> string \<Rightarrow> nat option \<Rightarrow> head_cell" where
  "headerCell st key label align width =
     \<lparr>hc_click = Some key,
      hc_style =
        [(''padding'', ''7px 10px''), (''fontSize'', ''10''), (''color'', ''#475569''),
         (''textTransform'', ''uppercase''), (''letterSpacing'', ''0.05em''), (''fontWeight'', ''700''),
         (''cursor'', ''pointer''), (''userSelect'', ''none''), (''textAlign'', align),
         (''background'', ''#f8fafc''), (''borderBottom'', ''1px solid #e2e8f0''),
         (''position'', ''sticky''), (''top'', ''0''), (''zIndex'', ''1'')] @ width_style width @
        [(''fontFamily'', ''Inter, system-ui'')],
      hc_label = label,
      hc_arrow = (if sortKey_mt st = key
        then Some (if sortDir_mt st = Asc then utf8 [0xE2, 0x96, 0xB2] else utf8 [0xE2, 0x96, 0xBC]) else None)\<rparr>"

record res_bar =
  db_label :: string
  db_title :: string
  db_width :: number
  db_color :: string

definition res_bar :: "string \<Rightarrow> number \<Rightarrow> string \<Rightarrow> res_bar" where
  "res_bar lbl val c =
     (let hot = (val > 70 \<or> lbl = ''IO'' \<and> val > 30)
      in \<lparr>db_label = lbl, db_title = lbl @ '' '' @ toFixed 0 val @ ''%'', db_width = min 100 val,
          db_color = (if hot then c else ''#cbd5e1'')\<rparr>)"

record row_mt =
  rw_key :: string
  rw_selected :: bool
  rw_background :: string
  rw_borderLeft :: string
  rw_spike_dot :: bool
  rw_src :: string
  rw_dst :: string
  rw_ext :: bool
  rw_p50 :: string
  rw_p95 :: string
  rw_p99 :: string
  rw_color :: string
  rw_trend :: mini_spark
  rw_retrans :: number
  rw_retrans_color :: string
  rw_resources :: "res_bar list"
  rw_status :: pill

definition row_mt :: "string option \<Rightarrow> MtSnap \<Rightarrow> row_mt" where
  "row_mt selectedKey snap =
     (let status = vLatencyStatus (ms_p99_us snap); color = V_STATUS_COLOR status;
          sel = (selectedKey = Some (ms_key snap));
          cause = map_option V_CAUSE_META (ms_cause_kind snap);
          sparkVals = map pc_p99_us (keep_last 30 (ms_history snap))
      in \<lparr>rw_key = ms_key snap, rw_selected = sel,
          rw_background = (if sel then ''#eff6ff'' else ''transparent''),
          rw_borderLeft = (if sel then ''3px solid #2563eb'' else ''3px solid transparent''),
          rw_spike_dot = ms_is_spike snap, rw_src = ms_src_service snap, rw_dst = ms_dst_service snap,
          rw_ext = (ms_dst_type snap = External), rw_p50 = vFmtUs (ms_p50_us snap),
          rw_p95 = vFmtUs (ms_p95_us snap), rw_p99 = vFmtUs (ms_p99_us snap), rw_color = color,
          rw_trend = MiniSpark sparkVals color 70 20, rw_retrans = ms_retransmit_count snap,
          rw_retrans_color = (if ms_retransmit_count snap > 10 then ''#ea580c'' else ''#94a3b8''),
          rw_resources = [res_bar ''CPU'' (ms_dst_cpu_pct snap) ''#dc2626'',
            res_bar ''IO'' (ms_dst_io_wait_pct snap) ''#7c3aed'',
            res_bar ''MEM'' (ms_dst_mem_pressure_pct snap) ''#ea580c''],
          rw_status = (case cause of
              Some m \<Rightarrow> if ms_is_spike snap
                then \<lparr>pl_text = vm_icon m @ vm_label m, pl_color = vm_color m, pl_bg = vm_color m @ ''14''\<rparr>
                else \<lparr>pl_text = status_text status, pl_color = color, pl_bg = V_STATUS_BG status\<rparr>
            | None \<Rightarrow> \<lparr>pl_text = status_text status, pl_color = color, pl_bg = V_STATUS_BG status\<rparr>)\<rparr>)"

text \<open>Entering and leaving a row changes its background unless the row is selected.\<close>

definition row_hover :: "bool \<Rightarrow> row_mt \<Rightarrow> row_mt" where
  "row_hover entered r =
     (if rw_selected r then r
      else r\<lparr>rw_background := (if entered then ''#f8fafc'' else ''transparent'')\<rparr>)"

record chip_mt =
  ch_filter :: FilterMt
  ch_label :: string
  ch_border :: string
  ch_background :: string
  ch_color :: string

definition chip_mt :: "list_state_mt \<Rightarrow> FilterMt \<times> string \<Rightarrow> chip_mt" where
  "chip_mt st kl =
     (let k = fst kl; on = (filter_mt st = k)
      in \<lparr>ch_filter = k, ch_label = snd kl,
          ch_border = (if on then ''1px solid #2563eb'' else ''1px solid #e2e8f0''),
          ch_background = (if on then ''#eff6ff'' else ''#ffffff''),
          ch_color = (if on then ''#2563eb'' else ''#475569'')\<rparr>)"

record list_view_mt =
  lw_chips :: "chip_mt list"
  lw_head :: "head_cell list"
  lw_empty :: "string option"
  lw_rows :: "row_mt list"

definition ConnectionListView_mt ::
  "(string \<Rightarrow> number option) \<Rightarrow> list_state_mt \<Rightarrow> MtSnap obj \<Rightarrow> string option \<Rightarrow> list_view_mt" where
  "ConnectionListView_mt tonum st snaps selectedKey =
     (let rows = rows_mt tonum st snaps; dot = '' '' @ utf8 [0xC2, 0xB7] @ '' '';
          plain = (\<lambda>label align width. \<lparr>hc_click = None, hc_style = hStyle label align (Some width),
                     hc_label = label, hc_arrow = None\<rparr>)
      in \<lparr>lw_chips = map (chip_mt st)
           [(MF_all, ''All'' @ dot @ show_nat (length (obj_keys snaps))),
            (MF_spike, utf8 [0xF0, 0x9F, 0x94, 0xB4] @ '' Spiking'' @ dot @
               show_nat (length (filter ms_is_spike (obj_values snaps)))),
            (MF_stressed, utf8 [0xE2, 0x9A, 0xA1] @ '' Stressed'' @ dot @
               show_nat (length (filter stressed_mt (obj_values snaps))))],
          lw_head =
           [headerCell st K_src_service ''Connection'' ''left'' None,
            headerCell st K_p50_us ''P50'' ''right'' (Some 70),
            headerCell st K_p95_us ''P95'' ''right'' (Some 70),
            headerCell st K_p99_us ''P99'' ''right'' (Some 80),
            plain ''Trend'' ''center'' 90,
            headerCell st K_retransmit_count ''Retrans'' ''right'' (Some 60),
            plain ''Dst Resources'' ''left'' 130,
            plain ''Status'' ''center'' 90],
          lw_empty = (if rows = [] then Some ''No connections match this filter'' else None),
          lw_rows = map (row_mt selectedKey) rows\<rparr>)"

section \<open>HeatmapMatrixView\<close>

text \<open>The two sets of services, filled in one pass over the connections.\<close>

definition add_ends :: "MtSnap \<Rightarrow> string list \<times> string list \<Rightarrow> string list \<times> string list" where
  "add_ends s ie =
     (let (i, e) = ie;
          (i, e) = (if ms_src_type s = Internal then (set_add (ms_src_service s) i, e)
                    else (i, set_add (ms_src_service s) e))
      in if ms_dst_type s = Internal then (set_add (ms_dst_service s) i, e)
         else (i, set_add (ms_dst_service s) e))"

definition names_mt :: "MtSnap obj \<Rightarrow> string list" where
  "names_mt snaps =
     (let (i, e) = fold add_ends (obj_values snaps) ([], []) in sort_strings (i @ e))"

definition pair_key :: "string \<Rightarrow> string \<Rightarrow> string" where
  "pair_key src dst = src @ ''|'' @ dst"

definition connByPair :: "MtSnap obj \<Rightarrow> MtSnap obj" where
  "connByPair snaps =
     obj_puts (map (\<lambda>s. (pair_key (ms_src_service s) (ms_dst_service s), s)) (obj_values snaps)) []"

text \<open>\<open>services?.[name]?.stress_kind\<close> as a condition: an unknown service is not stressed.\<close>

definition label_mt :: "string \<Rightarrow> ServiceMap \<Rightarrow> string \<Rightarrow> label_view" where
  "label_mt normal svcs name =
     (let stressed = (case obj_get svcs name of None \<Rightarrow> False | Some svc \<Rightarrow> sv_stress_kind svc \<noteq> None)
      in \<lparr>lb_text = name, lb_color = (if stressed then ''#dc2626'' else normal),
          lb_weight = (if stressed then 600 else 500)\<rparr>)"

definition cell_mt :: "MtSnap obj \<Rightarrow> string option \<Rightarrow> string \<Rightarrow> string \<Rightarrow> cell option" where
  "cell_mt snaps selectedKey src dst =
     (case obj_get (connByPair snaps) (pair_key src dst) of
        None \<Rightarrow> None
      | Some snap \<Rightarrow>
          (let status = vLatencyStatus (ms_p99_us snap); color = V_STATUS_COLOR status;
               sel = (selectedKey = Some (ms_key snap))
           in Some \<lparr>ce_title = src @ '' '' @ arrow @ '' '' @ dst @ [CHR 0x0A] @ ''P99 '' @ vFmtUs (ms_p99_us snap) @
                 '' '' @ utf8 [0xC2, 0xB7] @ '' '' @ (if ms_is_spike snap then ''SPIKE'' else status_text status),
               ce_select = ms_key snap, ce_background = color,
               ce_border = (if sel then ''2px solid #0f172a''
                 else if ms_is_spike snap then ''2px solid #dc2626'' else ''1px solid transparent''),
               ce_boxShadow = Some (if sel then ''0 0 0 2px #2563eb55'' else ''none''),
               ce_animation = Some (if ms_is_spike snap then ''matrixPulse 1.2s infinite'' else ''none''),
               ce_dot = ms_is_spike snap\<rparr>))"

definition HeatmapMatrixView_mt :: "MtSnap obj \<Rightarrow> ServiceMap \<Rightarrow> string option \<Rightarrow> matrix_view" where
  "HeatmapMatrixView_mt snaps svcs selectedKey =
     (let sources = names_mt snaps; targets = names_mt snaps
      in \<lparr>mv_legend = map (\<lambda>(s, l). (V_STATUS_COLOR s, l))
            [(St_ok, ''<5ms''), (St_warning, ''5'' @ utf8 [0xE2, 0x80, 0x93] @ ''20''),
             (St_high, ''20'' @ utf8 [0xE2, 0x80, 0x93] @ ''100ms''), (St_critical, ''>100ms'')],
          mv_cols = map (label_mt ''#475569'' svcs) targets,
          mv_rows = map (\<lambda>src. (label_mt ''#0f172a'' svcs src,
            map (cell_mt snaps selectedKey src) targets)) sources\<rparr>)"

section \<open>ViewSwitcher\<close>

datatype svg_shape =
    Circle int int int
  | Line int int int int number
  | Rect int int int int number

record tab_view =
  tb_value :: ViewMode
  tb_label :: string
  tb_icon :: "svg_shape list"
  tb_background :: string
  tb_color :: string
  tb_boxShadow :: string

definition view_tabs :: "(ViewMode \<times> string \<times> svg_shape list) list" where
  "view_tabs =
     [(V_graph, ''Graph'', [Circle 3 3 2, Circle 9 6 2, Circle 3 9 2, Line 3 3 9 6 1, Line 9 6 3 9 1]),
      (V_list, ''List'', [Line 2 3 10 3 (3/2), Line 2 6 10 6 (3/2), Line 2 9 10 9 (3/2)]),
      (V_matrix, ''Matrix'',
        [Rect 1 1 3 3 1, Rect 5 1 3 3 (1/2), Rect 9 1 3 3 (fl (3/10)),
         Rect 1 5 3 3 (1/2), Rect 5 5 3 3 1, Rect 9 5 3 3 (1/2),
         Rect 1 9 3 3 (fl (3/10)), Rect 5 9 3 3 (1/2), Rect 9 9 3 3 1])]"

definition ViewSwitcher_mt :: "ViewMode \<Rightarrow> tab_view list" where
  "ViewSwitcher_mt val = map (\<lambda>(v, label, icon).
     \<lparr>tb_value = v, tb_label = label, tb_icon = icon,
      tb_background = (if val = v then ''#ffffff'' else ''transparent''),
      tb_color = (if val = v then ''#0f172a'' else ''#64748b''),
      tb_boxShadow = (if val = v then ''0 1px 2px rgba(15,23,42,0.08)'' else ''none'')\<rparr>) view_tabs"

section \<open>The list against the application's\<close>

lemma sort_insert_rel:
  assumes "list_all2 R xs ys" "R x y" "\<And>a a' b b'. R a a' \<Longrightarrow> R b b' \<Longrightarrow> (cmp a b \<le> 0) = (cmp' a' b' \<le> 0)"
  shows "list_all2 R (sort_insert cmp x xs) (sort_insert cmp' y ys)"
  using assms(1) by (induction rule: list_all2_induct) (use assms(2,3) in auto)

lemma js_sort_rel:
  assumes "list_all2 R xs ys" "\<And>a a' b b'. R a a' \<Longrightarrow> R b b' \<Longrightarrow> (cmp a b \<le> 0) = (cmp' a' b' \<le> 0)"
  shows "list_all2 R (js_sort cmp xs) (js_sort cmp' ys)"
  unfolding js_sort_def using assms(1)
  by (induction rule: list_all2_induct) (auto intro!: sort_insert_rel assms(2))

lemma filter_rel:
  "list_all2 R xs ys \<Longrightarrow> (\<And>x y. R x y \<Longrightarrow> P x = Q y) \<Longrightarrow> list_all2 R (filter P xs) (filter Q ys)"
  by (induction rule: list_all2_induct) auto

lemma snap_relD:
  assumes "snap_rel s t"
  shows "ms_key s = snapKey t" "ms_p50_us s = p50_us t" "ms_p95_us s = p95_us t" "ms_p99_us s = p99_us t"
    "ms_avg_us s = avg_us t" "ms_jitter_us s = jitter_us t"
    "ms_is_spike s = is_spike t" "ms_retransmit_count s = retransmit_count t" "ms_dst_type s = dst_type t"
    "ms_src_type s = src_type t" "ms_sample_count s = sample_count t" "ms_spike_threshold_us s = spike_threshold_us t"
    "ms_src_service s = src_service t" "ms_dst_service s = dst_service t" "ms_cause_kind s = cause_kind t"
    "close_states t = Some (ms_close_states s)" "dst_cpu_pct t = Some (ms_dst_cpu_pct s)"
    "dst_io_wait_pct t = Some (ms_dst_io_wait_pct s)" "dst_mem_pressure_pct t = Some (ms_dst_mem_pressure_pct s)"
  using assms by (cases t; simp add: snap_rel_def abs_snap_def)+

text \<open>The state of the list of the application that corresponds to one of the prototype.\<close>

fun abs_col :: "SortKeyMt \<Rightarrow> SortCol" where
  "abs_col K_src_service = C_connection"
| "abs_col K_p50_us = C_p50"
| "abs_col K_p95_us = C_p95"
| "abs_col K_p99_us = C_p99"
| "abs_col K_retransmit_count = C_retrans"

fun abs_filter :: "FilterMt \<Rightarrow> FilterMode" where
  "abs_filter MF_all = F_all"
| "abs_filter MF_spike = F_spiking"
| "abs_filter MF_stressed = F_stressed"

definition abs_list :: "list_state_mt \<Rightarrow> list_state" where
  "abs_list st = \<lparr>filterMode = abs_filter (filter_mt st), sortCol = abs_col (sortKey_mt st), sortDir = sortDir_mt st\<rparr>"

lemma abs_list_commutes:
  "abs_list list_init_mt = list_init" "abs_list (setSort k st) = handleSort (abs_col k) (abs_list st)"
  "abs_list (setFilter_mt f st) = setFilter (abs_filter f) (abs_list st)"
proof -
  show "abs_list list_init_mt = list_init" by (simp add: abs_list_def list_init_mt_def list_init_def)
  show "abs_list (setFilter_mt f st) = setFilter (abs_filter f) (abs_list st)"
    by (simp add: abs_list_def setFilter_mt_def setFilter_def)
  have "(abs_col k = abs_col (sortKey_mt st)) = (k = sortKey_mt st)" by (cases k; cases "sortKey_mt st") simp_all
  then show "abs_list (setSort k st) = handleSort (abs_col k) (abs_list st)"
    by (auto simp: abs_list_def setSort_def handleSort_def flip_def)
qed

lemma rows_mt_eq: "rows_mt tonum st snaps =
    js_sort (sort_cmp_mt tonum (sortKey_mt st) (sortDir_mt st)) (filter (keeps_mt (filter_mt st)) (obj_values snaps))"
proof -
  have "keeps_mt MF_all = (\<lambda>_. True)" "keeps_mt MF_spike = ms_is_spike" "keeps_mt MF_stressed = stressed_mt"
    by (simp_all add: fun_eq_iff)
  then show ?thesis by (cases "filter_mt st") (simp_all add: rows_mt_def Let_def)
qed

lemma keeps_rel: "snap_rel s t \<Longrightarrow> keeps_mt f s = keeps (abs_filter f) t"
  by (cases f) (simp_all add: snap_relD stressed_mt_def dst_stressed_def)

lemma cmp_rel:
  assumes "k \<noteq> K_src_service" "snap_rel a a'" "snap_rel b b'"
  shows "sort_cmp_mt tonum k d a b = sort_cmp lc (abs_col k) d a' b'"
  using assms(1) snap_relD [OF assms(2)] snap_relD [OF assms(3)]
  by (cases k) (simp_all add: sort_cmp_mt_def sort_cmp_def js_minus_def Let_def)

lemma vFmtUs_eq: "us < 1000000 \<Longrightarrow> vFmtUs us = fmtUs us"
  by (simp add: vFmtUs_def fmtUs_def)

lemma v_tables: "vLatencyStatus = latencyStatus" "V_STATUS_COLOR s = STATUS_COLOR s" "V_STATUS_BG s = STATUS_BG s"
proof -
  show "vLatencyStatus = latencyStatus" by (simp add: fun_eq_iff vLatencyStatus_def latencyStatus_def)
  show "V_STATUS_COLOR s = STATUS_COLOR s" "V_STATUS_BG s = STATUS_BG s" by (cases s; simp)+
qed

text \<open>Two rows that show the same connection: the same texts below one second, the same
  colours, marks and key.\<close>

definition row_rel :: "row_mt \<Rightarrow> list_row \<Rightarrow> bool" where
  "row_rel r r' \<longleftrightarrow> rw_key r = lr_key r' \<and> rw_selected r = lr_selected r' \<and> rw_spike_dot r = lr_spike_dot r' \<and>
     rw_src r @ '' '' @ arrow @ '' '' @ rw_dst r = lr_edge r' \<and> rw_ext r = lr_ext r' \<and>
     rw_color r = lr_p99_color r' \<and> rw_retrans r = lr_retrans r' \<and> pl_color (rw_status r) = pl_color (lr_status r')"

lemma V_CAUSE_color: "vm_color (V_CAUSE_META c) = cm_color (CAUSE_META c)"
  by (cases c) simp_all

lemma row_rel_row: "snap_rel s t \<Longrightarrow> row_rel (row_mt k s) (list_row k t)"
  by (auto simp: row_rel_def row_mt_def list_row_def snap_relD v_tables CausePill_def V_CAUSE_color Let_def
      split: option.split)

lemma rows_ported:
  assumes "obj_rel snap_rel ms snaps" "sortKey_mt st \<noteq> K_src_service"
  shows "list_all2 snap_rel (rows_mt tonum st ms) (filtered lc (abs_list st) snaps)"
  unfolding rows_mt_eq filtered_def abs_list_def
  by (auto intro!: js_sort_rel filter_rel obj_rel_values [OF assms(1)] simp: keeps_rel cmp_rel [OF assms(2), of _ _ _ _ _ _ lc])

text \<open>Latencies below one second, where the two formatters agree.\<close>

definition below_second :: "MtSnap obj \<Rightarrow> bool" where
  "below_second ms \<longleftrightarrow>
     list_all (\<lambda>s. ms_p50_us s < 1000000 \<and> ms_p95_us s < 1000000 \<and> ms_p99_us s < 1000000) (obj_values ms)"

lemma rows_texts:
  assumes "list_all2 snap_rel xs ys"
    "\<forall>s \<in> set xs. ms_p50_us s < 1000000 \<and> ms_p95_us s < 1000000 \<and> ms_p99_us s < 1000000"
  shows "map (\<lambda>r. (rw_p50 r, rw_p95 r, rw_p99 r)) (map (row_mt k) xs) =
    map (\<lambda>r. (lr_p50 r, lr_p95 r, lr_p99 r)) (map (list_row k) ys)"
  using assms by (induction rule: list_all2_induct)
    (auto simp: row_mt_def list_row_def Let_def snap_relD vFmtUs_eq)

lemma set_rows_mt: "set (rows_mt tonum st ms) \<subseteq> set (obj_values ms)"
  by (auto simp: rows_mt_eq)

text \<open>
  C15: the list of the application shows what the prototype's showed. On snapshots that agree,
  with the same filter, direction and one of the numeric columns (p50, p95, p99,
  retransmissions), the two tables have the same connections in the same order, row by row
  with the same key, selection, marks and colours; the printed latencies are the same too
  when all are below one second.
\<close>

theorem mt_list_ported:
  assumes "obj_rel snap_rel ms snaps" "sortKey_mt st \<noteq> K_src_service"
  shows "list_all2 row_rel (lw_rows (ConnectionListView_mt tonum st ms sel))
      (lv_rows (ConnectionListView lc (abs_list st) snaps sel)) \<and>
    (below_second ms \<longrightarrow>
      map (\<lambda>r. (rw_p50 r, rw_p95 r, rw_p99 r)) (lw_rows (ConnectionListView_mt tonum st ms sel)) =
      map (\<lambda>r. (lr_p50 r, lr_p95 r, lr_p99 r)) (lv_rows (ConnectionListView lc (abs_list st) snaps sel)))"
proof -
  have r: "list_all2 snap_rel (rows_mt tonum st ms) (filtered lc (abs_list st) snaps)"
    by (rule rows_ported [OF assms])
  have v: "lw_rows (ConnectionListView_mt tonum st ms sel) = map (row_mt sel) (rows_mt tonum st ms)"
    "lv_rows (ConnectionListView lc (abs_list st) snaps sel) = map (list_row sel) (filtered lc (abs_list st) snaps)"
    by (simp_all add: ConnectionListView_mt_def ConnectionListView_def Let_def)
  have "list_all2 row_rel (map (row_mt sel) (rows_mt tonum st ms)) (map (list_row sel) (filtered lc (abs_list st) snaps))"
    using r unfolding list_all2_map1 list_all2_map2 by (rule list_all2_mono) (rule row_rel_row)
  moreover have "below_second ms \<longrightarrow> map (\<lambda>r. (rw_p50 r, rw_p95 r, rw_p99 r)) (map (row_mt sel) (rows_mt tonum st ms)) =
      map (\<lambda>r. (lr_p50 r, lr_p95 r, lr_p99 r)) (map (list_row sel) (filtered lc (abs_list st) snaps))"
    using rows_texts [OF r] set_rows_mt [of tonum st ms] unfolding below_second_def list_all_iff by blast
  ultimately show ?thesis by (simp only: v)
qed

lemma js_sort_ties: "\<forall>x \<in> set xs. \<forall>y \<in> set xs. cmp x y = 0 \<Longrightarrow> js_sort cmp xs = xs"
  unfolding js_sort_def by (induction xs) (auto split: list.split, metis list.set_intros(1) neq_Nil_conv order_refl sort_insert.simps)

text \<open>
  C16: in the prototype, sorting by the column of the connection names does nothing. The
  comparison subtracts two strings; for names that are not numbers that is NaN, which
  \<open>sort\<close> takes for a tie, so in both directions the rows keep the order in which the
  connections were created, while the header shows an arrow. (The application compares
  the names.)
\<close>

theorem mt_connection_sort_inert:
  assumes "\<forall>s \<in> set (obj_values ms). tonum (ms_src_service s) = None"
  shows "rows_mt tonum \<lparr>sortKey_mt = K_src_service, sortDir_mt = dir, filter_mt = f\<rparr> ms =
    filter (keeps_mt f) (obj_values ms)"
  unfolding rows_mt_eq using assms
  by (simp, intro js_sort_ties) (simp add: sort_cmp_mt_def js_minus_def Let_def)

section \<open>The matrix against the application's\<close>

lemma set_add_ends: "(i', e') = add_ends s (i, e) \<Longrightarrow>
    set i' \<union> set e' = insert (ms_src_service s) (insert (ms_dst_service s) (set i \<union> set e))"
  by (auto simp: add_ends_def split: if_splits)

lemma set_fold_ends: "fold add_ends ss (i, e) = (i', e') \<Longrightarrow>
    set i' \<union> set e' = set i \<union> set e \<union> ms_src_service ` set ss \<union> ms_dst_service ` set ss"
proof (induction ss arbitrary: i e)
  case (Cons s ss)
  obtain i1 e1 where s: "(i1, e1) = add_ends s (i, e)" by (metis surj_pair)
  with Cons.IH [of i1 e1] Cons.prems set_add_ends [OF s] show ?case by auto
qed simp

lemma set_names_mt: "set (names_mt ms) =
    ms_src_service ` set (obj_values ms) \<union> ms_dst_service ` set (obj_values ms)"
proof -
  obtain i e where ie: "fold add_ends (obj_values ms) ([], []) = (i, e)" by (metis surj_pair)
  from set_fold_ends [OF ie] show ?thesis by (simp add: names_mt_def ie)
qed

lemma pair_key_inj:
  assumes "CHR ''|'' \<notin> set a" "CHR ''|'' \<notin> set c"
  shows "pair_key a b = pair_key c d \<longleftrightarrow> a = c \<and> b = d"
  using split_at [OF assms, of b d] by (auto simp: pair_key_def)

definition no_bar :: "MtSnap obj \<Rightarrow> bool" where
  "no_bar ms \<longleftrightarrow>
     list_all (\<lambda>s. CHR ''|'' \<notin> set (ms_src_service s) \<and> CHR ''|'' \<notin> set (ms_dst_service s)) (obj_values ms)"

lemma values_rel:
  assumes "obj_rel snap_rel ms snaps"
  shows "\<And>s. s \<in> set (obj_values ms) \<Longrightarrow> \<exists>t \<in> set (obj_values snaps). snap_rel s t"
    "\<And>t. t \<in> set (obj_values snaps) \<Longrightarrow> \<exists>s \<in> set (obj_values ms). snap_rel s t"
  using obj_rel_values [OF assms] by (metis (full_types) list_all2_conv_all_nth in_set_conv_nth)+

lemma distinct_pairs:
  assumes "obj_rel snap_rel ms snaps" "keyed snaps"
  shows "distinct (map (\<lambda>s. (ms_src_service s, ms_dst_service s)) (obj_values ms))"
proof -
  have "list_all2 snap_rel (obj_values ms) (obj_values snaps)" by (rule obj_rel_values [OF assms(1)])
  then have "map (\<lambda>s. (ms_src_service s, ms_dst_service s)) (obj_values ms) =
      map (\<lambda>t. (src_service t, dst_service t)) (obj_values snaps)"
    by (induction rule: list_all2_induct) (simp_all add: snap_relD)
  moreover have "map fst snaps = map snapKey (obj_values snaps)"
    using assms(2) by (induction snaps) (auto simp: keyed_def wf_obj_def obj_all_def obj_values_def)
  then have "distinct (map ((\<lambda>(a, b). connKey a b) \<circ> (\<lambda>t. (src_service t, dst_service t))) (obj_values snaps))"
    using assms(2) by (simp add: keyed_def wf_obj_def comp_def snapKey_def cong: map_cong)
  then have "distinct (map (\<lambda>t. (src_service t, dst_service t)) (obj_values snaps))"
    unfolding map_map [symmetric] by (rule distinct_map [THEN iffD1, THEN conjunct1])
  ultimately show ?thesis by simp
qed

lemma connByPair_get:
  assumes "obj_rel snap_rel ms snaps" "keyed snaps" "no_bar ms" "CHR ''|'' \<notin> set src"
  shows "obj_get (connByPair ms) (pair_key src dst) = Some s \<longleftrightarrow>
    s \<in> set (obj_values ms) \<and> ms_src_service s = src \<and> ms_dst_service s = dst"
proof -
  let ?p = "\<lambda>s. (ms_src_service s, ms_dst_service s)"
  let ?kvs = "map (\<lambda>s. (pair_key (ms_src_service s) (ms_dst_service s), s)) (obj_values ms)"
  have nb: "\<And>s. s \<in> set (obj_values ms) \<Longrightarrow> CHR ''|'' \<notin> set (ms_src_service s)"
    using assms(3) by (simp add: no_bar_def list_all_iff)
  have "distinct (map ?p (obj_values ms))" by (rule distinct_pairs [OF assms(1,2)])
  then have d: "distinct (map fst ?kvs)"
    using nb by (auto simp: distinct_map comp_def inj_on_def pair_key_inj)
  then have "connByPair ms = ?kvs" unfolding connByPair_def using obj_puts_distinct [of "[]" ?kvs] by simp
  with d show ?thesis using nb assms(4) unfolding obj_get_def
    by (auto simp: pair_key_inj image_iff)
qed

text \<open>The two cells agree in everything but the words for no shadow and no animation; the
  titles are equal when the latency is below one second.\<close>

definition cell_rel :: "cell \<Rightarrow> cell \<Rightarrow> bool" where
  "cell_rel c c' \<longleftrightarrow> ce_select c = ce_select c' \<and> ce_background c = ce_background c' \<and>
     ce_border c = ce_border c' \<and> ce_dot c = ce_dot c' \<and>
     ce_boxShadow c = Some (nullish (ce_boxShadow c') ''none'') \<and>
     ce_animation c = Some (nullish (ce_animation c') ''none'')"

lemma cell_ported:
  assumes "obj_rel snap_rel ms snaps" "keyed snaps" "plain_names snaps" "no_bar ms"
    and "no_arrow src" "CHR ''|'' \<notin> set src"
  shows "rel_option cell_rel (cell_mt ms sel src dst) (cell snaps sel src dst)"
proof -
  have g: "obj_get (snapMap snaps) (connKey src dst) = Some t \<longleftrightarrow>
      t \<in> set (obj_values snaps) \<and> src_service t = src \<and> dst_service t = dst" for t
    unfolding snapMap_id [OF assms(2)] by (rule keyed_get [OF assms(2,3,5)])
  note h = connByPair_get [OF assms(1,2,4,6)]
  show ?thesis
  proof (cases "obj_get (connByPair ms) (pair_key src dst)")
    case None
    have "obj_get (snapMap snaps) (connKey src dst) = None"
    proof (rule ccontr)
      assume "obj_get (snapMap snaps) (connKey src dst) \<noteq> None"
      then obtain t where "t \<in> set (obj_values snaps)" "src_service t = src" "dst_service t = dst" using g by auto
      moreover from values_rel(2) [OF assms(1) this(1)] obtain s where "s \<in> set (obj_values ms)" "snap_rel s t" by blast
      ultimately have "obj_get (connByPair ms) (pair_key src dst) = Some s" unfolding h by (simp add: snap_relD)
      with None show False by simp
    qed
    with None show ?thesis by (simp add: cell_mt_def cell_def Let_def)
  next
    case (Some s)
    then have s: "s \<in> set (obj_values ms)" "ms_src_service s = src" "ms_dst_service s = dst" using h by auto
    with values_rel(1) [OF assms(1)] obtain t where t: "t \<in> set (obj_values snaps)" "snap_rel s t" by blast
    with s g have g': "obj_get (snapMap snaps) (connKey src dst) = Some t" by (auto simp: snap_relD)
    have k: "ms_key s = connKey src dst" using s t by (simp add: snap_relD snapKey_def)
    show ?thesis unfolding cell_mt_def cell_def Let_def Some g' option.case
      by (simp add: cell_rel_def v_tables k snap_relD(4,7) [OF t(2)])
  qed
qed

lemma names_ported:
  assumes "obj_rel snap_rel ms snaps"
  shows "ms_src_service ` set (obj_values ms) = set (srcs snaps)" "ms_dst_service ` set (obj_values ms) = set (dsts snaps)"
    "set (names_mt ms) = set (srcs snaps) \<union> set (dsts snaps)"
proof -
  have "map ms_src_service (obj_values ms) = map src_service (obj_values snaps)"
    "map ms_dst_service (obj_values ms) = map dst_service (obj_values snaps)"
    using obj_rel_values [OF assms] by (induction rule: list_all2_induct) (simp_all add: snap_relD)
  then have "ms_src_service ` set (obj_values ms) = src_service ` set (obj_values snaps)"
    "ms_dst_service ` set (obj_values ms) = dst_service ` set (obj_values snaps)"
    by (metis list.set_map)+
  then show s: "ms_src_service ` set (obj_values ms) = set (srcs snaps)"
    and d: "ms_dst_service ` set (obj_values ms) = set (dsts snaps)"
    by (simp_all add: srcs_def dsts_def)
  show "set (names_mt ms) = set (srcs snaps) \<union> set (dsts snaps)" by (simp add: set_names_mt s d)
qed

lemma matrix_mt_names [simp]:
  "row_names (HeatmapMatrixView_mt ms svcs sel) = names_mt ms" "col_names (HeatmapMatrixView_mt ms svcs sel) = names_mt ms"
  by (simp_all add: row_names_def col_names_def HeatmapMatrixView_mt_def label_mt_def Let_def comp_def)

lemma matrix_mt_cell_at:
  "cell_at (HeatmapMatrixView_mt ms svcs sel) a b =
    (if a \<in> set (names_mt ms) \<and> b \<in> set (names_mt ms) then cell_mt ms sel a b else None)"
  by (rule cell_at_grid) (simp_all add: HeatmapMatrixView_mt_def label_mt_def Let_def comp_def)

text \<open>Away from the sources and the destinations of the application nothing is drawn by either.\<close>

lemma cell_mt_outside:
  assumes "obj_rel snap_rel ms snaps" "keyed snaps" "no_bar ms" "a \<in> set (names_mt ms)"
    and "a \<notin> set (srcs snaps) \<or> b \<notin> set (dsts snaps)"
  shows "cell_mt ms sel a b = None"
proof -
  have "CHR ''|'' \<notin> set a" using assms(3,4) by (auto simp: set_names_mt no_bar_def list_all_iff)
  note h = connByPair_get [OF assms(1-3) this, of b]
  have "obj_get (connByPair ms) (pair_key a b) = None"
  proof (rule ccontr)
    assume "obj_get (connByPair ms) (pair_key a b) \<noteq> None"
    then obtain s where "s \<in> set (obj_values ms)" "ms_src_service s = a" "ms_dst_service s = b" using h by auto
    then show False using assms(5) unfolding names_ported(1,2) [OF assms(1), symmetric] by blast
  qed
  then show ?thesis by (simp add: cell_mt_def)
qed

lemma cell_at_ported:
  assumes "obj_rel snap_rel ms snaps" "keyed snaps" "plain_names snaps" "no_bar ms"
  shows "rel_option cell_rel (cell_at (HeatmapMatrixView_mt ms svcs_mt sel) a b)
    (cell_at (HeatmapMatrixView snaps svcs sel) a b)"
proof (cases "a \<in> set (srcs snaps) \<and> b \<in> set (dsts snaps)")
  case True
  then have "a \<in> ms_src_service ` set (obj_values ms)" by (simp add: names_ported(1) [OF assms(1)])
  then have "CHR ''|'' \<notin> set a" using assms(4) by (auto simp: no_bar_def list_all_iff)
  moreover have "no_arrow a" using True assms(3) by (auto simp: srcs_def plain_names_def list_all_iff)
  ultimately show ?thesis using True cell_ported [OF assms]
    by (simp add: matrix_mt_cell_at matrix_cell_at names_ported(3) [OF assms(1)])
next
  case False
  then show ?thesis using cell_mt_outside [OF assms(1,2,4), of a b sel]
    by (auto simp: matrix_mt_cell_at matrix_cell_at)
qed

text \<open>
  C17: the matrix of the application shows what the prototype's showed. On snapshots that
  agree (stored under their own keys, with no arrow in a source name and no bar in any name,
  so that neither lookup key is ambiguous) the place of a row name and a column name shows
  the same in both drawings: nothing, or a filled cell with the same colour, border, spike
  mark and the same selection on a click. The prototype draws the services in order both as
  rows and as columns, with a place for every pair; they are the rows and the columns of
  the application together.
\<close>

theorem mt_matrix_ported:
  assumes "obj_rel snap_rel ms snaps" "keyed snaps" "plain_names snaps" "no_bar ms"
  shows "let v = HeatmapMatrixView_mt ms svcs_mt sel; w = HeatmapMatrixView snaps svcs sel in
    row_names v = col_names v \<and> sorted_wrt str_le (row_names v) \<and>
    set (row_names v) = set (row_names w) \<union> set (col_names w) \<and>
    list_all (\<lambda>r. length (snd r) = length (mv_cols v)) (mv_rows v) \<and>
    (\<forall>a b. rel_option cell_rel (cell_at v a b) (cell_at w a b))"
proof -
  have "sorted_wrt str_le (names_mt ms)"
    by (simp add: names_mt_def case_prod_beta sort_strings_sorted)
  moreover have "list_all (\<lambda>r. length (snd r) = length (mv_cols (HeatmapMatrixView_mt ms svcs_mt sel)))
      (mv_rows (HeatmapMatrixView_mt ms svcs_mt sel))"
    by (simp add: HeatmapMatrixView_mt_def list_all_iff Let_def)
  ultimately show ?thesis using cell_at_ported [OF assms] names_ported(3) [OF assms(1)]
    unfolding Let_def matrix_mt_names matrix_names by blast
qed

section \<open>The sparkline stays in its box\<close>

text \<open>
  The polyline of a sparkline lies inside its box, rounding included. For two values or
  more and any width and height in pixels (a height of at least 4), every point has its
  abscissa between 0 and the width and its ordinate at least 2 pixels from the upper and
  the lower edge; the first point is at the left edge and the last at the right.
\<close>

lemma spark_in_box:
  assumes "2 \<le> length vs" "W \<le> 2 ^ 53" "4 \<le> H" "H \<le> 2 ^ 53"
  shows "(\<forall>p \<in> set (spark_points vs (of_nat W) (of_nat H)).
      0 \<le> fst p \<and> fst p \<le> of_nat W \<and> 2 \<le> snd p \<and> snd p \<le> of_nat H - 2) \<and>
    fst (hd (spark_points vs (of_nat W) (of_nat H))) = 0 \<and>
    fst (last (spark_points vs (of_nat W) (of_nat H))) = of_nat W"
proof -
  have H: "(of_nat H - 4 :: number) = of_nat (H - 4)" "(of_nat H - 2 :: number) = of_nat (H - 2)"
    using assms(3) by simp_all
  have d: "is_double (of_nat W)" "is_double (of_nat H)" "is_double (of_nat H - 4)" "is_double (of_nat H - 2)"
    unfolding H is_double_def using assms(2,4) by (simp_all only: fl_of_nat diff_le_self le_trans)
  have "4 \<le> (of_nat H :: number)" using assms(3) by (metis of_nat_le_iff of_nat_numeral)
  from spark_point_in_box [OF _ assms(1) _ d(1) this d(2-4)]
  have "\<forall>p \<in> set (spark_points vs (of_nat W) (of_nat H)).
      0 \<le> fst p \<and> fst p \<le> of_nat W \<and> 2 \<le> snd p \<and> snd p \<le> of_nat H - 2"
    by (auto simp: spark_points_def)
  moreover have "fst (hd (spark_points vs (of_nat W) (of_nat H))) = 0"
    using assms(1) by (cases vs) (simp_all add: spark_points_def upt_conv_Cons spark_point_def fdiv_def fmul_def del: upt_Suc)
  moreover have "fst (last (spark_points vs (of_nat W) (of_nat H))) = of_nat W"
  proof -
    have "0 < length vs" using assms(1) by linarith
    then have "last [0..<length vs] = length vs - 1" "[0..<length vs] \<noteq> []" by simp_all
    moreover have "fdiv (of_nat (length vs - 1)) (of_nat (length vs - 1)) = 1"
      using assms(1) by (simp add: fdiv_def)
    ultimately show ?thesis using d(1) by (simp add: spark_points_def last_map spark_point_def fmul_def is_double_def)
  qed
  ultimately show ?thesis by blast
qed

section \<open>Concrete inputs\<close>

definition snap_redis :: MtSnap where
  "snap_redis =
     \<lparr>ms_key = ''auth-svc'' @ arrow @ ''redis'', ms_src_service = ''auth-svc'', ms_dst_service = ''redis'',
      ms_src_type = Internal, ms_dst_type = External, ms_avg_us = 1500, ms_p50_us = 1400, ms_p95_us = 1900,
      ms_p99_us = 2000, ms_jitter_us = 300, ms_retransmit_count = 0, ms_sample_count = 30, ms_is_spike = False,
      ms_spike_threshold_us = 7500, ms_history = [], ms_cause_kind = None,
      ms_close_states = \<lparr>cs_fin = 0, cs_rst = 0, cs_timeout = 0\<rparr>, ms_dst_cpu_pct = 20,
      ms_dst_io_wait_pct = 4, ms_dst_mem_pressure_pct = 9\<rparr>"

definition snaps_mt1 :: "MtSnap obj" where
  "snaps_mt1 = [(ms_key snap_redis, snap_redis)]"

definition snaps1 :: SnapshotMap where
  "snaps1 = [(ms_key snap_redis, abs_snap None snap_redis)]"

lemma snaps1_rel: "obj_rel snap_rel snaps_mt1 snaps1" "keyed snaps1"
  by (simp_all add: snaps_mt1_def snaps1_def obj_rel_def snap_rel_def abs_snap_def snap_redis_def snapKey_def connKey_def
      keyed_def wf_obj_def obj_all_def)

theorem mt_list_ported_witness:
  "map rw_key (lw_rows (ConnectionListView_mt (\<lambda>_. None) list_init_mt snaps_mt1 None)) =
   map lr_key (lv_rows (ConnectionListView str_cmp list_init snaps1 None))"
proof -
  have "list_all2 row_rel (lw_rows (ConnectionListView_mt (\<lambda>_. None) list_init_mt snaps_mt1 None))
      (lv_rows (ConnectionListView str_cmp list_init snaps1 None))"
    using mt_list_ported [OF snaps1_rel(1), of list_init_mt "\<lambda>_. None" None str_cmp]
    by (simp add: abs_list_commutes(1)) (simp add: list_init_mt_def)
  then show ?thesis by (induction rule: list_all2_induct) (simp_all add: row_rel_def)
qed

theorem mt_connection_sort_inert_witness:
  "rows_mt (\<lambda>_. None) \<lparr>sortKey_mt = K_src_service, sortDir_mt = Asc, filter_mt = MF_all\<rparr> snaps_mt1 = [snap_redis]"
  using mt_connection_sort_inert [of snaps_mt1 "\<lambda>_. None" Asc MF_all]
  by (simp add: snaps_mt1_def obj_values_def)

theorem mt_matrix_ported_witness:
  "row_names (HeatmapMatrixView_mt snaps_mt1 [] None) = [''auth-svc'', ''redis''] \<and>
   rel_option cell_rel (cell_at (HeatmapMatrixView_mt snaps_mt1 [] None) ''auth-svc'' ''redis'')
     (cell_at (HeatmapMatrixView snaps1 [] None) ''auth-svc'' ''redis'')"
proof -
  have "plain_names snaps1"
    by (simp add: plain_names_def snaps1_def obj_values_def abs_snap_def snap_redis_def no_arrow_ascii)
  moreover have "no_bar snaps_mt1"
    by (simp add: no_bar_def snaps_mt1_def obj_values_def snap_redis_def)
  moreover have "names_mt snaps_mt1 = [''auth-svc'', ''redis'']"
    by (simp add: names_mt_def snaps_mt1_def obj_values_def snap_redis_def add_ends_def set_add_def sort_strings_def
        js_sort_def str_cmp_def)
  ultimately show ?thesis using mt_matrix_ported [OF snaps1_rel, of "[]" None "[]"]
    unfolding Let_def matrix_mt_names by blast
qed

end
