(* ===== verification/MtPanels.thy ===== *)
theory MtPanels
  imports MtViews DetailPanel
begin

text \<open>
  \<open>design_handoff_microtrace/mt-panels.jsx\<close>: the metric cards, the cause banner, the detail
  panel and the spike log of the prototype. As in the application's panels, a component is
  a function from its props to the values it renders; fixed styling is left out. The
  lemmas compare the panels with those of the application on related data.
\<close>

section \<open>Tables and formatters\<close>

fun CAUSE_META_mt :: "CauseKind \<Rightarrow> cause_meta" where
  "CAUSE_META_mt Cause_network =
     \<lparr>cm_label = ''Network'', cm_color = ''#2563eb'', cm_icon = utf8 [0xF0, 0x9F, 0x8C, 0x90],
      cm_desc =
        ''TCP/'' @ utf8 [0xEB, 0x84, 0xA4, 0xED, 0x8A, 0xB8, 0xEC, 0x9B, 0x8C, 0xED, 0x81,
        0xAC] @ '' '' @ utf8 [0xEC, 0xA7, 0x80, 0xEC, 0x97, 0xB0] @ '' '' @ utf8 [0xEB,
        0x98, 0x90, 0xEB, 0x8A, 0x94] @ '' '' @ utf8 [0xEC, 0x9E, 0xAC, 0xEC, 0xA0, 0x84,
        0xEC, 0x86, 0xA1]\<rparr>"
| "CAUSE_META_mt Cause_cpu =
     \<lparr>cm_label = ''CPU'', cm_color = ''#dc2626'', cm_icon = utf8 [0xF0, 0x9F, 0x94, 0xA5],
      cm_desc =
        ''CPU throttling '' @ utf8 [0xEB, 0x98, 0x90, 0xEB, 0x8A, 0x94] @ '' '' @ utf8
        [0xED, 0x8F, 0xAC, 0xED, 0x99, 0x94]\<rparr>"
| "CAUSE_META_mt Cause_io =
     \<lparr>cm_label = ''Disk I/O'', cm_color = ''#7c3aed'', cm_icon = utf8 [0xF0, 0x9F, 0x92, 0xBE],
      cm_desc =
        ''I/O wait '' @ utf8 [0xEB, 0x8C, 0x80, 0xEA, 0xB8, 0xB0] @ '' '' @ utf8 [0xEC,
        0x8B, 0x9C, 0xEA, 0xB0, 0x84] @ '' '' @ utf8 [0xEC, 0xA6, 0x9D, 0xEA, 0xB0, 0x80]\<rparr>"
| "CAUSE_META_mt Cause_memory =
     \<lparr>cm_label = ''Memory'', cm_color = ''#ea580c'', cm_icon = utf8 [0xF0, 0x9F, 0xA7, 0xA0],
      cm_desc =
        ''Memory pressure '' @ utf8 [0xEB, 0xB0, 0x9C, 0xEC, 0x83, 0x9D]\<rparr>"
| "CAUSE_META_mt Cause_external =
     \<lparr>cm_label = ''External API'', cm_color = ''#d97706'', cm_icon = utf8 [0xF0, 0x9F, 0x94, 0x8C],
      cm_desc =
        utf8 [0xEC, 0x99, 0xB8, 0xEB, 0xB6, 0x80] @ '' '' @ utf8 [0xEC, 0x9D, 0x98, 0xEC,
        0xA1, 0xB4, 0xEC, 0x84, 0xB1] @ '' '' @ utf8 [0xEC, 0xA7, 0x80, 0xEC, 0x97, 0xB0]\<rparr>"

definition fmtUs_mt :: "number \<Rightarrow> string" where
  "fmtUs_mt us =
     (if us \<ge> 1000 then toFixed (if us \<ge> 10000 then 1 else 2) (fdiv us 1000) @ ''ms''
      else show_int (math_round us) @ micro @ ''s'')"

definition timeAgo_mt :: "number \<Rightarrow> number \<Rightarrow> string" where
  "timeAgo_mt now ts =
     (let s = \<lfloor>fdiv (fsub now ts) 1000\<rfloor>
      in if s < 60 then show_int s @ ''s ago''
         else if s < 3600 then show_int \<lfloor>fdiv (of_int s) 60\<rfloor> @ ''m ago''
         else show_int \<lfloor>fdiv (of_int s) 3600\<rfloor> @ ''h ago'')"

text \<open>The quotient of two numbers as \<open>toFixed\<close> prints it, a zero divisor included.\<close>

definition quot_text :: "nat \<Rightarrow> number \<Rightarrow> number \<Rightarrow> string" where
  "quot_text digits a b =
     (if b = 0 then (if a = 0 then ''NaN'' else if a > 0 then ''Infinity'' else ''-Infinity'')
      else toFixed digits (fdiv a b))"

section \<open>StatCard\<close>

text \<open>\<open>color || d\<close>: a missing or empty colour is replaced; in the shadow it is not.\<close>

definition color_or :: "string option \<Rightarrow> string \<Rightarrow> string" where
  "color_or c d = (case c of None \<Rightarrow> d | Some s \<Rightarrow> if s = [] then d else s)"

definition StatCard_mt :: "stat_props \<Rightarrow> stat_view" where
  "StatCard_mt p =
     \<lparr>sw_borderTop = (if sc_highlight p then ''2px solid '' @ color_or (sc_color p) ''#2563eb'' else ''1px solid #e2e8f0''),
      sw_boxShadow = (if sc_highlight p then ''0 1px 3px '' @ nullish (sc_color p) ''undefined'' @ ''22''
        else ''0 1px 2px rgba(15,23,42,0.04)''),
      sw_label = sc_label p, sw_value = sc_value p, sw_color = color_or (sc_color p) ''#0f172a'',
      sw_sub = (if nullish (sc_sub p) [] \<noteq> [] then sc_sub p else None)\<rparr>"

section \<open>GlobalMetrics\<close>

definition p99_color_mt :: "number \<Rightarrow> string" where
  "p99_color_mt x =
     (if x > 100000 then ''#dc2626'' else if x > 20000 then ''#ea580c'' else if x > 5000 then ''#d97706'' else ''#16a34a'')"

definition avg_mt :: "MtSnap list \<Rightarrow> (MtSnap \<Rightarrow> number) \<Rightarrow> number" where
  "avg_mt snaps f = fdiv (fsum f snaps) (of_nat (length snaps))"

text \<open>\<open>None\<close>: nothing is rendered while there are no connections.\<close>

definition GlobalMetrics_mt :: "MtSnap obj \<Rightarrow> ServiceMap \<Rightarrow> stat_view list option" where
  "GlobalMetrics_mt snapobj svcs =
     (let snaps = obj_values snapobj
      in if length snaps = 0 then None
         else
          (let gp95 = avg_mt snaps ms_p95_us; gp99 = avg_mt snaps ms_p99_us;
               spikes = length (filter ms_is_spike snaps);
               retrans = fsum ms_retransmit_count snaps;
               svcArr = obj_values svcs;
               hotCpu = length (filter (\<lambda>s. sv_cpu_pct s > 70) svcArr);
               hotIo = length (filter (\<lambda>s. sv_io_wait_pct s > 30) svcArr);
               hotMem = length (filter (\<lambda>s. sv_mem_pressure_pct s > 70) svcArr);
               stressed = length (filter (\<lambda>s. sv_stress_kind s \<noteq> None) svcArr)
           in Some (map StatCard_mt
             [\<lparr>sc_label = ''Global P95'', sc_value = Text (fmtUs_mt gp95), sc_color = Some ''#d97706'', sc_sub = None,
                sc_highlight = False\<rparr>,
              \<lparr>sc_label = ''Global P99'', sc_value = Text (fmtUs_mt gp99), sc_color = Some (p99_color_mt gp99),
                sc_sub = None, sc_highlight = gp99 > 20000\<rparr>,
              \<lparr>sc_label = ''Active Spikes'', sc_value = Num (of_nat spikes),
                sc_color = Some (if spikes \<noteq> 0 then ''#dc2626'' else ''#94a3b8''),
                sc_sub = Some (if spikes \<noteq> 0 then ''analyzing causes'' @ ellipsis else ''all normal''),
                sc_highlight = spikes > 0\<rparr>,
              \<lparr>sc_label = ''Stressed Svcs'', sc_value = Num (of_nat stressed),
                sc_color = Some (if stressed \<noteq> 0 then ''#ea580c'' else ''#94a3b8''),
                sc_sub = Some (''CPU:'' @ show_nat hotCpu @ '' IO:'' @ show_nat hotIo @ '' MEM:'' @ show_nat hotMem),
                sc_highlight = stressed > 0\<rparr>,
              \<lparr>sc_label = ''Retransmits'', sc_value = Num retrans,
                sc_color = Some (if retrans > 20 then ''#ea580c'' else ''#475569''), sc_sub = Some ''cumulative'',
                sc_highlight = False\<rparr>,
              \<lparr>sc_label = ''Connections'', sc_value = Num (of_nat (length snaps)), sc_color = Some ''#2563eb'',
                sc_sub = Some (show_nat (length INTERNAL_SERVICES_mt) @ '' svcs''), sc_highlight = False\<rparr>])))"

section \<open>CauseCandidate\<close>

record evidence =
  ed_label :: string
  ed_value :: card_value
  ed_color :: string

definition evidence_mt :: "MtSnap \<Rightarrow> evidence list" where
  "evidence_mt s =
     (if ms_dst_cpu_pct s > 70
      then [\<lparr>ed_label = ''CPU'', ed_value = Text (toFixed 0 (ms_dst_cpu_pct s) @ ''%''), ed_color = ''#dc2626''\<rparr>] else []) @
     (if ms_dst_io_wait_pct s > 30
      then [\<lparr>ed_label = ''IO wait'', ed_value = Text (toFixed 0 (ms_dst_io_wait_pct s) @ ''%''), ed_color = ''#7c3aed''\<rparr>] else []) @
     (if ms_dst_mem_pressure_pct s > 70
      then [\<lparr>ed_label = ''Mem'', ed_value = Text (toFixed 0 (ms_dst_mem_pressure_pct s) @ ''%''), ed_color = ''#ea580c''\<rparr>] else []) @
     (if ms_retransmit_count s > 0
      then [\<lparr>ed_label = ''Retrans'', ed_value = Num (ms_retransmit_count s), ed_color = ''#2563eb''\<rparr>] else [])"

record candidate =
  ca_background :: string
  ca_border :: string
  ca_borderLeft :: string
  ca_icon :: string
  ca_mult :: string
  ca_label :: string
  ca_color :: string
  ca_desc :: string
  ca_evidence :: "evidence list"

definition CauseCandidate :: "MtSnap option \<Rightarrow> candidate option" where
  "CauseCandidate snap =
     (case snap of None \<Rightarrow> None
      | Some s \<Rightarrow>
          (if \<not> ms_is_spike s then None
           else
            (let meta = CAUSE_META_mt (nullish (ms_cause_kind s) Cause_network);
                 mult = quot_text 1 (ms_p99_us s) (fdiv (ms_spike_threshold_us s) 5)
             in Some \<lparr>ca_background = ''linear-gradient(135deg, '' @ cm_color meta @ ''0d, '' @ cm_color meta @ ''05)'',
                  ca_border = ''1px solid '' @ cm_color meta @ ''40'', ca_borderLeft = ''3px solid '' @ cm_color meta,
                  ca_icon = cm_icon meta, ca_mult = mult @ times_sign @ '' baseline'', ca_label = cm_label meta,
                  ca_color = cm_color meta, ca_desc = cm_desc meta, ca_evidence = evidence_mt s\<rparr>)))"

section \<open>DetailPanel\<close>

definition closeTotal_mt :: "MtSnap \<Rightarrow> number" where
  "closeTotal_mt s =
     (let c = ms_close_states s in fadd (fadd (cs_fin c) (cs_rst c)) (cs_timeout c))"

definition errorRate :: "MtSnap \<Rightarrow> number" where
  "errorRate s =
     (let c = ms_close_states s; tot = closeTotal_mt s
      in if tot \<noteq> 0 then fmul (fdiv (fadd (cs_rst c) (cs_timeout c)) tot) 100 else 0)"

text \<open>The parts of the bar: a zero count draws nothing. The legend lists all three.\<close>

definition close_bar_mt :: "MtSnap \<Rightarrow> close_bar option" where
  "close_bar_mt s =
     (let c = ms_close_states s; tot = closeTotal_mt s
      in if tot > 0 then
           Some \<lparr>cb_total = tot,
             cb_widths = map (\<lambda>v. fmul (fdiv v tot) 100) (filter (\<lambda>v. v \<noteq> 0) [cs_fin c, cs_rst c, cs_timeout c]),
             cb_legend = [(''#16a34a'', ''FIN'', cs_fin c), (''#dc2626'', ''RST'', cs_rst c),
               (''#ea580c'', ''TIMEOUT'', cs_timeout c)]\<rparr>
         else None)"

record detail_view_mt =
  dv_src :: string
  dv_dst :: string
  dv_candidate :: "candidate option"
  dv_cards :: "(string \<times> string \<times> string) list"
  dv_secondary :: "(string \<times> card_value \<times> string) list"
  dv_close :: "close_bar option"
  dv_latency_legend :: "(string \<times> string \<times> bool) list"
  dv_history :: "MtPoint list"
  dv_isSpike :: bool
  dv_resource_title :: string
  dv_resource_legend :: "(string \<times> string) list"
  dv_resource_history :: "ResourcePoint list"

datatype detail_mt = Detail_empty string string | Detail_conn detail_view_mt

definition DetailPanel_mt :: "MtSnap option \<Rightarrow> ServiceSnapshot option \<Rightarrow> detail_mt" where
  "DetailPanel_mt snap dstService =
     (case snap of
        None \<Rightarrow> Detail_empty
          (utf8 [0xEC, 0x97, 0xB0, 0xEA, 0xB2, 0xB0, 0xEC, 0x9D, 0x84] @ '' '' @ utf8 [0xEC, 0x84, 0xA0, 0xED,
           0x83, 0x9D, 0xED, 0x95, 0x98, 0xEC, 0x84, 0xB8, 0xEC, 0x9A, 0x94])
          (utf8 [0xED, 0x86, 0xA0, 0xED, 0x8F, 0xB4, 0xEB, 0xA1, 0x9C, 0xEC, 0xA7, 0x80, 0xEC, 0x97, 0x90, 0xEC,
           0x84, 0x9C] @ '' '' @ utf8 [0xEC, 0x97, 0xA3, 0xEC, 0xA7, 0x80, 0xEB, 0xA5, 0xBC] @ '' '' @ utf8 [0xED,
           0x81, 0xB4, 0xEB, 0xA6, 0xAD, 0xED, 0x95, 0x98, 0xEB, 0xA9, 0xB4] @ '' latency + '' @ utf8 [0xEB, 0xA6,
           0xAC, 0xEC, 0x86, 0x8C, 0xEC, 0x8A, 0xA4] @ '' '' @ utf8 [0xEC, 0x83, 0x81, 0xEA, 0xB4, 0x80, 0xEA,
           0xB4, 0x80, 0xEA, 0xB3, 0x84, 0xEB, 0xA5, 0xBC] @ '' '' @ utf8 [0xEB, 0xB6, 0x84, 0xEC, 0x84, 0x9D,
           0xED, 0x95, 0xA9, 0xEB, 0x8B, 0x88, 0xEB, 0x8B, 0xA4])
      | Some s \<Rightarrow> Detail_conn
          \<lparr>dv_src = ms_src_service s, dv_dst = ms_dst_service s, dv_candidate = CauseCandidate snap,
           dv_cards = [(''AVG'', fmtUs_mt (ms_avg_us s), ''#2563eb''), (''P50'', fmtUs_mt (ms_p50_us s), ''#16a34a''),
             (''P95'', fmtUs_mt (ms_p95_us s), ''#d97706''), (''P99'', fmtUs_mt (ms_p99_us s), p99_color_mt (ms_p99_us s))],
           dv_secondary =
             [(''Jitter'', Text (fmtUs_mt (ms_jitter_us s)),
                 if ms_jitter_us s > 5000 then ''#dc2626'' else if ms_jitter_us s > 1000 then ''#d97706'' else ''#475569''),
              (''Retransmits'', Num (ms_retransmit_count s), if ms_retransmit_count s > 10 then ''#ea580c'' else ''#475569''),
              (''Error Rate'', Text (toFixed 1 (errorRate s) @ ''%''),
                 if errorRate s > 5 then ''#dc2626'' else if errorRate s > 1 then ''#d97706'' else ''#475569''),
              (''Samples'', if ms_sample_count s > 999 then Text (toFixed 1 (fdiv (ms_sample_count s) 1000) @ ''k'')
                 else Num (ms_sample_count s), ''#475569'')],
           dv_close = close_bar_mt s,
           dv_latency_legend = [(''#2563eb'', ''AVG'', True), (''#16a34a'', ''P50'', False),
             (''#d97706'', ''P95'', False), (''#ea580c'', ''P99'', False)],
           dv_history = ms_history s, dv_isSpike = ms_is_spike s,
           dv_resource_title = ms_dst_service s @ '' '' @ utf8 [0xC2, 0xB7] @ '' Resources'',
           dv_resource_legend = [(''#dc2626'', ''CPU''), (''#7c3aed'', ''IO wait''), (''#ea580c'', ''Mem'')],
           dv_resource_history = nullish (map_option sv_history dstService) []\<rparr>)"

section \<open>SpikeLog\<close>

record log_row_mt =
  lo_key :: string
  lo_background :: string
  lo_dot :: string
  lo_time :: string
  lo_edge :: string
  lo_cause :: "(string \<times> string) option"
  lo_p99 :: string
  lo_p99_color :: string
  lo_mult :: string
  lo_mult_bg :: string
  lo_ago :: string

definition log_row_mt :: "int \<Rightarrow> int \<Rightarrow> nat \<Rightarrow> MtEvent \<Rightarrow> log_row_mt" where
  "log_row_mt tz now i ev =
     (let isCrit = (me_severity ev = Sev_critical); c = (if isCrit then ''#dc2626'' else ''#d97706'');
          mult = quot_text 0 (me_p99_us ev) (me_baseline_us ev);
          cause = map_option CAUSE_META_mt (me_cause_kind ev)
      in \<lparr>lo_key = me_id ev @ ''-'' @ show_nat i, lo_background = [], lo_dot = c,
          lo_time = fmtTime tz (me_timestamp ev),
          lo_edge = me_src ev @ '' '' @ arrow @ '' '' @ me_dst ev,
          lo_cause = map_option (\<lambda>m. (cm_icon m @ cm_label m, cm_color m)) cause,
          lo_p99 = ''P99 '' @ fmtUs_mt (me_p99_us ev), lo_p99_color = c,
          lo_mult = mult @ times_sign, lo_mult_bg = (if isCrit then ''#fee2e2'' else ''#fef3c7''),
          lo_ago = timeAgo_mt (of_int now) (me_timestamp ev)\<rparr>)"

definition log_hover :: "bool \<Rightarrow> log_row_mt \<Rightarrow> log_row_mt" where
  "log_hover entered r = r\<lparr>lo_background := (if entered then ''#f8fafc'' else [])\<rparr>"

datatype log_view_mt = Log_empty string | Log_rows "log_row_mt list"

definition SpikeLog_mt :: "int \<Rightarrow> int \<Rightarrow> MtEvent list \<Rightarrow> log_view_mt" where
  "SpikeLog_mt tz now evs =
     (if length evs = 0 then Log_empty
        (utf8 [0xEC, 0x8A, 0xA4, 0xED, 0x8C, 0x8C, 0xEC, 0x9D, 0xB4, 0xED, 0x81, 0xAC] @ '' '' @ utf8 [0xEC,
         0x9D, 0xB4, 0xEB, 0xB2, 0xA4, 0xED, 0x8A, 0xB8] @ '' '' @ utf8 [0xEC, 0x97, 0x86, 0xEC, 0x9D, 0x8C] @
         '' '' @ utf8 [0xE2, 0x80, 0x94] @ '' '' @ utf8 [0xEB, 0xAA, 0xA8, 0xEB, 0x93, 0xA0] @ '' '' @ utf8
         [0xEC, 0x97, 0xB0, 0xEA, 0xB2, 0xB0] @ '' '' @ utf8 [0xEC, 0xA0, 0x95, 0xEC, 0x83, 0x81])
      else Log_rows (map (\<lambda>(i, ev). log_row_mt tz now i ev) (zip [0..<length evs] evs)))"

section \<open>The metric cards against the application's\<close>

lemma tables_mt: "CAUSE_META_mt c = CAUSE_META c" "timeAgo_mt = timeAgo"
  by (cases c; simp) (simp add: fun_eq_iff timeAgo_mt_def timeAgo_def)

lemma fmtUs_mt_eq: "us < 1000000 \<Longrightarrow> fmtUs_mt us = fmtUs us"
  by (simp add: fmtUs_mt_def fmtUs_def)

lemma fsum_rel: "list_all2 R xs ys \<Longrightarrow> (\<And>x y. R x y \<Longrightarrow> f x = g y) \<Longrightarrow> fsum f xs = fsum g ys"
proof -
  assume "list_all2 R xs ys" and fg: "\<And>x y. R x y \<Longrightarrow> f x = g y"
  then have "map f xs = map g ys" by (induction rule: list_all2_induct) (simp_all add: fg)
  then have "fold (\<lambda>x s. fadd s x) (map f xs) 0 = fold (\<lambda>x s. fadd s x) (map g ys) 0" by simp
  then show ?thesis by (simp add: fsum_def foldl_conv_fold fold_map comp_def)
qed

lemma count_rel: "list_all2 R xs ys \<Longrightarrow> (\<And>x y. R x y \<Longrightarrow> P x = Q y) \<Longrightarrow> length (filter P xs) = length (filter Q ys)"
  by (rule list_all2_lengthD [OF filter_rel])

lemma avg_rel:
  assumes "list_all2 snap_rel xs ys" "xs \<noteq> []" "\<And>x y. snap_rel x y \<Longrightarrow> f x = g y"
  shows "avg_mt xs f = mean_of g ys"
  using assms(2) fsum_rel [OF assms(1), of f g] list_all2_lengthD [OF assms(1)] assms(3)
  by (cases ys) (auto simp: avg_mt_def mean_of_def)

lemma p99_color_eq: "p99_color_mt x = STATUS_COLOR (latencyStatus x) \<longleftrightarrow> x \<notin> {5000, 20000, 100000}"
  by (auto simp: p99_color_mt_def latencyStatus_def)

lemma p99_color_given: "color_or (Some (p99_color_mt x)) d = p99_color_mt x"
  by (simp add: color_or_def p99_color_mt_def)

text \<open>
  C18: the metric cards of the application show the numbers the prototype's showed. Without
  connections the prototype renders nothing. With connections and services, on data that
  agree and with mean latencies below one second, the six cards have the same labels and
  the same values in the same order, and the card of the mean p99 has the same colour unless
  the mean is exactly one of the three thresholds. The small lines under the values are the
  same on four cards. On the other two they are not: under the stressed services the prototype always
  counts the services above 70% cpu, 30% io wait and 70% memory, the application counts the kinds of
  stress, and only when there is one; under the connections the prototype always shows 6 services, its
  constant list, the application the number of endpoints.
\<close>

theorem mt_metrics_ported:
  assumes "obj_rel snap_rel ms snaps" "ms \<noteq> []" "svcs \<noteq> []"
    and "avg_mt (obj_values ms) ms_p95_us < 1000000" "avg_mt (obj_values ms) ms_p99_us < 1000000"
  shows "\<exists>cards. GlobalMetrics_mt ms svcs = Some cards \<and> GlobalMetrics_mt [] svcs = None \<and>
    map sw_label cards = map sw_label (GlobalMetrics snaps svcs) \<and>
    map sw_value cards = map sw_value (GlobalMetrics snaps svcs) \<and>
    (sw_color (cards ! 1) = sw_color (GlobalMetrics snaps svcs ! 1) \<longleftrightarrow>
      avg_mt (obj_values ms) ms_p99_us \<notin> {5000, 20000, 100000}) \<and>
    list_all (\<lambda>i. sw_sub (cards ! i) = sw_sub (GlobalMetrics snaps svcs ! i)) [0, 1, 2, 4] \<and>
    sw_sub (cards ! 3) = Some
      (''CPU:'' @ show_nat (length (filter (\<lambda>s. sv_cpu_pct s > 70) (obj_values svcs))) @
       '' IO:'' @ show_nat (length (filter (\<lambda>s. sv_io_wait_pct s > 30) (obj_values svcs))) @
       '' MEM:'' @ show_nat (length (filter (\<lambda>s. sv_mem_pressure_pct s > 70) (obj_values svcs)))) \<and>
    sw_sub (GlobalMetrics snaps svcs ! 3) =
      (if filter (\<lambda>s. sv_stress_kind s \<noteq> None) (obj_values svcs) = [] then None
       else Some (''CPU:'' @ show_nat (kind_count Stress_cpu svcs) @ '' IO:'' @ show_nat (kind_count Stress_io svcs) @
         '' MEM:'' @ show_nat (kind_count Stress_memory svcs))) \<and>
    sw_sub (cards ! 5) = Some (show_nat 6 @ '' svcs'') \<and>
    sw_sub (GlobalMetrics snaps svcs ! 5) = Some (show_nat (card
      (src_service ` set (obj_values snaps) \<union> dst_service ` set (obj_values snaps))) @ '' svcs'')"
proof -
  have v: "list_all2 snap_rel (obj_values ms) (obj_values snaps)" by (rule obj_rel_values [OF assms(1)])
  have ne: "obj_values ms \<noteq> []" "obj_values svcs \<noteq> []" using assms(2,3) by (simp_all add: obj_values_def)
  have m: "mean_of p95_us (obj_values snaps) = avg_mt (obj_values ms) ms_p95_us"
    "mean_of p99_us (obj_values snaps) = avg_mt (obj_values ms) ms_p99_us"
    by (simp_all add: avg_rel [OF v ne(1)] snap_relD)
  have n: "spike_count snaps = length (filter ms_is_spike (obj_values ms))"
    "fsum retransmit_count (obj_values snaps) = fsum ms_retransmit_count (obj_values ms)"
    "length (obj_values snaps) = length (obj_values ms)"
    using count_rel [OF v, of ms_is_spike is_spike] fsum_rel [OF v, of ms_retransmit_count retransmit_count]
      list_all2_lengthD [OF v] by (simp_all add: spike_count_def snap_relD)
  have "obj_values ([] :: MtSnap obj) = []" "length INTERNAL_SERVICES_mt = 6"
    by (simp_all add: obj_values_def INTERNAL_SERVICES_mt_def INTERNAL_SERVICES_def)
  with ne assms(4,5) show ?thesis unfolding p99_color_eq [symmetric]
    by (simp add: GlobalMetrics_mt_def GlobalMetrics_def Let_def StatCard_mt_def StatCard_def m n fmtUs_mt_eq
        stressed_count_def p99_color_given length_service_names)
qed

section \<open>The detail panel against the application's\<close>

lemma errorRate_bounds:
  assumes "0 \<le> cs_fin (ms_close_states s)" "0 \<le> cs_rst (ms_close_states s)" "0 \<le> cs_timeout (ms_close_states s)"
    and "is_double (cs_rst (ms_close_states s))"
  shows "0 \<le> errorRate s \<and> errorRate s \<le> 100"
proof (cases "closeTotal_mt s = 0")
  case False
  define c where "c = ms_close_states s"
  have "cs_rst c \<le> fadd (cs_fin c) (cs_rst c)"
    using f64.le_rnd [of "cs_rst c" "cs_fin c + cs_rst c"] assms by (simp add: c_def fadd_def is_double_def)
  then have le: "fadd (cs_rst c) (cs_timeout c) \<le> closeTotal_mt s"
    unfolding closeTotal_mt_def c_def [symmetric] Let_def by (intro fadd_mono) simp_all
  have nn: "0 \<le> fadd (cs_rst c) (cs_timeout c)" using assms by (simp add: c_def fadd_nonneg)
  then have "0 < closeTotal_mt s" using le False by simp
  from fdiv_unit [OF nn le this] fmul_unit [of "fdiv (fadd (cs_rst c) (cs_timeout c)) (closeTotal_mt s)" 100]
  show ?thesis using False by (simp add: errorRate_def c_def [symmetric] Let_def)
qed (simp add: errorRate_def Let_def)

lemma evidence_in_chips:
  assumes "snap_rel s t" "e \<in> set (evidence_mt s)"
  shows "(ed_label e @ '': '', ed_value e) \<in> set (chips t)"
  using assms(2) by (auto simp: evidence_mt_def chips_def snap_relD [OF assms(1)] split: if_splits)

definition counts_ok :: "CloseStates \<Rightarrow> bool" where
  "counts_ok c \<longleftrightarrow> 0 \<le> cs_fin c \<and> 0 \<le> cs_rst c \<and> 0 \<le> cs_timeout c \<and> is_double (cs_rst c)"


section \<open>The log against the application's\<close>

lemma log_row_ported:
  assumes "ms = me_cause_kind ev" "ms \<noteq> None" "me_p99_us ev < 1000000"
  shows "lo_time (log_row_mt tz now i ev) = sr_time (spike_row tz now (abs_event ev)) \<and>
    lo_edge (log_row_mt tz now i ev) = sr_edge (spike_row tz now (abs_event ev)) \<and>
    lo_dot (log_row_mt tz now i ev) = sr_dot (spike_row tz now (abs_event ev)) \<and>
    lo_p99 (log_row_mt tz now i ev) = sr_p99 (spike_row tz now (abs_event ev)) \<and>
    map_option snd (lo_cause (log_row_mt tz now i ev)) = Some (sr_cause_color (spike_row tz now (abs_event ev))) \<and>
    lo_ago (log_row_mt tz now i ev) = sr_ago (spike_row tz now (abs_event ev))"
  using assms by (auto simp: log_row_mt_def spike_row_def abs_event_def tables_mt fmtUs_mt_eq Let_def)

section \<open>Concrete inputs\<close>

definition services1 :: ServiceMap where
  "services1 = [(''redis'', \<lparr>sv_name = ''redis'', sv_cpu_pct = 20, sv_io_wait_pct = 4, sv_mem_pressure_pct = 9,
     sv_cpu_throttle_pct = 0, sv_stress_kind = None, sv_history = []\<rparr>)]"

theorem mt_metrics_ported_witness:
  "\<exists>cards. GlobalMetrics_mt snaps_mt1 services1 = Some cards \<and>
     map sw_value cards = map sw_value (GlobalMetrics snaps1 services1)"
proof -
  have "avg_mt (obj_values snaps_mt1) ms_p95_us < 1000000" "avg_mt (obj_values snaps_mt1) ms_p99_us < 1000000"
    by (simp_all add: snaps_mt1_def snap_redis_def obj_values_def avg_mt_def fsum_def fadd_def fdiv_def)
  with mt_metrics_ported [OF snaps1_rel(1), of services1] show ?thesis
    by (auto simp: snaps_mt1_def services1_def)
qed

definition snap_spike :: MtSnap where
  "snap_spike = snap_redis\<lparr>ms_is_spike := True, ms_cause_kind := Some Cause_cpu, ms_p99_us := 42000,
     ms_close_states := \<lparr>cs_fin = 3, cs_rst = 1, cs_timeout = 0\<rparr>, ms_dst_cpu_pct := 91\<rparr>"


end
