(* ===== verification/MtTopology.thy ===== *)
theory MtTopology
  imports MtViews
begin

text \<open>
  \<open>design_handoff_microtrace/mt-topology.jsx\<close>: the topology of the prototype, an SVG drawing
  laid out for the size of its container. The state is that size, which a resize observer
  sets; the drawing is a function of it and the props, given as the positions, sizes,
  paths, colours and texts of its shapes. \<open>Math.sqrt\<close> is the argument \<open>fsqrt\<close>.
\<close>

section \<open>Tables and formatters\<close>

fun STATUS_COLOR_mt :: "LatencyStatus \<Rightarrow> string" where
  "STATUS_COLOR_mt St_ok = ''#16a34a''"
| "STATUS_COLOR_mt St_warning = ''#d97706''"
| "STATUS_COLOR_mt St_high = ''#ea580c''"
| "STATUS_COLOR_mt St_critical = ''#dc2626''"

fun CAUSE_COLOR :: "CauseKind \<Rightarrow> string" where
  "CAUSE_COLOR Cause_network = ''#2563eb''"
| "CAUSE_COLOR Cause_cpu = ''#dc2626''"
| "CAUSE_COLOR Cause_io = ''#7c3aed''"
| "CAUSE_COLOR Cause_memory = ''#ea580c''"
| "CAUSE_COLOR Cause_external = ''#d97706''"

definition latencyStatus_mt :: "number \<Rightarrow> LatencyStatus" where
  "latencyStatus_mt p99 =
     (if p99 < 5000 then St_ok else if p99 < 20000 then St_warning
      else if p99 < 100000 then St_high else St_critical)"

definition tFmtUs :: "number \<Rightarrow> string" where
  "tFmtUs us =
     (if us \<ge> 1000 then toFixed 1 (fdiv us 1000) @ ''ms'' else show_int (math_round us) @ micro @ ''s'')"

section \<open>ServiceNode\<close>

record box_mt =
  bx_x :: number
  bx_y :: number
  bx_w :: number
  bx_h :: number

definition node_w :: "bool \<Rightarrow> number" where
  "node_w isInternal = (if isInternal then 156 else 112)"

definition node_h :: "bool \<Rightarrow> number" where
  "node_h isInternal = (if isInternal then 56 else 36)"

definition box_around :: "number \<Rightarrow> number \<Rightarrow> number \<Rightarrow> number \<Rightarrow> number \<Rightarrow> box_mt" where
  "box_around x y nw nh m =
     \<lparr>bx_x = fsub (fsub x (fdiv nw 2)) m, bx_y = fsub (fsub y (fdiv nh 2)) m,
      bx_w = fadd nw (fmul 2 m), bx_h = fadd nh (fmul 2 m)\<rparr>"

definition stressColor_mt :: "StressKind option \<Rightarrow> string option" where
  "stressColor_mt k =
     (if k = Some Stress_cpu then Some ''#dc2626'' else if k = Some Stress_io then Some ''#7c3aed''
      else if k = Some Stress_memory then Some ''#ea580c'' else None)"

record res_mt =
  re_label :: string
  re_text_at :: "number \<times> number"
  re_bg :: box_mt
  re_bar :: box_mt
  re_fill :: string
  re_opacity :: number

definition res_mt :: "number \<Rightarrow> number \<Rightarrow> number \<Rightarrow> nat \<Rightarrow> string \<times> number \<times> string \<Rightarrow> res_mt" where
  "res_mt x y nw i m =
     (case m of (lbl, val, color) \<Rightarrow>
       (let bx = fadd (fadd (fsub x (fdiv nw 2)) 10) (of_nat i * 46); by' = fadd y 4; w = 36;
            filled = fmul (max 0 (min 1 (fdiv val 100))) w; hot = (val > 70)
        in \<lparr>re_label = lbl, re_text_at = (bx, fadd by' 2),
            re_bg = \<lparr>bx_x = fadd bx 18, bx_y = fsub by' 4, bx_w = w, bx_h = 6\<rparr>,
            re_bar = \<lparr>bx_x = fadd bx 18, bx_y = fsub by' 4, bx_w = filled, bx_h = 6\<rparr>,
            re_fill = (if hot then color else ''#94a3b8''), re_opacity = (if hot then 1 else fl (55/100))\<rparr>))"

record service_node =
  sn_stress_halo :: "(box_mt \<times> string) option"
  sn_spike_halo :: "(box_mt \<times> string) option"
  sn_box :: box_mt
  sn_fill :: string
  sn_stroke :: string
  sn_stroke_width :: number
  sn_dash :: string
  sn_filter :: "string option"
  sn_name :: string
  sn_name_at :: "number \<times> number"
  sn_name_size :: number
  sn_name_fill :: string
  sn_name_weight :: number
  sn_bars :: "res_mt list"

definition ServiceNode ::
  "number \<Rightarrow> number \<Rightarrow> string \<Rightarrow> ServiceSnapshot option \<Rightarrow> bool \<Rightarrow> bool \<Rightarrow> bool \<Rightarrow> service_node" where
  "ServiceNode x y svcName svc isInternal isSpike isSel =
     (let nw = node_w isInternal; nh = node_h isInternal;
          stressColor = stressColor_mt (Option.bind svc sv_stress_kind);
          borderColor = (if isSel then ''#2563eb''
            else case stressColor of Some c \<Rightarrow> c
              | None \<Rightarrow> if isSpike then ''#dc2626'' else ''#cbd5e1'')
      in \<lparr>sn_stress_halo = map_option (\<lambda>c. (box_around x y nw nh 4, c)) stressColor,
          sn_spike_halo = (if isSpike \<and> stressColor = None then Some (box_around x y nw nh 3, ''#dc2626'') else None),
          sn_box = \<lparr>bx_x = fsub x (fdiv nw 2), bx_y = fsub y (fdiv nh 2), bx_w = nw, bx_h = nh\<rparr>,
          sn_fill = (if isInternal then ''#ffffff'' else ''#f8fafc''), sn_stroke = borderColor,
          sn_stroke_width = (if isSel then 2 else 1), sn_dash = (if isInternal then ''none'' else ''5,3''),
          sn_filter = (if isInternal then Some ''url(#node-shadow)'' else None), sn_name = svcName,
          sn_name_at = (x, if isInternal then fsub y 10 else fadd y 4),
          sn_name_size = (if isInternal then 12 else 11),
          sn_name_fill = (if isInternal then ''#0f172a'' else ''#64748b''),
          sn_name_weight = (if isInternal then 600 else 500),
          sn_bars = (case svc of
              Some s \<Rightarrow> if isInternal then map (\<lambda>(i, m). res_mt x y nw i m)
                [(0, ''CPU'', sv_cpu_pct s, ''#dc2626''), (1, ''IO'', sv_io_wait_pct s, ''#7c3aed''),
                 (2, ''MEM'', sv_mem_pressure_pct s, ''#ea580c'')] else []
            | None \<Rightarrow> [])\<rparr>)"

section \<open>TopoGraph\<close>

record dims =
  dm_w :: number
  dm_h :: number

definition dims_init :: dims where
  "dims_init = \<lparr>dm_w = 700, dm_h = 500\<rparr>"

text \<open>The resize observer: an empty rectangle is ignored.\<close>

definition on_resize :: "number \<Rightarrow> number \<Rightarrow> dims \<Rightarrow> dims" where
  "on_resize width height d = (if width > 0 \<and> height > 0 then \<lparr>dm_w = width, dm_h = height\<rparr> else d)"

definition PX :: "dims \<Rightarrow> number" where
  "PX d = max 58 (min 92 (fmul (dm_w d) (fl (8/100))))"

definition PY :: "dims \<Rightarrow> number" where
  "PY d = max 36 (min 48 (fmul (dm_h d) (fl (8/100))))"

definition xy :: "dims \<Rightarrow> string \<Rightarrow> number \<times> number" where
  "xy d svc =
     (let p = nullish (obj_get NODE_POS_mt svc) \<lparr>px = 1/2, py = 1/2\<rparr>
      in (fadd (PX d) (fmul (px p) (fsub (dm_w d) (fmul (PX d) 2))),
          fadd (PY d) (fmul (py p) (fsub (dm_h d) (fmul (PY d) 2)))))"

definition nodeSet :: "MtSnap obj \<Rightarrow> string list" where
  "nodeSet snaps = set_adds (concat (map (\<lambda>s. [ms_src_service s, ms_dst_service s]) (obj_values snaps))) []"

text \<open>A map that marks both ends of the connections with a property.\<close>

definition mark_ends :: "(MtSnap \<Rightarrow> bool) \<Rightarrow> MtSnap obj \<Rightarrow> bool obj" where
  "mark_ends P snaps =
     obj_puts (concat (map (\<lambda>s. if P s then [(ms_src_service s, True), (ms_dst_service s, True)] else [])
       (obj_values snaps))) []"

definition nodeSpike :: "MtSnap obj \<Rightarrow> bool obj" where
  "nodeSpike snaps = mark_ends ms_is_spike snaps"

definition nodeSelected :: "string option \<Rightarrow> MtSnap obj \<Rightarrow> bool obj" where
  "nodeSelected selectedKey snaps = mark_ends (\<lambda>s. selectedKey = Some (ms_key s)) snaps"

record edge_mt =
  ee_key :: string
  ee_d :: string
  ee_color :: string
  ee_selected :: bool
  ee_width :: number
  ee_dash :: "string option"
  ee_marker :: string
  ee_filter :: "string option"
  ee_opacity :: number
  ee_pill :: box_mt
  ee_pill_opacity :: number
  ee_label :: string
  ee_label_at :: "number \<times> number"
  ee_label_weight :: nat

definition edge_mt :: "(number \<Rightarrow> number) \<Rightarrow> dims \<Rightarrow> string option \<Rightarrow> MtSnap \<Rightarrow> edge_mt" where
  "edge_mt fsqrt d selectedKey snap =
     (let src = xy d (ms_src_service snap); dst = xy d (ms_dst_service snap); key = ms_key snap;
          status = latencyStatus_mt (ms_p99_us snap); color = STATUS_COLOR_mt status;
          sel = (selectedKey = Some key);
          mx = fdiv (fadd (fst src) (fst dst)) 2; my = fdiv (fadd (snd src) (snd dst)) 2;
          dx = fsub (fst dst) (fst src); dy = fsub (snd dst) (snd src);
          l = fsqrt (fadd (fmul dx dx) (fmul dy dy)); len = (if l = 0 then 1 else l);
          cx = fsub mx (fmul (fdiv dy len) 26); cy = fadd my (fmul (fdiv dx len) 26);
          path = ''M'' @ toFixed 1 (fst src) @ '','' @ toFixed 1 (snd src) @ '' Q'' @ toFixed 1 cx @ '','' @ toFixed 1 cy @
            '' '' @ toFixed 1 (fst dst) @ '','' @ toFixed 1 (snd dst);
          lx = fadd (fadd (fmul (1/4) (fst src)) (fmul (1/2) cx)) (fmul (1/4) (fst dst));
          ly = fadd (fadd (fmul (1/4) (snd src)) (fmul (1/2) cy)) (fmul (1/4) (snd dst))
      in \<lparr>ee_key = key, ee_d = path, ee_color = color, ee_selected = sel,
          ee_width = (if ms_is_spike snap then (if sel then 5/2 else 2) else if sel then fl (24/10) else fl (16/10)),
          ee_dash = (if ms_is_spike snap then Some ''7,4'' else None),
          ee_marker = ''url(#arr-'' @ status_text status @ '')'',
          ee_filter = (if ms_is_spike snap then Some ''url(#topo-glow)'' else None),
          ee_opacity = (if ms_is_spike snap then 1 else if sel then 1 else 3/4),
          ee_pill = \<lparr>bx_x = fsub lx 26, bx_y = fsub ly 19, bx_w = 52, bx_h = 15\<rparr>,
          ee_pill_opacity = (if sel then 1 else fl (92/100)),
          ee_label = tFmtUs (ms_p50_us snap), ee_label_at = (lx, fsub ly 8),
          ee_label_weight = (if sel then 600 else 500)\<rparr>)"

definition markers_mt :: "(string \<times> string) list" where
  "markers_mt = map (\<lambda>s. (''arr-'' @ status_text s, STATUS_COLOR_mt s)) [St_ok, St_warning, St_high, St_critical]"

definition node_mt :: "dims \<Rightarrow> MtSnap obj \<Rightarrow> ServiceMap \<Rightarrow> string option \<Rightarrow> string \<Rightarrow> service_node" where
  "node_mt d snaps svcs selectedKey svc =
     (let (x, y) = xy d svc; isInternal = (svc \<in> set INTERNAL_SERVICES_mt)
      in ServiceNode x y svc (obj_get svcs svc) isInternal (obj_get (nodeSpike snaps) svc \<noteq> None)
           (obj_get (nodeSelected selectedKey snaps) svc \<noteq> None))"

record topo_view_mt =
  tv_size :: dims
  tv_markers :: "(string \<times> string) list"
  tv_edges :: "edge_mt list"
  tv_nodes :: "service_node list"
  tv_legend :: "(string \<times> string) list"

definition TopoGraph_mt ::
  "(number \<Rightarrow> number) \<Rightarrow> dims \<Rightarrow> MtSnap obj \<Rightarrow> ServiceMap \<Rightarrow> string option \<Rightarrow> topo_view_mt" where
  "TopoGraph_mt fsqrt d snaps svcs selectedKey =
     \<lparr>tv_size = d, tv_markers = markers_mt,
      tv_edges = map (edge_mt fsqrt d selectedKey) (obj_values snaps),
      tv_nodes = map (node_mt d snaps svcs selectedKey) (nodeSet snaps),
      tv_legend = map (\<lambda>(s, label). (STATUS_COLOR_mt s, label))
        [(St_ok, ''<5ms''), (St_warning, ''5'' @ utf8 [0xE2, 0x80, 0x93] @ ''20ms''),
         (St_high, ''20'' @ utf8 [0xE2, 0x80, 0x93] @ ''100ms''), (St_critical, ''>100ms'')] @
        [(''1px dashed #cbd5e1'', ''external'')]\<rparr>"

text \<open>A click, as the value passed to \<open>onSelect\<close>: an edge stops the event and passes its key, a
  click elsewhere (the nodes take no pointer events) reaches the background.\<close>

datatype click_mt = Click_edge string | Click_background

fun topo_click :: "click_mt \<Rightarrow> string option" where
  "topo_click (Click_edge key) = Some key"
| "topo_click Click_background = None"

section \<open>The drawing fits the canvas\<close>

text \<open>A coordinate \<open>pad + p * (len - 2 * pad)\<close> in doubles, against the exact value.\<close>

definition coord :: "number \<Rightarrow> number \<Rightarrow> number \<Rightarrow> number" where
  "coord pad len p = fadd pad (fmul p (fsub len (fmul pad 2)))"

lemma xy_coord: "xy d svc = (coord (PX d) (dm_w d) (px (nullish (obj_get NODE_POS_mt svc) \<lparr>px = 1/2, py = 1/2\<rparr>)),
    coord (PY d) (dm_h d) (py (nullish (obj_get NODE_POS_mt svc) \<lparr>px = 1/2, py = 1/2\<rparr>)))"
  by (simp add: xy_def coord_def Let_def)

lemma small_error: "\<bar>x\<bar> \<le> 2 ^ 21 \<Longrightarrow> x - 1 / 10000 \<le> fl x \<and> fl x \<le> x + 1 / 10000"
proof -
  assume "\<bar>x\<bar> \<le> 2 ^ 21"
  then have "\<bar>x\<bar> < 2 powi 22" by (simp add: power_int_def)
  from fl_abs_error [OF this] have "\<bar>fl x - x\<bar> \<le> 2 powi (22 - 54)" by simp
  moreover have "(2::rat) powi (22 - 54) \<le> 1 / 10000" by (simp add: power_int_def power_one_over)
  ultimately have "\<bar>fl x - x\<bar> \<le> 1 / 10000" by (rule order_trans)
  then show ?thesis by (simp only: abs_le_iff) linarith
qed

lemma within: "- 2097152 \<le> x \<Longrightarrow> x \<le> 2097152 \<Longrightarrow> \<bar>x :: number\<bar> \<le> 2 ^ 21"
  by (simp add: abs_le_iff)

lemma coord_error:
  assumes "0 \<le> pad" "pad \<le> 100" "2 * pad \<le> len" "len \<le> 2 ^ 20" "0 \<le> p" "p \<le> 1"
  shows "pad + p * (len - 2 * pad) - 1 / 2000 \<le> coord pad len p \<and>
    coord pad len p \<le> pad + p * (len - 2 * pad) + 1 / 2000"
proof -
  define m where "m = len - 2 * pad"
  have m20: "0 \<le> m" "m \<le> 1048576" using assms by (simp_all add: m_def)
  define a where "a = fmul pad 2"
  have a: "2 * pad - 1 / 10000 \<le> a \<and> a \<le> 2 * pad + 1 / 10000"
    unfolding a_def fmul_def using small_error [of "pad * 2"] assms by (simp add: mult.commute)
  define b where "b = fsub len a"
  have "len - a - 1 / 10000 \<le> b \<and> b \<le> len - a + 1 / 10000" unfolding b_def fsub_def
    by (intro small_error within) (use a assms in simp_all)
  then have b: "m - 2 / 10000 \<le> b" "b \<le> m + 2 / 10000" using a unfolding m_def by linarith+
  have "p * m - p * (2 / 10000) \<le> p * b" "p * b \<le> p * m + p * (2 / 10000)"
    using mult_left_mono [OF b(1) assms(5)] mult_left_mono [OF b(2) assms(5)] by (simp_all add: algebra_simps)
  then have pb: "p * m - 2 / 10000 \<le> p * b" "p * b \<le> p * m + 2 / 10000" using assms(6) by simp_all
  have pm: "0 \<le> p * m" "p * m \<le> m" using assms m20 mult_right_mono [of p 1 m] by simp_all
  define c where "c = fmul p b"
  have c: "p * b - 1 / 10000 \<le> c \<and> c \<le> p * b + 1 / 10000" unfolding c_def fmul_def
    by (intro small_error within) (use pb pm m20 in linarith)+
  have "pad + c - 1 / 10000 \<le> coord pad len p \<and> coord pad len p \<le> pad + c + 1 / 10000"
    unfolding coord_def a_def [symmetric] b_def [symmetric] c_def [symmetric] fadd_def
    by (intro small_error within) (use c pb pm m20 assms(1,2) in linarith)+
  with c pb show ?thesis unfolding m_def [symmetric] by linarith
qed

text \<open>How far a coordinate stays from both edges.\<close>

lemma coord_margin:
  assumes "0 \<le> pad" "pad \<le> 100" "2 * pad \<le> len" "len \<le> 2 ^ 20" "0 \<le> a" "a \<le> p" "p \<le> 1 - b" "0 \<le> b"
  shows "pad + a * (len - 2 * pad) - 1 / 2000 \<le> coord pad len p"
    "coord pad len p \<le> len - (pad + b * (len - 2 * pad)) + 1 / 2000"
proof -
  have e: "pad + p * (len - 2 * pad) - 1 / 2000 \<le> coord pad len p \<and> coord pad len p \<le> pad + p * (len - 2 * pad) + 1 / 2000"
    using assms by (intro coord_error) auto
  define m where "m = len - 2 * pad"
  have m: "a * m \<le> p * m" "p * m \<le> (1 - b) * m" by (rule mult_right_mono; use assms in \<open>simp add: m_def\<close>)+
  have "(1 - b) * m = m - b * m" by (simp add: algebra_simps)
  with e m show "pad + a * (len - 2 * pad) - 1 / 2000 \<le> coord pad len p"
    "coord pad len p \<le> len - (pad + b * (len - 2 * pad)) + 1 / 2000"
    unfolding m_def [symmetric] using m_def by linarith+
qed

lemma fl_hundredth: "n \<le> 100 \<Longrightarrow> of_nat n / 100 - 1/10000 \<le> fl (of_nat n / 100) \<and> fl (of_nat n / 100) \<le> of_nat n / 100 + 1/10000"
proof -
  assume "n \<le> 100"
  then have "\<bar>of_nat n / 100 :: rat\<bar> \<le> 2 ^ 21" by simp
  from small_error [OF this] show ?thesis by linarith
qed

text \<open>The table: where the internal and the other services are placed.\<close>

lemma node_places:
  fixes svc :: string
  defines "p \<equiv> nullish (obj_get NODE_POS_mt svc) \<lparr>px = 1/2, py = 1/2\<rparr>"
  shows "svc \<in> set INTERNAL_SERVICES_mt \<Longrightarrow> 17/100 \<le> px p \<and> px p \<le> 9501/10000 \<and> 79/1000 \<le> py p \<and> py p \<le> 931/1000"
    "49/1000 \<le> px p \<and> px p \<le> 961/1000 \<and> 79/1000 \<le> py p \<and> py p \<le> 961/1000"
proof -
  have h: "of_nat n / 100 - 1/10000 \<le> fl (of_nat n / 100) \<and> fl (of_nat n / 100) \<le> of_nat n / 100 + 1/10000" if "n \<le> 100" for n
    using fl_hundredth that by blast
  note hs = h [of 50] h [of 8] h [of 18] h [of 35] h [of 78] h [of 5] h [of 66] h [of 64] h [of 95] h [of 93] h [of 28] h [of 96] h [of 52]
  show "svc \<in> set INTERNAL_SERVICES_mt \<Longrightarrow> 17/100 \<le> px p \<and> px p \<le> 9501/10000 \<and> 79/1000 \<le> py p \<and> py p \<le> 931/1000"
    using hs by (auto simp: p_def INTERNAL_SERVICES_def NODE_POS_def obj_get_def hundredths_def)
  show "49/1000 \<le> px p \<and> px p \<le> 961/1000 \<and> 79/1000 \<le> py p \<and> py p \<le> 961/1000"
    using hs by (auto simp: p_def NODE_POS_def obj_get_def hundredths_def)
qed

definition inside :: "dims \<Rightarrow> box_mt \<Rightarrow> bool" where
  "inside d b \<longleftrightarrow> 0 \<le> bx_x b \<and> bx_x b + bx_w b \<le> dm_w d \<and> 0 \<le> bx_y b \<and> bx_y b + bx_h b \<le> dm_h d"

text \<open>One axis of a box with a margin around a centre.\<close>

lemma box_axis:
  assumes "half + m + 1/1000 \<le> x" "x \<le> len - (half + m + 1/1000)" "len \<le> 2 ^ 20" "0 \<le> half" "half \<le> 100" "0 \<le> m" "m \<le> 4"
  shows "0 \<le> fsub (fsub x half) m \<and> fsub (fsub x half) m + (2 * half + 2 * m) \<le> len"
proof -
  have 1: "x - half - 1/10000 \<le> fsub x half \<and> fsub x half \<le> x - half + 1/10000"
    unfolding fsub_def by (intro small_error within) (use assms in simp_all)
  have "fsub x half - m - 1/10000 \<le> fsub (fsub x half) m \<and> fsub (fsub x half) m \<le> fsub x half - m + 1/10000"
    unfolding fsub_def [of "fsub x half"] by (intro small_error within) (use assms 1 in simp_all)
  with 1 assms show ?thesis by linarith
qed

definition dims_ok :: "dims \<Rightarrow> bool" where
  "dims_ok d \<longleftrightarrow> 600 \<le> dm_w d \<and> dm_w d \<le> 2 ^ 20 \<and> 100 \<le> dm_h d \<and> dm_h d \<le> 2 ^ 20"

lemma node_centre:
  assumes "dims_ok d"
  shows "node_w (svc \<in> set INTERNAL_SERVICES_mt) / 2 + 4 + 1/1000 \<le> fst (xy d svc) \<and>
    fst (xy d svc) \<le> dm_w d - (node_w (svc \<in> set INTERNAL_SERVICES_mt) / 2 + 4 + 1/1000) \<and>
    node_h (svc \<in> set INTERNAL_SERVICES_mt) / 2 + 4 + 1/1000 \<le> snd (xy d svc) \<and>
    snd (xy d svc) \<le> dm_h d - (node_h (svc \<in> set INTERNAL_SERVICES_mt) / 2 + 4 + 1/1000)"
proof -
  define p where "p = nullish (obj_get NODE_POS_mt svc) \<lparr>px = 1/2, py = 1/2\<rparr>"
  have w: "600 \<le> dm_w d" "dm_w d \<le> 2 ^ 20" "100 \<le> dm_h d" "dm_h d \<le> 2 ^ 20" using assms by (simp_all add: dims_ok_def)
  have PX: "58 \<le> PX d" "PX d \<le> 92" and PY: "36 \<le> PY d" "PY d \<le> 48" by (simp_all add: PX_def PY_def)
  have xy: "xy d svc = (coord (PX d) (dm_w d) (px p), coord (PY d) (dm_h d) (py p))" by (simp add: xy_coord p_def)
  show ?thesis
  proof (cases "svc \<in> set INTERNAL_SERVICES_mt")
    case True
    note q = node_places(1) [OF True, folded p_def]
    have "PX d + 17/100 * (dm_w d - 2 * PX d) - 1/2000 \<le> coord (PX d) (dm_w d) (px p)"
      "coord (PX d) (dm_w d) (px p) \<le> dm_w d - (PX d + 499/10000 * (dm_w d - 2 * PX d)) + 1/2000"
      using coord_margin [of "PX d" "dm_w d" "17/100" "px p" "499/10000"] q w PX by simp_all
    moreover have "PY d + 0 * (dm_h d - 2 * PY d) - 1/2000 \<le> coord (PY d) (dm_h d) (py p)"
      "coord (PY d) (dm_h d) (py p) \<le> dm_h d - (PY d + 0 * (dm_h d - 2 * PY d)) + 1/2000"
      using coord_margin [of "PY d" "dm_h d" 0 "py p" 0] q w PY by simp_all
    ultimately have "82 + 1/1000 \<le> coord (PX d) (dm_w d) (px p)" "coord (PX d) (dm_w d) (px p) \<le> dm_w d - (82 + 1/1000)"
      "32 + 1/1000 \<le> coord (PY d) (dm_h d) (py p)" "coord (PY d) (dm_h d) (py p) \<le> dm_h d - (32 + 1/1000)"
      using w PX PY unfolding right_diff_distrib by linarith+
    with True show ?thesis unfolding xy node_w_def node_h_def by simp
  next
    case False
    note q = node_places(2) [of svc, folded p_def]
    have "PX d + 49/1000 * (dm_w d - 2 * PX d) - 1/2000 \<le> coord (PX d) (dm_w d) (px p)"
      "coord (PX d) (dm_w d) (px p) \<le> dm_w d - (PX d + 39/1000 * (dm_w d - 2 * PX d)) + 1/2000"
      using coord_margin [of "PX d" "dm_w d" "49/1000" "px p" "39/1000"] q w PX by simp_all
    moreover have "PY d + 0 * (dm_h d - 2 * PY d) - 1/2000 \<le> coord (PY d) (dm_h d) (py p)"
      "coord (PY d) (dm_h d) (py p) \<le> dm_h d - (PY d + 0 * (dm_h d - 2 * PY d)) + 1/2000"
      using coord_margin [of "PY d" "dm_h d" 0 "py p" 0] q w PY by simp_all
    ultimately have "60 + 1/1000 \<le> coord (PX d) (dm_w d) (px p)" "coord (PX d) (dm_w d) (px p) \<le> dm_w d - (60 + 1/1000)"
      "22 + 1/1000 \<le> coord (PY d) (dm_h d) (py p)" "coord (PY d) (dm_h d) (py p) \<le> dm_h d - (22 + 1/1000)"
      using w PX PY unfolding right_diff_distrib by linarith+
    with False show ?thesis unfolding xy node_w_def node_h_def by simp
  qed
qed

lemma ServiceNode_boxes:
  fixes s isSpike isSel
  assumes "dims_ok d" "isInternal = (svc \<in> set INTERNAL_SERVICES_mt)" "xy d svc = (x, y)"
  defines "n \<equiv> ServiceNode x y svc s isInternal isSpike isSel"
  shows "inside d (sn_box n) \<and> pred_option (\<lambda>(b, c). inside d b) (sn_stress_halo n) \<and>
    pred_option (\<lambda>(b, c). inside d b) (sn_spike_halo n)"
proof -
  have half: "fdiv (node_w b) 2 = node_w b / 2" "fdiv (node_h b) 2 = node_h b / 2"
    "0 \<le> node_w b" "node_w b \<le> 200" "0 \<le> node_h b" "node_h b \<le> 200"
    "fadd (node_w b) 8 = node_w b + 8" "fadd (node_h b) 8 = node_h b + 8"
    "fadd (node_w b) 6 = node_w b + 6" "fadd (node_h b) 6 = node_h b + 6" for b
    by (simp_all add: node_w_def node_h_def fdiv_def fadd_def)
  have m: "fmul 2 4 = 8" "fmul 2 3 = 6" by (simp_all add: fmul_def)
  note c = node_centre [OF assms(1), of svc, folded assms(2), unfolded assms(3) fst_conv snd_conv]
  have d: "dm_w d \<le> 2 ^ 20" "dm_h d \<le> 2 ^ 20" using assms(1) by (simp_all add: dims_ok_def)
  have ar: "inside d (box_around x y (node_w isInternal) (node_h isInternal) k)" if "k = 3 \<or> k = 4" for k
    using box_axis [of "node_w isInternal / 2" k x "dm_w d"] box_axis [of "node_h isInternal / 2" k y "dm_h d"]
      c d half(3-6) [of isInternal] that by (auto simp: inside_def box_around_def half(1,2,7-10) m)
  have z: "fsub (fsub v a) 0 = fsub v a" for v a by (simp add: fsub_def)
  have "inside d (sn_box n)"
    using box_axis [of "node_w isInternal / 2" 0 x "dm_w d"] box_axis [of "node_h isInternal / 2" 0 y "dm_h d"]
      c d half(3-6) [of isInternal] by (auto simp: n_def inside_def ServiceNode_def Let_def z half(1,2))
  with ar show ?thesis by (auto simp: n_def ServiceNode_def Let_def pred_option_def)
qed

text \<open>
  C20: the prototype's drawing fits its canvas. On a canvas of at least 600 by 100 pixels
  (and at most \<open>2^20\<close>; the initial size is 700 by 500) the box of every service, and the
  dashed halo of a stressed or spiking one, lies inside it, whatever the connections and
  services, with the rounding of the layout included; resizing to an empty rectangle keeps
  the last size.
\<close>

theorem mt_nodes_on_canvas:
  assumes "dims_ok d"
  shows "(\<forall>n \<in> set (tv_nodes (TopoGraph_mt fsqrt d snaps svcs sel)). inside d (sn_box n) \<and>
      pred_option (\<lambda>(b, c). inside d b) (sn_stress_halo n) \<and> pred_option (\<lambda>(b, c). inside d b) (sn_spike_halo n)) \<and>
    dims_ok dims_init \<and> (width \<le> 0 \<or> height \<le> 0 \<longrightarrow> on_resize width height d = d)"
proof (intro conjI ballI)
  fix n assume "n \<in> set (tv_nodes (TopoGraph_mt fsqrt d snaps svcs sel))"
  then obtain svc where n: "n = node_mt d snaps svcs sel svc" by (auto simp: TopoGraph_mt_def)
  obtain x y where xy: "xy d svc = (x, y)" by force
  note b = ServiceNode_boxes [OF assms refl xy]
  show "inside d (sn_box n)" "pred_option (\<lambda>(b, c). inside d b) (sn_stress_halo n)"
    "pred_option (\<lambda>(b, c). inside d b) (sn_spike_halo n)"
    using b unfolding n node_mt_def xy Let_def prod.case by blast+
qed (auto simp: dims_ok_def dims_init_def on_resize_def)

theorem mt_nodes_on_canvas_witness:
  "list_all (\<lambda>n. inside dims_init (sn_box n)) (tv_nodes (TopoGraph_mt (\<lambda>x. x) dims_init snaps_mt1 [] None))"
  using mt_nodes_on_canvas [of dims_init "\<lambda>x. x" snaps_mt1 "[]" None 0 0]
  by (simp add: dims_ok_def dims_init_def list_all_iff)

section \<open>The drawing against the application's\<close>

lemma mark_ends_iff:
  "obj_get (mark_ends P ms) svc \<noteq> None \<longleftrightarrow>
    (\<exists>s \<in> set (obj_values ms). P s \<and> (svc = ms_src_service s \<or> svc = ms_dst_service s))"
proof -
  have "svc \<in> set (obj_keys (mark_ends P ms)) \<longleftrightarrow>
      (\<exists>s \<in> set (obj_values ms). P s \<and> (svc = ms_src_service s \<or> svc = ms_dst_service s))"
    unfolding mark_ends_def set_keys_obj_puts by (auto simp: obj_keys_def image_UN split: if_splits)
  then show ?thesis by (simp only: js_obj.keys_get)
qed

lemma nodeSet_eq: "obj_rel snap_rel ms snaps \<Longrightarrow> nodeSet ms = service_names snaps"
proof -
  assume r: "obj_rel snap_rel ms snaps"
  have "map (\<lambda>s. [ms_src_service s, ms_dst_service s]) (obj_values ms) =
      map (\<lambda>s. [src_service s, dst_service s]) (obj_values snaps)"
    using obj_rel_values [OF r] by (induction rule: list_all2_induct) (simp_all add: snap_relD)
  then show ?thesis by (simp only: nodeSet_def service_names_def)
qed

definition plain_ends :: "MtSnap obj \<Rightarrow> bool" where
  "plain_ends ms \<longleftrightarrow> list_all (\<lambda>s. no_arrow (ms_src_service s) \<and> no_arrow (ms_dst_service s)) (obj_values ms)"

text \<open>The two ways to find the services of the selected connection.\<close>

lemma selected_marks:
  assumes "plain_ends ms" "obj_rel snap_rel ms snaps" "no_arrow svc"
    and "sel = None \<or> (\<exists>s \<in> set (obj_values ms). sel = Some (ms_key s))"
  shows "obj_get (nodeSelected sel ms) svc \<noteq> None \<longleftrightarrow>
      (\<exists>s \<in> set (obj_values ms). sel = Some (ms_key s) \<and> (svc = ms_src_service s \<or> svc = ms_dst_service s))"
    and "isSelectedNode None sel svc \<longleftrightarrow>
      (\<exists>s \<in> set (obj_values ms). sel = Some (ms_key s) \<and> (svc = ms_src_service s \<or> svc = ms_dst_service s))"
proof -
  show "obj_get (nodeSelected sel ms) svc \<noteq> None \<longleftrightarrow>
      (\<exists>s \<in> set (obj_values ms). sel = Some (ms_key s) \<and> (svc = ms_src_service s \<or> svc = ms_dst_service s))"
    unfolding nodeSelected_def by (rule mark_ends_iff)
  have "isSelectedNode None (Some (ms_key s)) svc \<longleftrightarrow> svc = ms_src_service s \<or> svc = ms_dst_service s"
    if s: "s \<in> set (obj_values ms)" for s
  proof -
    have "ms_key s = connKey (ms_src_service s) (ms_dst_service s)"
      using values_rel(1) [OF assms(2) s] by (auto simp: snap_relD snapKey_def)
    moreover have "no_arrow (ms_src_service s)" "no_arrow (ms_dst_service s)"
      using assms(1) s by (auto simp: plain_ends_def list_all_iff)
    ultimately show ?thesis using selected_nodes_are_endpoints assms(3) by simp
  qed
  then show "isSelectedNode None sel svc \<longleftrightarrow>
      (\<exists>s \<in> set (obj_values ms). sel = Some (ms_key s) \<and> (svc = ms_src_service s \<or> svc = ms_dst_service s))"
    using assms(4) by (auto simp: isSelectedNode_def)
qed

lemma stressColor_mt_eq: "stressColor_mt k = stressColor k"
  by (cases k rule: stressColor.cases) (simp_all add: stressColor_mt_def)

lemma stroke_mt: "sn_stroke (ServiceNode x y n svc i sp isSel) = ''#2563eb'' \<longleftrightarrow> isSel"
proof -
  have "stressColor_mt k \<noteq> Some ''#2563eb''" for k by (simp add: stressColor_mt_def)
  then show ?thesis by (auto simp: ServiceNode_def Let_def split: option.split)
qed

lemma stroke_app: "nv_stroke (node_view snaps svcs sel node st n) = ''#2563eb'' \<longleftrightarrow> isSelectedNode node sel n"
proof -
  have "stressColor k \<noteq> Some ''#2563eb''" for k by (cases k rule: stressColor.cases) simp_all
  then show ?thesis by (auto simp: node_view_def Let_def nullish_def split: option.split)
qed

lemma halo_mt: "map_option snd (sn_stress_halo (node_mt d ms svcs sel n)) = nv_halo (node_view snaps svcs sel node st n)"
  by (simp add: node_mt_def node_view_def ServiceNode_def Let_def case_prod_beta option.map_comp comp_def
      stressColor_mt_eq option.map_ident split: option.split)

lemma name_mt: "sn_name (node_mt d ms svcs sel n) = n"
  by (simp add: node_mt_def ServiceNode_def Let_def case_prod_beta)

text \<open>
  C21: the topology of the application marks the same services and connections as the
  prototype's, on snapshots that agree, with names free of the key's arrow, while there are connections and
  none or one of them is selected. Edge by edge the drawings have the same key, dash, glow and
  selection, and the same colour unless the connection is spiking (the application then
  forces the critical colour). Node by node they have the same service and the same colour of the
  stress halo, and both draw the border of the selection around a node exactly when it is an
  end of the selected connection, which the one finds from a map of the endpoints and the other
  from a prefix and a suffix of the key.
\<close>

theorem mt_topology_ported:
  assumes "obj_rel snap_rel ms snaps" "ms \<noteq> []" "plain_ends ms"
    and "sel = None \<or> (\<exists>s \<in> set (obj_values ms). sel = Some (ms_key s))"
  shows "\<exists>es ns. TopoGraph fsqrt snaps svcs sel None st = Some (es, ns) \<and>
    list_all2 (\<lambda>e e'. ee_key e = eg_key e' \<and> ee_selected e = eg_selected e' \<and> ee_dash e = eg_dash e' \<and>
        (ee_filter e \<noteq> None \<longleftrightarrow> eg_glow e') \<and> (\<not> eg_glow e' \<longrightarrow> ee_color e = eg_color e'))
      (tv_edges (TopoGraph_mt fsqrt d ms svcs sel)) es \<and>
    list_all2 (\<lambda>n n'. sn_name n = nv_name n' \<and> map_option snd (sn_stress_halo n) = nv_halo n' \<and>
        (sn_stroke n = ''#2563eb'' \<longleftrightarrow> nv_stroke n' = ''#2563eb'') \<and>
        (sn_stroke n = ''#2563eb'' \<longleftrightarrow> (\<exists>s \<in> set (obj_values ms). sel = Some (ms_key s) \<and>
          (sn_name n = ms_src_service s \<or> sn_name n = ms_dst_service s))))
      (tv_nodes (TopoGraph_mt fsqrt d ms svcs sel)) ns"
proof -
  have v: "list_all2 snap_rel (obj_values ms) (obj_values snaps)" by (rule obj_rel_values [OF assms(1)])
  then have ne: "obj_values snaps \<noteq> []" using assms(2) by (auto simp: obj_values_def)
  have col: "STATUS_COLOR_mt (latencyStatus_mt x) = STATUS_COLOR (latencyStatus x)" for x
    by (simp add: latencyStatus_mt_def latencyStatus_def)
  have "list_all2 (\<lambda>e e'. ee_key e = eg_key e' \<and> ee_selected e = eg_selected e' \<and> ee_dash e = eg_dash e' \<and>
        (ee_filter e \<noteq> None \<longleftrightarrow> eg_glow e') \<and> (\<not> eg_glow e' \<longrightarrow> ee_color e = eg_color e'))
      (tv_edges (TopoGraph_mt fsqrt d ms svcs sel)) (map (edge_view fsqrt snaps sel st) (obj_values snaps))"
    unfolding TopoGraph_mt_def topo_view_mt.simps list_all2_map1 list_all2_map2
    using v by (rule list_all2_mono) (simp add: edge_mt_def edge_view_def Let_def snap_relD col)
  moreover have "list_all2 (\<lambda>n n'. sn_name n = nv_name n' \<and> map_option snd (sn_stress_halo n) = nv_halo n' \<and>
        (sn_stroke n = ''#2563eb'' \<longleftrightarrow> nv_stroke n' = ''#2563eb'') \<and>
        (sn_stroke n = ''#2563eb'' \<longleftrightarrow> (\<exists>s \<in> set (obj_values ms). sel = Some (ms_key s) \<and>
          (sn_name n = ms_src_service s \<or> sn_name n = ms_dst_service s))))
      (tv_nodes (TopoGraph_mt fsqrt d ms svcs sel)) (map (node_view snaps svcs sel None st) (service_names snaps))"
    unfolding TopoGraph_mt_def topo_view_mt.simps nodeSet_eq [OF assms(1)] list_all2_map1 list_all2_map2 list_all2_same
  proof
    fix n assume "n \<in> set (service_names snaps)"
    then have "n \<in> set (nodeSet ms)" by (simp add: nodeSet_eq [OF assms(1)])
    then have "no_arrow n" using assms(3) by (auto simp: nodeSet_def plain_ends_def list_all_iff)
    note marks = selected_marks [OF assms(3,1) this assms(4)]
    have "sn_stroke (node_mt d ms svcs sel n) = ''#2563eb'' \<longleftrightarrow> obj_get (nodeSelected sel ms) n \<noteq> None"
      unfolding node_mt_def Let_def case_prod_beta by (rule stroke_mt)
    then show "sn_name (node_mt d ms svcs sel n) = nv_name (node_view snaps svcs sel None st n) \<and>
        map_option snd (sn_stress_halo (node_mt d ms svcs sel n)) = nv_halo (node_view snaps svcs sel None st n) \<and>
        (sn_stroke (node_mt d ms svcs sel n) = ''#2563eb'' \<longleftrightarrow> nv_stroke (node_view snaps svcs sel None st n) = ''#2563eb'') \<and>
        (sn_stroke (node_mt d ms svcs sel n) = ''#2563eb'' \<longleftrightarrow> (\<exists>s \<in> set (obj_values ms). sel = Some (ms_key s) \<and>
          (sn_name (node_mt d ms svcs sel n) = ms_src_service s \<or> sn_name (node_mt d ms svcs sel n) = ms_dst_service s)))"
      using marks halo_mt [of d ms svcs sel n snaps None st] by (simp add: name_mt node_view_box(1) stroke_app)
  qed
  ultimately show ?thesis using ne by (simp add: TopoGraph_def)
qed

theorem mt_topology_ported_witness:
  "map sn_name (filter (\<lambda>n. sn_stroke n = ''#2563eb'')
     (tv_nodes (TopoGraph_mt (\<lambda>x. x) dims_init snaps_mt1 [] (Some (ms_key snap_redis))))) = [''auth-svc'', ''redis'']"
proof -
  let ?v = "TopoGraph_mt (\<lambda>x. x) dims_init snaps_mt1 [] (Some (ms_key snap_redis))"
  have p: "plain_ends snaps_mt1" "snaps_mt1 \<noteq> []"
    "Some (ms_key snap_redis) = None \<or> (\<exists>s \<in> set (obj_values snaps_mt1). Some (ms_key snap_redis) = Some (ms_key s))"
    by (simp_all add: plain_ends_def snaps_mt1_def obj_values_def) (simp add: snap_redis_def no_arrow_ascii)
  have "list_all (\<lambda>n. sn_stroke n = ''#2563eb'' \<longleftrightarrow>
      (\<exists>s \<in> set (obj_values snaps_mt1). Some (ms_key snap_redis) = Some (ms_key s) \<and>
        (sn_name n = ms_src_service s \<or> sn_name n = ms_dst_service s))) (tv_nodes ?v)"
    using mt_topology_ported [OF snaps1_rel(1) p(2,1,3), of "\<lambda>x. x" "[]" topo_init dims_init]
    unfolding list_all_length list_all2_conv_all_nth by blast
  then have "\<forall>n \<in> set (tv_nodes ?v). sn_stroke n = ''#2563eb'' \<longleftrightarrow> sn_name n = ''auth-svc'' \<or> sn_name n = ''redis''"
    by (simp add: list_all_iff snaps_mt1_def obj_values_def) (simp add: snap_redis_def)
  then have "filter (\<lambda>n. sn_stroke n = ''#2563eb'') (tv_nodes ?v) =
      filter (\<lambda>n. sn_name n = ''auth-svc'' \<or> sn_name n = ''redis'') (tv_nodes ?v)" by (auto intro: filter_cong)
  then show ?thesis
    by (simp add: TopoGraph_mt_def nodeSet_def snaps_mt1_def obj_values_def snap_redis_def name_mt set_add_def)
qed

end
