(* ===== verification/MtChart.thy ===== *)
theory MtChart
  imports MtViews Canvas2d
begin

text \<open>
  \<open>design_handoff_microtrace/mt-chart.jsx\<close>: the two canvas charts of the prototype and its
  sparkline. A drawing is the list of the commands sent to the canvas, in order; assigning
  a property of the context (a colour, a width) is a command too. An early return draws
  nothing. The canvas gives its size in CSS pixels and the device pixel ratio.
\<close>

section \<open>Colours and formatters\<close>

record chart_colors =
  cc_bg :: string
  cc_grid :: string
  cc_axis :: string
  cc_border :: string
  cc_p50 :: string
  cc_p95 :: string
  cc_p99 :: string
  cc_avg :: string
  cc_spike :: string
  cc_band :: string
  cc_cpu :: string
  cc_io :: string
  cc_mem :: string
  cc_throttle :: string

definition CHART_COLORS :: chart_colors where
  "CHART_COLORS =
     \<lparr>cc_bg = ''#ffffff'', cc_grid = ''#f1f5f9'', cc_axis = ''#94a3b8'', cc_border = ''#e2e8f0'',
      cc_p50 = ''#16a34a'', cc_p95 = ''#d97706'', cc_p99 = ''#ea580c'', cc_avg = ''#2563eb'', cc_spike = ''#dc2626'',
      cc_band = ''rgba(37,99,235,0.08)'', cc_cpu = ''#dc2626'', cc_io = ''#7c3aed'', cc_mem = ''#ea580c'',
      cc_throttle = ''#f59e0b''\<rparr>"

definition fmtYLabel_mt :: "number \<Rightarrow> string" where
  "fmtYLabel_mt us =
     (if us \<ge> 1000000 then toFixed 1 (fdiv us 1000000) @ ''s''
      else if us \<ge> 1000 then toFixed (if us \<ge> 10000 then 0 else 1) (fdiv us 1000) @ ''ms''
      else show_int (math_round us) @ micro @ ''s'')"

text \<open>
  \<open>new Date(ms)\<close> drops the fraction of a millisecond, and beyond its range its fields are NaN;
  \<open>tz\<close> is the offset of local time.
\<close>

definition fmtTime_mt :: "int \<Rightarrow> number \<Rightarrow> string" where
  "fmtTime_mt tz ms =
     (case TimeClip ms of
        None \<Rightarrow> ''NaN:NaN:NaN''
      | Some tv \<Rightarrow>
          (let t = tv + tz
           in two_digits (HourFromTime t) @ '':'' @ two_digits (MinFromTime t) @ '':'' @ two_digits (SecFromTime t)))"

text \<open>On valid dates it is the application's clock.\<close>

lemma fmtTime_mt_eq: "TimeClip ms = Some tv \<Longrightarrow> fmtTime_mt tz ms = fmtTime tz ms"
  by (simp add: fmtTime_clock fmtTime_mt_def Let_def)

section \<open>The canvas\<close>

record canvas_mt =
  cv_dpr :: number
  cv_clientWidth :: number
  cv_clientHeight :: number

definition setupCanvas :: "canvas_mt \<Rightarrow> (draw_cmd list \<times> number \<times> number) option" where
  "setupCanvas c =
     (let dpr = (if cv_dpr c = 0 then 1 else cv_dpr c); W = cv_clientWidth c; H = cv_clientHeight c
      in if W \<le> 0 \<or> H \<le> 0 then None
         else Some ([SetSize (fmul W dpr) (fmul H dpr), SetScale dpr dpr], W, H))"

text \<open>\<open>i === 0 ? ctx.moveTo(x, y) : ctx.lineTo(x, y)\<close> along a list of points.\<close>

definition polyline :: "(number \<times> number) list \<Rightarrow> draw_cmd list" where
  "polyline ps = (case ps of [] \<Rightarrow> [] | q # qs \<Rightarrow> MoveTo (fst q) (snd q) # map (\<lambda>p. LineTo (fst p) (snd p)) qs)"

section \<open>drawLatency\<close>

text \<open>The frame: the paddings are 10, 14, 22 and 56 pixels.\<close>

record frame =
  fr_W :: number
  fr_H :: number
  fr_cw :: number
  fr_ch :: number
  fr_tMin :: number
  fr_tRange :: number
  fr_yMin :: number
  fr_yRange :: number

definition toX :: "frame \<Rightarrow> number \<Rightarrow> number" where
  "toX f t = fadd 56 (fmul (fdiv (fsub t (fr_tMin f)) (fr_tRange f)) (fr_cw f))"

definition toY :: "frame \<Rightarrow> number \<Rightarrow> number" where
  "toY f v = fadd 10 (fmul (fsub 1 (fdiv (fsub v (fr_yMin f)) (fr_yRange f))) (fr_ch f))"

definition allVals :: "MtPoint list \<Rightarrow> number list" where
  "allVals pts = concat (map (\<lambda>p. [pc_avg_us p, pc_p50_us p, pc_p95_us p, pc_p99_us p]) pts)"

definition y_limits :: "number list \<Rightarrow> number \<times> number" where
  "y_limits vals =
     (let yMax = fmul (math_max vals) (fl (115/100)); yMin = max 0 (fmul (math_min vals) (fl (85/100)))
      in if fsub yMax yMin < 500 then (fadd yMax 500, max 0 (fsub yMin 200)) else (yMax, yMin))"

definition latency_frame :: "number \<Rightarrow> number \<Rightarrow> MtPoint list \<Rightarrow> frame" where
  "latency_frame W H pts =
     (let tMin = mp_time (hd pts); tMax = mp_time (last pts); (yMax, yMin) = y_limits (allVals pts);
          r = fsub yMax yMin
      in \<lparr>fr_W = W, fr_H = H, fr_cw = fsub (fsub W 56) 14, fr_ch = fsub (fsub H 10) 22, fr_tMin = tMin,
          fr_tRange = max (fsub tMax tMin) 1, fr_yMin = yMin, fr_yRange = (if r = 0 then 1 else r)\<rparr>)"

definition axis_font :: string where
  "axis_font = ''9px '' @ [CHR 0x22] @ ''JetBrains Mono'' @ [CHR 0x22] @ '', monospace''"

definition h_line :: "frame \<Rightarrow> number \<Rightarrow> draw_cmd list" where
  "h_line f y = [BeginPath, MoveTo 56 y, LineTo (fadd 56 (fr_cw f)) y, Stroke]"

definition grid_line :: "frame \<Rightarrow> number \<Rightarrow> string \<Rightarrow> draw_cmd list" where
  "grid_line f v label =
     (let y = toY f v
      in h_line f y @ [FillStyle (cc_axis CHART_COLORS), Font axis_font, TextAlign ''right'',
           FillText label (56 - 6) (fadd y 3)])"

definition latency_grid :: "frame \<Rightarrow> draw_cmd list" where
  "latency_grid f =
     [StrokeStyle (cc_grid CHART_COLORS), LineWidth 1] @
     concat (map (\<lambda>i. let v = fadd (fr_yMin f) (fmul (fdiv (fr_yRange f) 4) (of_nat i))
                     in grid_line f v (fmtYLabel_mt v)) [0..<5])"

definition jitter_band :: "frame \<Rightarrow> MtPoint list \<Rightarrow> draw_cmd list" where
  "jitter_band f pts =
     [BeginPath] @
     polyline (map (\<lambda>p. (toX f (mp_time p), toY f (fadd (pc_p50_us p) (fmul (pc_jitter_us p) (1/2))))) pts) @
     map (\<lambda>p. LineTo (toX f (mp_time p))
       (toY f (max (fr_yMin f) (fsub (pc_p50_us p) (fmul (pc_jitter_us p) (1/2)))))) (rev pts) @
     [ClosePath, FillStyle (cc_band CHART_COLORS), Fill]"

definition series_points :: "frame \<Rightarrow> ('p \<Rightarrow> number) \<Rightarrow> ('p \<Rightarrow> number) \<Rightarrow> 'p list \<Rightarrow> (number \<times> number) list" where
  "series_points f time key pts = map (\<lambda>p. (toX f (time p), toY f (key p))) pts"

definition latency_lines :: "bool \<Rightarrow> ((MtPoint \<Rightarrow> number) \<times> string \<times> number list \<times> number) list" where
  "latency_lines isSpike =
     [(pc_avg_us, cc_avg CHART_COLORS, [4, 3], fl (12/10)),
      (pc_p50_us, cc_p50 CHART_COLORS, [], fl (18/10)),
      (pc_p95_us, cc_p95 CHART_COLORS, [], fl (18/10)),
      (pc_p99_us, if isSpike then cc_spike CHART_COLORS else cc_p99 CHART_COLORS, [], fl (24/10))]"

definition x_labels :: "int \<Rightarrow> frame \<Rightarrow> draw_cmd list" where
  "x_labels tz f =
     [FillStyle (cc_axis CHART_COLORS), Font axis_font, TextAlign ''center''] @
     map (\<lambda>k. let t = fadd (fr_tMin f) (fmul k (fr_tRange f))
              in FillText (fmtTime_mt tz t) (toX f t) (fsub (fr_H f) 6)) [0, 1/2, 1]"

definition border_cmds :: "frame \<Rightarrow> draw_cmd list" where
  "border_cmds f = [StrokeStyle (cc_border CHART_COLORS), StrokeRect 56 10 (fr_cw f) (fr_ch f)]"

definition drawLatency :: "int \<Rightarrow> canvas_mt option \<Rightarrow> MtPoint list \<Rightarrow> bool \<Rightarrow> draw_cmd list" where
  "drawLatency tz canvas history isSpike =
     (case canvas of None \<Rightarrow> []
      | Some c \<Rightarrow>
          (if length history < 2 then []
           else case setupCanvas c of None \<Rightarrow> []
             | Some (setup, W, H) \<Rightarrow>
                 (let pts = keep_last 180 history; f = latency_frame W H pts
                  in setup @ [FillStyle (cc_bg CHART_COLORS), FillRect 0 0 W H] @ latency_grid f @
                     (if isSpike then [FillStyle ''rgba(220,38,38,0.04)'',
                        FillRect (fadd 56 (fmul (fr_cw f) (fl (82/100)))) 10 (fmul (fr_cw f) (fl (18/100))) (fr_ch f)]
                      else []) @
                     jitter_band f pts @
                     concat (map (\<lambda>(key, color, dash, width).
                       [BeginPath, StrokeStyle color, LineWidth width, LineDash dash] @
                       polyline (series_points f mp_time key pts) @ [Stroke, LineDash []]) (latency_lines isSpike)) @
                     x_labels tz f @ border_cmds f)))"

section \<open>drawResources\<close>

definition resource_frame :: "number \<Rightarrow> number \<Rightarrow> ResourcePoint list \<Rightarrow> frame" where
  "resource_frame W H pts =
     (let tMin = rp_time (hd pts); tMax = rp_time (last pts)
      in \<lparr>fr_W = W, fr_H = H, fr_cw = fsub (fsub W 56) 14, fr_ch = fsub (fsub H 10) 22, fr_tMin = tMin,
          fr_tRange = max (fsub tMax tMin) 1, fr_yMin = 0, fr_yRange = 100\<rparr>)"

definition resource_series :: "((ResourcePoint \<Rightarrow> number) \<times> string \<times> number) list" where
  "resource_series =
     [(rp_cpu_pct, cc_cpu CHART_COLORS, 2), (rp_io_wait_pct, cc_io CHART_COLORS, 2),
      (rp_mem_pressure_pct, cc_mem CHART_COLORS, 2)]"

definition drawResources ::
  "int \<Rightarrow> canvas_mt option \<Rightarrow> ResourcePoint list option \<Rightarrow> string option \<Rightarrow> draw_cmd list" where
  "drawResources tz canvas history label =
     (case (canvas, history) of
        (Some c, Some hist) \<Rightarrow>
          (if length hist < 2 then []
           else case setupCanvas c of None \<Rightarrow> []
             | Some (setup, W, H) \<Rightarrow>
                 (let pts = keep_last 180 hist; f = resource_frame W H pts
                  in setup @ [FillStyle (cc_bg CHART_COLORS), FillRect 0 0 W H] @
                     [StrokeStyle ''rgba(220,38,38,0.25)'', LineDash [3, 3], LineWidth 1] @ h_line f (toY f 70) @ [LineDash []] @
                     [StrokeStyle (cc_grid CHART_COLORS), LineWidth 1] @
                     concat (map (\<lambda>v. grid_line f (of_nat v) (show_nat v @ ''%'')) [0, 50, 100]) @
                     concat (map (\<lambda>(key, color, width).
                       [BeginPath, StrokeStyle color, LineWidth width] @
                       polyline (series_points f rp_time key pts) @ [Stroke]) resource_series) @
                     x_labels tz f @
                     (if nullish label [] \<noteq> [] then [FillStyle ''#94a3b8'', Font (''600 10px '' @ [CHR 0x22] @ ''Inter'' @ [CHR 0x22] @ '', system-ui''),
                        TextAlign ''left'', FillText (the label) (56 + 4) (10 + 12)] else []) @
                     border_cmds f))
      | _ \<Rightarrow> [])"

section \<open>The components\<close>

text \<open>
  The effects of a chart: it is drawn when its props change, and the observer that is then
  installed (if the element exists) draws the same props again at every resize. The canvas
  a resize meets is the argument of the second drawing.
\<close>

record chart_effects =
  ce_draw :: "draw_cmd list"
  ce_on_resize :: "(canvas_mt \<Rightarrow> draw_cmd list) option"

definition LatencyChart_mt :: "int \<Rightarrow> canvas_mt option \<Rightarrow> MtPoint list \<Rightarrow> bool \<Rightarrow> chart_effects" where
  "LatencyChart_mt tz el history isSpike =
     \<lparr>ce_draw = drawLatency tz el history isSpike,
      ce_on_resize = map_option (\<lambda>_ c. drawLatency tz (Some c) history isSpike) el\<rparr>"

definition ResourceChart_mt :: "int \<Rightarrow> canvas_mt option \<Rightarrow> ResourcePoint list option \<Rightarrow> string option \<Rightarrow> chart_effects" where
  "ResourceChart_mt tz el history label =
     \<lparr>ce_draw = drawResources tz el history label,
      ce_on_resize = map_option (\<lambda>_ c. drawResources tz (Some c) history label) el\<rparr>"

definition Sparkline :: "canvas_mt option \<Rightarrow> number list \<Rightarrow> string \<Rightarrow> draw_cmd list" where
  "Sparkline canvas vs color =
     (case canvas of None \<Rightarrow> []
      | Some c \<Rightarrow>
          (if length vs < 2 then []
           else case setupCanvas c of None \<Rightarrow> []
             | Some (setup, W, H) \<Rightarrow>
                 setup @ [ClearRect 0 0 W H, StrokeStyle color, LineWidth (3/2), BeginPath] @
                 polyline (spark_points vs W H) @ [Stroke]))"

section \<open>What is drawn lies in the frame\<close>

lemma frame_sizes:
  assumes "70 \<le> W" "W \<le> 2 ^ 53" "32 \<le> H" "H \<le> 2 ^ 53"
  shows "fsub (fsub (of_nat W) 56) 14 = of_nat (W - 70)" "fsub (fsub (of_nat H) 10) 22 = of_nat (H - 32)"
proof -
  have s: "fsub (of_nat a) (of_nat b) = of_nat (a - b)" if "b \<le> a" "a \<le> 2 ^ 53" for a b
    using that fl_of_nat [of "a - b"] by (simp add: fsub_def)
  have "fsub (of_nat W) 56 = of_nat (W - 56)" "fsub (of_nat (W - 56)) 14 = of_nat (W - 70)"
    "fsub (of_nat H) 10 = of_nat (H - 10)" "fsub (of_nat (H - 10)) 22 = of_nat (H - 32)"
    using s [of 56 W] s [of 14 "W - 56"] s [of 10 H] s [of 22 "H - 10"] assms by simp_all
  then show "fsub (fsub (of_nat W) 56) 14 = of_nat (W - 70)" "fsub (fsub (of_nat H) 10) 22 = of_nat (H - 32)"
    by simp_all
qed

lemma padded_bounds:
  assumes "0 \<le> m" "m \<le> of_nat n" "k + n \<le> 2 ^ 53"
  shows "of_nat k \<le> fadd (of_nat k) m \<and> fadd (of_nat k) m \<le> of_nat (k + n)"
  unfolding fadd_def using f64.rnd_between [of "of_nat k" "of_nat (k + n)" "of_nat k + m"] assms
    fl_of_nat [of k] fl_of_nat [of "k + n"] by simp

lemma toX_bounds:
  assumes "fr_cw f = of_nat n" "56 + n \<le> 2 ^ 53" "fr_tMin f \<le> t" "fsub t (fr_tMin f) \<le> fr_tRange f" "0 < fr_tRange f"
  shows "56 \<le> toX f t \<and> toX f t \<le> of_nat (56 + n)"
proof -
  have "is_double (of_nat n)" using assms(2) by (simp add: is_double_def fl_of_nat)
  with lin_scale_bounds [of "fr_tMin f" t "fr_tRange f" "of_nat n"] assms
  have "0 \<le> lin_scale (fr_tMin f) (fr_tRange f) (of_nat n) t" "lin_scale (fr_tMin f) (fr_tRange f) (of_nat n) t \<le> of_nat n" by simp_all
  from padded_bounds [OF this, of 56] assms(2) show ?thesis by (simp add: toX_def assms(1) lin_scale_def)
qed

lemma toY_bounds:
  assumes "fr_ch f = of_nat n" "10 + n \<le> 2 ^ 53" "fr_yMin f \<le> v" "fsub v (fr_yMin f) \<le> fr_yRange f" "0 < fr_yRange f"
  shows "10 \<le> toY f v \<and> toY f v \<le> of_nat (10 + n)"
proof -
  have d: "is_double (of_nat n)" using assms(2) by (simp add: is_double_def fl_of_nat)
  have "0 \<le> fsub v (fr_yMin f)" using assms(3) by (simp add: fsub_def f64.rnd_nonneg)
  then have q: "0 \<le> fdiv (fsub v (fr_yMin f)) (fr_yRange f)" "fdiv (fsub v (fr_yMin f)) (fr_yRange f) \<le> 1"
    using fdiv_unit assms(4,5) by blast+
  then have "0 \<le> fsub 1 (fdiv (fsub v (fr_yMin f)) (fr_yRange f)) \<and> fsub 1 (fdiv (fsub v (fr_yMin f)) (fr_yRange f)) \<le> 1"
    using f64.rnd_between [of 0 1 "1 - fdiv (fsub v (fr_yMin f)) (fr_yRange f)"] by (simp add: fsub_def)
  then have "0 \<le> fmul (fsub 1 (fdiv (fsub v (fr_yMin f)) (fr_yRange f))) (of_nat n)"
    "fmul (fsub 1 (fdiv (fsub v (fr_yMin f)) (fr_yRange f))) (of_nat n) \<le> of_nat n" using fmul_unit d by simp_all
  from padded_bounds [OF this, of 10] assms(2) show ?thesis by (simp add: toY_def assms(1))
qed

text \<open>The limits of the ordinate contain the data.\<close>

lemma y_limits_contain:
  assumes "vals \<noteq> []" "\<forall>v \<in> set vals. 0 \<le> v \<and> is_double v" "v \<in> set vals" "y_limits vals = (yMax, yMin)"
  shows "0 \<le> yMin" "yMin \<le> v" "v \<le> yMax"
proof -
  have mx: "v \<le> math_max vals" "0 \<le> math_max vals" "is_double (math_max vals)"
    and mn: "math_min vals \<le> v" "0 \<le> math_min vals" "is_double (math_min vals)"
    using math_extremes [OF assms(3)] math_extremes_in [OF assms(1)] assms(2) by auto
  have "1 \<le> fl (115/100)" using f64.le_rnd [of 1 "115/100"] by simp
  then have "math_max vals * 1 \<le> math_max vals * fl (115/100)" by (rule mult_left_mono) (rule mx)
  then have up: "math_max vals \<le> fmul (math_max vals) (fl (115/100))"
    using f64.le_rnd [of "math_max vals" "math_max vals * fl (115/100)"] mx(3) by (simp add: fmul_def is_double_def)
  have "fl (85/100) \<le> 1" using f64.rnd_le [of 1 "85/100"] by simp
  then have "math_min vals * fl (85/100) \<le> math_min vals * 1" by (rule mult_left_mono) (rule mn)
  then have dn: "fmul (math_min vals) (fl (85/100)) \<le> math_min vals"
    using f64.rnd_le [of "math_min vals" "math_min vals * fl (85/100)"] mn(3) by (simp add: fmul_def is_double_def)
  define a where "a = fmul (math_max vals) (fl (115/100))"
  define b where "b = max 0 (fmul (math_min vals) (fl (85/100)))"
  have da: "is_double a" "is_double b" by (simp_all add: a_def b_def max_def)
  have ab: "v \<le> a" "b \<le> v" using up dn mx mn by (simp_all add: a_def b_def)
  have wide: "a \<le> fadd a 500" "fsub b 200 \<le> b"
    using f64.le_rnd [of a "a + 500"] f64.rnd_le [of b "b - 200"] da by (simp_all add: fadd_def fsub_def is_double_def)
  have lim: "(yMax, yMin) = (if fsub a b < 500 then (fadd a 500, max 0 (fsub b 200)) else (a, b))"
    using assms(4) unfolding y_limits_def Let_def a_def b_def by (rule sym)
  have "0 \<le> v" "0 \<le> b" using assms(2,3) by (simp_all add: b_def)
  with lim ab wide show "0 \<le> yMin" "yMin \<le> v" "v \<le> yMax" by (auto split: if_splits)
qed

lemma set_allVals: "p \<in> set pts \<Longrightarrow> {pc_avg_us p, pc_p50_us p, pc_p95_us p, pc_p99_us p} \<subseteq> set (allVals pts)"
  by (auto simp: allVals_def)

text \<open>Histories as the data source makes them: latencies that are not negative, times in order.\<close>

definition wf_points :: "('p \<Rightarrow> number) \<Rightarrow> ('p \<Rightarrow> number list) \<Rightarrow> 'p list \<Rightarrow> bool" where
  "wf_points time vals pts \<longleftrightarrow> sorted (map time pts) \<and> list_all (\<lambda>p. list_all (\<lambda>v. 0 \<le> v \<and> is_double v) (vals p)) pts"

lemma sorted_ends: "sorted (map time pts) \<Longrightarrow> p \<in> set pts \<Longrightarrow> time (hd pts) \<le> time p \<and> time p \<le> (time (last pts) :: number)"
proof (induction pts)
  case (Cons q qs)
  then show ?case by (cases "qs = []") auto
qed simp

lemma times_in_frame:
  assumes "sorted (map time pts)" "p \<in> set pts"
  shows "time (hd pts) \<le> time p" "fsub (time p) (time (hd pts)) \<le> max (fsub (time (last pts)) (time (hd pts))) 1"
    "0 < max (fsub (time (last pts)) (time (hd pts))) (1 :: number)"
proof -
  have "time p \<le> time (last pts)" using sorted_ends [OF assms] by blast
  then have "fsub (time p) (time (hd pts)) \<le> fsub (time (last pts)) (time (hd pts))" by (rule fsub_mono) simp
  then show "fsub (time p) (time (hd pts)) \<le> max (fsub (time (last pts)) (time (hd pts))) 1" by simp
  show "time (hd pts) \<le> time p" using sorted_ends [OF assms] by blast
qed simp

definition in_plot :: "nat \<Rightarrow> nat \<Rightarrow> number \<times> number \<Rightarrow> bool" where
  "in_plot W H q \<longleftrightarrow> 56 \<le> fst q \<and> fst q \<le> of_nat (W - 14) \<and> 10 \<le> snd q \<and> snd q \<le> of_nat (H - 22)"

lemma latency_vertex_in_plot:
  assumes size: "70 \<le> W" "W \<le> 2 ^ 53" "32 \<le> H" "H \<le> 2 ^ 53"
    and wf: "wf_points mp_time (\<lambda>p. [pc_avg_us p, pc_p50_us p, pc_p95_us p, pc_p99_us p]) pts" and p: "p \<in> set pts"
    and key: "key \<in> {pc_avg_us, pc_p50_us, pc_p95_us, pc_p99_us}"
  defines "f \<equiv> latency_frame (of_nat W) (of_nat H) pts"
  shows "in_plot W H (toX f (mp_time p), toY f (key p))"
proof -
  obtain yMax yMin where lim: "y_limits (allVals pts) = (yMax, yMin)" by force
  have f: "fr_cw f = of_nat (W - 70)" "fr_ch f = of_nat (H - 32)" "fr_tMin f = mp_time (hd pts)"
    "fr_tRange f = max (fsub (mp_time (last pts)) (mp_time (hd pts))) 1" "fr_yMin f = yMin"
    "fr_yRange f = (if fsub yMax yMin = 0 then 1 else fsub yMax yMin)"
    using frame_sizes [OF size] by (simp_all add: f_def latency_frame_def lim Let_def)
  have srt: "sorted (map mp_time pts)" using wf by (simp add: wf_points_def)
  have x: "56 \<le> toX f (mp_time p) \<and> toX f (mp_time p) \<le> of_nat (56 + (W - 70))"
    by (rule toX_bounds) (use f times_in_frame [OF srt p] size in simp_all)
  have v: "key p \<in> set (allVals pts)" using set_allVals [OF p] key by auto
  have nn: "\<forall>v \<in> set (allVals pts). 0 \<le> v \<and> is_double v"
    using wf by (auto simp: wf_points_def allVals_def list_all_iff)
  have ne: "allVals pts \<noteq> []" using v by auto
  note b = y_limits_contain [OF ne nn v lim]
  have le: "fsub (key p) yMin \<le> fsub yMax yMin" by (rule fsub_mono) (use b in simp_all)
  have "0 \<le> fsub yMax yMin" using b by (simp add: fsub_def f64.rnd_nonneg)
  then have "10 \<le> toY f (key p) \<and> toY f (key p) \<le> of_nat (10 + (H - 32))"
    by (intro toY_bounds) (use f b le size in auto)
  with x size show ?thesis by (simp add: in_plot_def)
qed

lemma resource_vertex_in_plot:
  assumes size: "70 \<le> W" "W \<le> 2 ^ 53" "32 \<le> H" "H \<le> 2 ^ 53" and srt: "sorted (map rp_time pts)"
    and p: "p \<in> set pts" and v: "0 \<le> v" "v \<le> 100"
  defines "f \<equiv> resource_frame (of_nat W) (of_nat H) pts"
  shows "in_plot W H (toX f (rp_time p), toY f v)"
proof -
  have f: "fr_cw f = of_nat (W - 70)" "fr_ch f = of_nat (H - 32)" "fr_tMin f = rp_time (hd pts)"
    "fr_tRange f = max (fsub (rp_time (last pts)) (rp_time (hd pts))) 1" "fr_yMin f = 0" "fr_yRange f = 100"
    using frame_sizes [OF size] by (simp_all add: f_def resource_frame_def Let_def)
  have x: "56 \<le> toX f (rp_time p) \<and> toX f (rp_time p) \<le> of_nat (56 + (W - 70))"
    by (rule toX_bounds) (use f times_in_frame [OF srt p] size in simp_all)
  have "fsub v 0 \<le> 100" using v f64.rnd_le [of 100 v] by (simp add: fsub_def)
  then have "10 \<le> toY f v \<and> toY f v \<le> of_nat (10 + (H - 32))"
    by (intro toY_bounds) (use f v size in auto)
  with x size show ?thesis by (simp add: in_plot_def)
qed

text \<open>A piece of a drawing.\<close>

definition drawn_in :: "draw_cmd list \<Rightarrow> draw_cmd list \<Rightarrow> bool" where
  "drawn_in part drawing \<longleftrightarrow> (\<exists>pre post. drawing = pre @ part @ post)"

lemma drawn_in_append: "drawn_in part xs \<Longrightarrow> drawn_in part (xs @ ys)" "drawn_in part ys \<Longrightarrow> drawn_in part (xs @ ys)"
  unfolding drawn_in_def by (metis append.assoc)+

lemma drawn_in_concat: "x \<in> set xs \<Longrightarrow> drawn_in part (g x) \<Longrightarrow> drawn_in part (concat (map g xs))"
  by (induction xs) (auto intro: drawn_in_append)

text \<open>The commands that stroke one line.\<close>

definition latency_stroke :: "frame \<Rightarrow> MtPoint list \<Rightarrow> (MtPoint \<Rightarrow> number) \<times> string \<times> number list \<times> number \<Rightarrow> draw_cmd list" where
  "latency_stroke f pts = (\<lambda>(key, color, dash, width). [BeginPath, StrokeStyle color, LineWidth width, LineDash dash] @
     polyline (series_points f mp_time key pts) @ [Stroke, LineDash []])"

definition resource_stroke :: "frame \<Rightarrow> ResourcePoint list \<Rightarrow> (ResourcePoint \<Rightarrow> number) \<times> string \<times> number \<Rightarrow> draw_cmd list" where
  "resource_stroke f pts = (\<lambda>(key, color, width). [BeginPath, StrokeStyle color, LineWidth width] @
     polyline (series_points f rp_time key pts) @ [Stroke])"

lemma drawn_in_refl: "drawn_in part part"
  unfolding drawn_in_def by (metis append_Nil append_Nil2)

lemma latency_lines_drawn:
  assumes "setupCanvas c = Some (setup, W, H)" "2 \<le> length history" "l \<in> set (latency_lines isSpike)"
  shows "drawn_in (latency_stroke (latency_frame W H (keep_last 180 history)) (keep_last 180 history) l)
    (drawLatency tz (Some c) history isSpike)"
proof -
  let ?f = "latency_frame W H (keep_last 180 history)"
  have "drawn_in (latency_stroke ?f (keep_last 180 history) l)
      (concat (map (latency_stroke ?f (keep_last 180 history)) (latency_lines isSpike)))"
    by (rule drawn_in_concat [OF assms(3) drawn_in_refl])
  moreover have "\<not> length history < 2" using assms(2) by simp
  ultimately show ?thesis unfolding drawLatency_def assms(1) option.case prod.case Let_def latency_stroke_def [symmetric]
    by (simp only: if_False)
      (rule drawn_in_append(2), rule drawn_in_append(2), rule drawn_in_append(2), rule drawn_in_append(2),
       rule drawn_in_append(2), rule drawn_in_append(1))
qed

lemma resource_lines_drawn:
  assumes "setupCanvas c = Some (setup, W, H)" "2 \<le> length hist" "l \<in> set resource_series"
  shows "drawn_in (resource_stroke (resource_frame W H (keep_last 180 hist)) (keep_last 180 hist) l)
    (drawResources tz (Some c) (Some hist) label)"
proof -
  let ?f = "resource_frame W H (keep_last 180 hist)"
  have "drawn_in (resource_stroke ?f (keep_last 180 hist) l)
      (concat (map (resource_stroke ?f (keep_last 180 hist)) resource_series))"
    by (rule drawn_in_concat [OF assms(3) drawn_in_refl])
  moreover have "\<not> length hist < 2" using assms(2) by simp
  ultimately show ?thesis unfolding drawResources_def assms(1) option.case prod.case Let_def resource_stroke_def [symmetric]
    by (simp only: if_False)
      (rule drawn_in_append(2), rule drawn_in_append(2), rule drawn_in_append(2), rule drawn_in_append(2),
       rule drawn_in_append(2), rule drawn_in_append(2), rule drawn_in_append(2), rule drawn_in_append(1))
qed

definition loads :: "ResourcePoint \<Rightarrow> number list" where
  "loads p = [rp_cpu_pct p, rp_io_wait_pct p, rp_mem_pressure_pct p]"

definition latencies :: "MtPoint \<Rightarrow> number list" where
  "latencies p = [pc_avg_us p, pc_p50_us p, pc_p95_us p, pc_p99_us p]"

text \<open>
  C22: the lines of the prototype's charts stay in their plots. On a canvas of at least 70 by
  32 pixels, for a history of at least two points in the order of time: each of the four
  latency lines is drawn, and every vertex of it lies inside the frame, for any latencies
  that are not negative; and each of the three resource lines is drawn inside the frame,
  for loads that are percentages. Both hold exactly, with every rounding of the scales.
\<close>

theorem mt_charts_in_plot:
  assumes "70 \<le> W" "W \<le> 2 ^ 53" "32 \<le> H" "H \<le> 2 ^ 53"
    and "cv_clientWidth c = of_nat W" "cv_clientHeight c = of_nat H"
    and "2 \<le> length history" "2 \<le> length hist"
    and "wf_points mp_time latencies (keep_last 180 history)"
    and "wf_points rp_time loads (keep_last 180 hist)" "list_all (\<lambda>p. list_all (\<lambda>v. v \<le> 100) (loads p)) (keep_last 180 hist)"
  shows "\<exists>f g. (\<forall>l \<in> set (latency_lines isSpike).
      drawn_in (latency_stroke f (keep_last 180 history) l) (drawLatency tz (Some c) history isSpike) \<and>
      list_all (in_plot W H) (series_points f mp_time (fst l) (keep_last 180 history))) \<and>
    (\<forall>l \<in> set resource_series.
      drawn_in (resource_stroke g (keep_last 180 hist) l) (drawResources tz (Some c) (Some hist) label) \<and>
      list_all (in_plot W H) (series_points g rp_time (fst l) (keep_last 180 hist)))"
proof (intro exI conjI ballI)
  let ?f = "latency_frame (of_nat W) (of_nat H) (keep_last 180 history)"
  let ?g = "resource_frame (of_nat W) (of_nat H) (keep_last 180 hist)"
  have "\<exists>s. setupCanvas c = Some (s, of_nat W, of_nat H)"
    using assms(1,3,5,6) by (simp add: setupCanvas_def Let_def)
  then obtain s where s: "setupCanvas c = Some (s, of_nat W, of_nat H)" by blast
  {
    fix l assume l: "l \<in> set (latency_lines isSpike)"
    show "drawn_in (latency_stroke ?f (keep_last 180 history) l) (drawLatency tz (Some c) history isSpike)"
      by (rule latency_lines_drawn [OF s assms(7) l])
    have "fst l \<in> {pc_avg_us, pc_p50_us, pc_p95_us, pc_p99_us}" using l unfolding latency_lines_def by auto
    with latency_vertex_in_plot [OF assms(1-4)] assms(9)
    show "list_all (in_plot W H) (series_points ?f mp_time (fst l) (keep_last 180 history))"
      by (simp add: series_points_def list_all_iff latencies_def [abs_def])
  }
  fix l assume l: "l \<in> set resource_series"
  show "drawn_in (resource_stroke ?g (keep_last 180 hist) l) (drawResources tz (Some c) (Some hist) label)"
    by (rule resource_lines_drawn [OF s assms(8) l])
  have "sorted (map rp_time (keep_last 180 hist))" using assms(10) by (simp add: wf_points_def)
  from resource_vertex_in_plot [OF assms(1-4) this] l assms(10,11)
  show "list_all (in_plot W H) (series_points ?g rp_time (fst l) (keep_last 180 hist))"
    by (auto simp: series_points_def list_all_iff resource_series_def wf_points_def loads_def)
qed

section \<open>When nothing is drawn\<close>

lemma setupCanvas_None: "setupCanvas c = None \<longleftrightarrow> cv_clientWidth c \<le> 0 \<or> cv_clientHeight c \<le> 0"
  by (simp add: setupCanvas_def Let_def)

lemma setupCanvas_nonempty: "setupCanvas c = Some (s, W, H) \<Longrightarrow> s \<noteq> []"
  by (auto simp: setupCanvas_def Let_def split: if_splits)

text \<open>
  The early returns of the charts. The latency chart, the resource chart and the
  sparkline send no command to the canvas exactly when there is no element, there are
  fewer than two points, or the element has no area; in every other case they draw (so a
  stale drawing is never left behind because of an empty extent of the data).
\<close>

lemma mt_charts_blank:
  "(drawLatency tz (Some c) history isSpike = [] \<longleftrightarrow>
      length history < 2 \<or> cv_clientWidth c \<le> 0 \<or> cv_clientHeight c \<le> 0) \<and>
   (drawResources tz (Some c) (Some hist) label = [] \<longleftrightarrow>
      length hist < 2 \<or> cv_clientWidth c \<le> 0 \<or> cv_clientHeight c \<le> 0) \<and>
   (Sparkline (Some c) vs color = [] \<longleftrightarrow> length vs < 2 \<or> cv_clientWidth c \<le> 0 \<or> cv_clientHeight c \<le> 0) \<and>
   drawLatency tz None history isSpike = [] \<and> drawResources tz None (Some hist) label = [] \<and>
   drawResources tz (Some c) None label = [] \<and> Sparkline None vs color = []"
proof (cases "setupCanvas c")
  case None
  with setupCanvas_None [of c] show ?thesis by (auto simp: drawLatency_def drawResources_def Sparkline_def)
next
  case (Some x)
  then have "\<not> (cv_clientWidth c \<le> 0 \<or> cv_clientHeight c \<le> 0)" using setupCanvas_None [of c] by simp
  with Some show ?thesis
    by (auto simp: drawLatency_def drawResources_def Sparkline_def Let_def case_prod_beta)
qed

section \<open>Concrete inputs\<close>

definition canvas1 :: canvas_mt where
  "canvas1 = \<lparr>cv_dpr = 2, cv_clientWidth = of_nat 320, cv_clientHeight = of_nat 140\<rparr>"

definition point_at :: "number \<Rightarrow> number \<Rightarrow> MtPoint" where
  "point_at t v = \<lparr>pc_avg_us = v, pc_p50_us = v, pc_p95_us = v, pc_p99_us = v, pc_jitter_us = 0, mp_time = t\<rparr>"

definition load_at :: "number \<Rightarrow> number \<Rightarrow> ResourcePoint" where
  "load_at t v = \<lparr>rp_time = t, rp_cpu_pct = v, rp_io_wait_pct = v, rp_mem_pressure_pct = v, rp_cpu_throttle_pct = 0\<rparr>"

theorem mt_charts_in_plot_witness:
  "\<exists>f. list_all (in_plot 320 140) (series_points f mp_time pc_p99_us [point_at 1000 1500, point_at 2000 90000]) \<and>
     drawn_in (latency_stroke f [point_at 1000 1500, point_at 2000 90000] (pc_p99_us, cc_spike CHART_COLORS, [], fl (24/10)))
       (drawLatency 0 (Some canvas1) [point_at 1000 1500, point_at 2000 90000] True)"
proof -
  have wf: "wf_points mp_time latencies (keep_last 180 [point_at 1000 1500, point_at 2000 90000])"
    "wf_points rp_time loads (keep_last 180 [load_at 1000 20, load_at 2000 100])"
    "list_all (\<lambda>p. list_all (\<lambda>v. v \<le> 100) (loads p)) (keep_last 180 [load_at 1000 20, load_at 2000 100])"
    by (simp_all add: wf_points_def latencies_def loads_def point_at_def load_at_def)
  have c: "cv_clientWidth canvas1 = of_nat 320" "cv_clientHeight canvas1 = of_nat 140" by (simp_all add: canvas1_def)
  from mt_charts_in_plot [OF _ _ _ _ c _ _ wf, of True 0 None] obtain f g where
    "\<forall>l \<in> set (latency_lines True). drawn_in (latency_stroke f [point_at 1000 1500, point_at 2000 90000] l)
        (drawLatency 0 (Some canvas1) [point_at 1000 1500, point_at 2000 90000] True) \<and>
      list_all (in_plot 320 140) (series_points f mp_time (fst l) [point_at 1000 1500, point_at 2000 90000])" by auto
  then show ?thesis by (intro exI [of _ f]) (simp add: latency_lines_def)
qed

end
