(* ===== verification/MtApp.thy ===== *)
theory MtApp
  imports MtPanels MtTopology MtChart
begin

text \<open>
  \<open>design_handoff_microtrace/mt-app.jsx\<close>: the prototype's application. It owns the snapshots,
  services and events that the ticks of \<open>MTData\<close> return, the selection, the view and the
  tweaks, and drives the simulation with a chain of timeouts after a warm-up of 80 ticks.
  Its state is \<open>app_mt\<close>, the module's variables included; an event of the browser is a value
  of \<open>ev_mt\<close>, and handling one is an action on the environment of random draws and clock
  readings. Messages to the embedding window are kept in the order they are posted.

  The application calls the data source only through \<open>tick\<close>, which is an argument here; what it
  needs of it is the locale \<open>tick_source\<close>, interpreted on \<open>tick_mt\<close>.
\<close>

section \<open>Header components\<close>

definition badgePill :: "string \<Rightarrow> string \<Rightarrow> string \<Rightarrow> style" where
  "badgePill bg border color =
     [(''padding'', ''3px 10px''), (''borderRadius'', ''12''), (''background'', bg),
      (''border'', ''1px solid '' @ border), (''fontSize'', ''10''), (''color'', color),
      (''fontFamily'', ''Inter, system-ui''), (''fontWeight'', ''600'')]"

record topbar_mt =
  tm_bar :: topbar
  tm_service_style :: style
  tm_stressed_style :: style
  tm_spike_style :: style

definition TopBar_mt :: "int \<Rightarrow> int \<Rightarrow> bool \<Rightarrow> nat \<Rightarrow> nat \<Rightarrow> nat \<Rightarrow> topbar_mt" where
  "TopBar_mt tz now up spikeCount serviceCount stressedCount =
     \<lparr>tm_bar = \<lparr>tb_dot = (if up then ''#16a34a'' else ''#dc2626''),
        tb_halo = (if up then ''0 0 6px #16a34a66'' else ''0 0 6px #dc262666''),
        tb_status = (if up then ''collector connected'' else ''reconnecting'' @ ellipsis),
        tb_services = show_nat serviceCount @ '' services'',
        tb_stressed = (if stressedCount > 0 then Some (bolt @ '' '' @ show_nat stressedCount @ '' stressed'') else None),
        tb_spikes = (if spikeCount > 0
          then Some (red_dot @ '' '' @ show_nat spikeCount @ '' spike'' @ (if spikeCount > 1 then ''s'' else [])) else None),
        tb_clock = fmtTime tz (of_int now)\<rparr>,
      tm_service_style = badgePill ''#f1f5f9'' ''#cbd5e1'' ''#475569'',
      tm_stressed_style = badgePill ''#fff7ed'' ''#fed7aa'' ''#ea580c'',
      tm_spike_style = badgePill ''#fef2f2'' ''#fecaca'' ''#dc2626'' @ [(''animation'', ''blink 1.4s ease infinite'')]\<rparr>"

definition SectionHeader_mt :: "string \<Rightarrow> string option \<Rightarrow> section_view" where
  "SectionHeader_mt label cnt = \<lparr>sh_label = label, sh_count = cnt\<rparr>"

section \<open>Tweaks\<close>

record tweaks =
  tw_showExternal :: bool
  tw_logPanelHeight :: int
  tw_tickIntervalMs :: int
  tw_primaryAccent :: string

definition TWEAK_DEFAULTS :: tweaks where
  "TWEAK_DEFAULTS = \<lparr>tw_showExternal = True, tw_logPanelHeight = 168, tw_tickIntervalMs = 1000,
     tw_primaryAccent = ''#2563eb''\<rparr>"

datatype tweak_edit = Edit_interval int | Edit_external bool | Edit_height int

fun apply_edit :: "tweak_edit \<Rightarrow> tweaks \<Rightarrow> tweaks" where
  "apply_edit (Edit_interval v) t = t\<lparr>tw_tickIntervalMs := v\<rparr>"
| "apply_edit (Edit_external b) t = t\<lparr>tw_showExternal := b\<rparr>"
| "apply_edit (Edit_height v) t = t\<lparr>tw_logPanelHeight := v\<rparr>"

text \<open>The sliders: minimum, maximum and step; a slider reports a value on its grid.\<close>

record slider =
  sl_min :: int
  sl_max :: int
  sl_step :: int

definition interval_slider :: slider where
  "interval_slider = \<lparr>sl_min = 200, sl_max = 3000, sl_step = 100\<rparr>"

definition height_slider :: slider where
  "height_slider = \<lparr>sl_min = 120, sl_max = 320, sl_step = 20\<rparr>"

definition slider_value :: "slider \<Rightarrow> int \<Rightarrow> bool" where
  "slider_value s v \<longleftrightarrow> sl_min s \<le> v \<and> v \<le> sl_max s \<and> (v - sl_min s) mod sl_step s = 0"

record tweaks_view =
  tp_interval :: "slider \<times> int \<times> string"
  tp_external :: "bool \<times> string \<times> string"
  tp_height :: "slider \<times> int \<times> string"

definition TweaksPanel :: "tweaks \<Rightarrow> tweaks_view" where
  "TweaksPanel t =
     \<lparr>tp_interval = (interval_slider, tw_tickIntervalMs t, show_int (tw_tickIntervalMs t) @ ''ms''),
      tp_external = (tw_showExternal t, if tw_showExternal t then ''#16a34a'' else ''#94a3b8'',
        if tw_showExternal t then ''on'' else ''off''),
      tp_height = (height_slider, tw_logPanelHeight t, show_int (tw_logPanelHeight t) @ ''px'')\<rparr>"

section \<open>State\<close>

datatype view_mt = MV_graph dims | MV_list list_state_mt | MV_matrix

datatype post_mt = Post_available | Post_set_keys tweaks | Post_dismissed

record app_mt =
  ap_module :: mt_state
  ap_snapshots :: "MtSnap obj"
  ap_services :: ServiceMap
  ap_events :: "MtEvent list"
  ap_selected :: "string option"
  ap_tweaksVisible :: bool
  ap_tweaks :: tweaks
  ap_view :: view_mt
  ap_tickRef :: int
  ap_timeout :: "int option"
  ap_posts :: "post_mt list"

definition app_init_mt :: "mt_state \<Rightarrow> app_mt" where
  "app_init_mt m =
     \<lparr>ap_module = m, ap_snapshots = [], ap_services = [], ap_events = [], ap_selected = None,
      ap_tweaksVisible = False, ap_tweaks = TWEAK_DEFAULTS, ap_view = MV_graph dims_init,
      ap_tickRef = tw_tickIntervalMs TWEAK_DEFAULTS, ap_timeout = None, ap_posts = []\<rparr>"

section \<open>The simulation loop\<close>

text \<open>\<open>for (i = 0; i < n; i++) result = tick()\<close>: an exception leaves the loop and the effect.\<close>

type_synonym ticker = "mt_state \<Rightarrow> (env, mt_state \<times> (js_error + mt_result)) state"

fun warm :: "ticker \<Rightarrow> nat \<Rightarrow> mt_state \<Rightarrow> mt_result option \<Rightarrow> (env, mt_state \<times> (js_error + mt_result option)) state" where
  "warm tickf 0 m res = State_Monad.return (m, Inr res)"
| "warm tickf (Suc n) m res = do {
     x \<leftarrow> tickf m;
     case snd x of Inl ex \<Rightarrow> State_Monad.return (fst x, Inl ex)
     | Inr r \<Rightarrow> warm tickf n (fst x) (Some r) }"

definition set_result :: "mt_result \<Rightarrow> app_mt \<Rightarrow> app_mt" where
  "set_result r a =
     a\<lparr>ap_snapshots := mr_snapshots r, ap_services := mr_services r, ap_events := mr_allEvents r\<rparr>"

text \<open>The effects of the first render, in order: the warm-up and the first timeout, then the
  message protocol.\<close>

definition app_mount :: "ticker \<Rightarrow> app_mt \<Rightarrow> (env, app_mt) state" where
  "app_mount tickf a = do {
     x \<leftarrow> warm tickf 80 (ap_module a) None;
     let a = a\<lparr>ap_module := fst x\<rparr>;
     let a = (case snd x of Inl ex \<Rightarrow> a
       | Inr res \<Rightarrow> (let a = (case res of None \<Rightarrow> a | Some r \<Rightarrow> set_result r a)
                     in a\<lparr>ap_timeout := Some (ap_tickRef a)\<rparr>));
     State_Monad.return (a\<lparr>ap_posts := ap_posts a @ [Post_available]\<rparr>) }"

text \<open>A timeout that fires: it is no longer pending, and the next one is set at the end; an
  exception of \<open>tick\<close> ends the chain.\<close>

definition sim_loop :: "ticker \<Rightarrow> app_mt \<Rightarrow> (env, app_mt) state" where
  "sim_loop tickf a = do {
     x \<leftarrow> tickf (ap_module a);
     let a = a\<lparr>ap_module := fst x, ap_timeout := None\<rparr>;
     State_Monad.return (case snd x of Inl ex \<Rightarrow> a
       | Inr r \<Rightarrow> (set_result r a)\<lparr>ap_timeout := Some (ap_tickRef a)\<rparr>) }"

section \<open>Events\<close>

text \<open>The effect after a render with a new interval.\<close>

definition sync_ref :: "app_mt \<Rightarrow> app_mt" where
  "sync_ref a = a\<lparr>ap_tickRef := tw_tickIntervalMs (ap_tweaks a)\<rparr>"

definition handleTweakChange :: "tweak_edit \<Rightarrow> app_mt \<Rightarrow> app_mt" where
  "handleTweakChange ed a =
     (let next = apply_edit ed (ap_tweaks a)
      in sync_ref (a\<lparr>ap_tweaks := next, ap_posts := ap_posts a @ [Post_set_keys next]\<rparr>))"

definition onMsg :: "string \<Rightarrow> app_mt \<Rightarrow> app_mt" where
  "onMsg type a =
     (let a = (if type = ''__activate_edit_mode'' then a\<lparr>ap_tweaksVisible := True\<rparr> else a)
      in if type = ''__deactivate_edit_mode'' then a\<lparr>ap_tweaksVisible := False\<rparr> else a)"

definition closeTweaks :: "app_mt \<Rightarrow> app_mt" where
  "closeTweaks a = a\<lparr>ap_tweaksVisible := False, ap_posts := ap_posts a @ [Post_dismissed]\<rparr>"

definition setSelected_mt :: "string option \<Rightarrow> app_mt \<Rightarrow> app_mt" where
  "setSelected_mt k a = a\<lparr>ap_selected := k\<rparr>"

text \<open>Changing the view mounts the new one with its initial state; the same view stays.\<close>

definition setViewMode_mt :: "ViewMode \<Rightarrow> app_mt \<Rightarrow> app_mt" where
  "setViewMode_mt v a =
     a\<lparr>ap_view := (case (v, ap_view a) of
         (V_graph, MV_graph d) \<Rightarrow> MV_graph d | (V_list, MV_list l) \<Rightarrow> MV_list l
       | (V_graph, _) \<Rightarrow> MV_graph dims_init | (V_list, _) \<Rightarrow> MV_list list_init_mt | (V_matrix, _) \<Rightarrow> MV_matrix)\<rparr>"

definition in_list_mt :: "(list_state_mt \<Rightarrow> list_state_mt) \<Rightarrow> app_mt \<Rightarrow> app_mt" where
  "in_list_mt g a = (case ap_view a of MV_list l \<Rightarrow> a\<lparr>ap_view := MV_list (g l)\<rparr> | _ \<Rightarrow> a)"

definition resize_mt :: "number \<Rightarrow> number \<Rightarrow> app_mt \<Rightarrow> app_mt" where
  "resize_mt w h a = (case ap_view a of MV_graph d \<Rightarrow> a\<lparr>ap_view := MV_graph (on_resize w h d)\<rparr> | _ \<Rightarrow> a)"

datatype ev_mt =
    E_timeout
  | E_select "string option"
  | E_view ViewMode
  | E_sort SortKeyMt
  | E_filter FilterMt
  | E_resize number number
  | E_tweak tweak_edit
  | E_message string
  | E_close_tweaks
  | E_unmount

definition app_handle_mt :: "ticker \<Rightarrow> ev_mt \<Rightarrow> app_mt \<Rightarrow> (env, app_mt) state" where
  "app_handle_mt tickf ev a =
     (case ev of
        E_timeout \<Rightarrow> if ap_timeout a = None then State_Monad.return a else sim_loop tickf a
      | E_select k \<Rightarrow> State_Monad.return (setSelected_mt k a)
      | E_view v \<Rightarrow> State_Monad.return (setViewMode_mt v a)
      | E_sort k \<Rightarrow> State_Monad.return (in_list_mt (setSort k) a)
      | E_filter f \<Rightarrow> State_Monad.return (in_list_mt (setFilter_mt f) a)
      | E_resize w h \<Rightarrow> State_Monad.return (resize_mt w h a)
      | E_tweak ed \<Rightarrow> State_Monad.return (if ap_tweaksVisible a then handleTweakChange ed a else a)
      | E_message t \<Rightarrow> State_Monad.return (onMsg t a)
      | E_close_tweaks \<Rightarrow> State_Monad.return (if ap_tweaksVisible a then closeTweaks a else a)
      | E_unmount \<Rightarrow> State_Monad.return (a\<lparr>ap_timeout := None\<rparr>))"

definition app_start_mt :: "(env, app_mt) state" where
  "app_start_mt = do { m \<leftarrow> mt_load; app_mount tick_mt (app_init_mt m) }"

section \<open>The page\<close>

definition selectedSnap_mt :: "app_mt \<Rightarrow> MtSnap option" where
  "selectedSnap_mt a =
     (case ap_selected a of None \<Rightarrow> None | Some k \<Rightarrow> if k = [] then None else obj_get (ap_snapshots a) k)"

definition dstSvc_mt :: "app_mt \<Rightarrow> ServiceSnapshot option" where
  "dstSvc_mt a = Option.bind (selectedSnap_mt a) (\<lambda>s. obj_get (ap_services a) (ms_dst_service s))"

definition visibleSnapshots :: "app_mt \<Rightarrow> MtSnap obj" where
  "visibleSnapshots a =
     (if tw_showExternal (ap_tweaks a) then ap_snapshots a
      else filter (\<lambda>(k, s). ms_src_service s \<in> set INTERNAL_SERVICES_mt \<and> ms_dst_service s \<in> set INTERNAL_SERVICES_mt)
        (ap_snapshots a))"

datatype main_mt = Main_topo topo_view_mt | Main_conns list_view_mt | Main_heat matrix_view

record page_mt =
  pm_topbar :: topbar_mt
  pm_metrics :: "stat_view list option"
  pm_topo_header :: section_view
  pm_switcher :: "tab_view list"
  pm_main :: main_mt
  pm_detail_header :: section_view
  pm_spike_badge :: bool
  pm_detail :: detail_mt
  pm_log_height :: int
  pm_log_header :: section_view
  pm_latest :: "string option"
  pm_log :: log_view_mt
  pm_tweaks :: "tweaks_view option"

definition view_mode_mt :: "view_mt \<Rightarrow> ViewMode" where
  "view_mode_mt v = (case v of MV_graph _ \<Rightarrow> V_graph | MV_list _ \<Rightarrow> V_list | MV_matrix \<Rightarrow> V_matrix)"

definition App_mt :: "(string \<Rightarrow> number option) \<Rightarrow> (number \<Rightarrow> number) \<Rightarrow> int \<Rightarrow> int \<Rightarrow> app_mt \<Rightarrow> page_mt" where
  "App_mt tonum fsqrt tz now a =
     (let vis = visibleSnapshots a; sel = ap_selected a; snap = selectedSnap_mt a
      in \<lparr>pm_topbar = TopBar_mt tz now True (length (filter ms_is_spike (obj_values (ap_snapshots a))))
            (length (obj_keys (ap_services a))) (length (filter (\<lambda>s. sv_stress_kind s \<noteq> None) (obj_values (ap_services a)))),
          pm_metrics = GlobalMetrics_mt (ap_snapshots a) (ap_services a),
          pm_topo_header = SectionHeader_mt ''Service Topology'' (Some (show_nat (length (obj_keys vis)) @ '' edges'')),
          pm_switcher = ViewSwitcher_mt (view_mode_mt (ap_view a)),
          pm_main = (case ap_view a of
              MV_graph d \<Rightarrow> Main_topo (TopoGraph_mt fsqrt d vis (ap_services a) sel)
            | MV_list l \<Rightarrow> Main_conns (ConnectionListView_mt tonum l vis sel)
            | MV_matrix \<Rightarrow> Main_heat (HeatmapMatrixView_mt vis (ap_services a) sel)),
          pm_detail_header = SectionHeader_mt (''Detail '' @ utf8 [0xC2, 0xB7] @ '' Root-cause Analysis'') None,
          pm_spike_badge = (case snap of None \<Rightarrow> False | Some s \<Rightarrow> ms_is_spike s),
          pm_detail = DetailPanel_mt snap (dstSvc_mt a),
          pm_log_height = tw_logPanelHeight (ap_tweaks a),
          pm_log_header = SectionHeader_mt ''Spike Event Log'' (Some (show_nat (length (ap_events a)))),
          pm_latest = (case ap_events a of [] \<Rightarrow> None
            | ev # _ \<Rightarrow> Some (''latest: '' @ fmtTime tz (me_timestamp ev))),
          pm_log = SpikeLog_mt tz now (ap_events a),
          pm_tweaks = (if ap_tweaksVisible a then Some (TweaksPanel (ap_tweaks a)) else None)\<rparr>)"

section \<open>What the application needs of its data source\<close>

text \<open>The keys a user can select are those the current view draws; the sliders report values
  of their grids.\<close>

fun ev_ok :: "app_mt \<Rightarrow> ev_mt \<Rightarrow> bool" where
  "ev_ok a (E_select (Some k)) = (k \<in> set (obj_keys (visibleSnapshots a)))"
| "ev_ok a (E_tweak (Edit_interval v)) = slider_value interval_slider v"
| "ev_ok a E_unmount = False"
| "ev_ok a _ = True"

definition app_ok :: "(mt_state \<Rightarrow> bool) \<Rightarrow> (mt_state \<Rightarrow> string list) \<Rightarrow> app_mt \<Rightarrow> bool" where
  "app_ok ok keys a \<longleftrightarrow> ok (ap_module a) \<and> obj_keys (ap_snapshots a) = keys (ap_module a) \<and>
     (\<forall>k. ap_selected a = Some k \<longrightarrow> k \<in> set (keys (ap_module a))) \<and>
     (\<exists>d. ap_timeout a = Some d \<and> slider_value interval_slider d) \<and>
     ap_tickRef a = tw_tickIntervalMs (ap_tweaks a) \<and> slider_value interval_slider (ap_tickRef a)"

lemma visible_keys: "set (obj_keys (visibleSnapshots a)) \<subseteq> set (obj_keys (ap_snapshots a))"
  by (auto simp: visibleSnapshots_def obj_keys_def)

locale tick_source =
  fixes tickf :: ticker and ok :: "mt_state \<Rightarrow> bool" and keys :: "mt_state \<Rightarrow> string list"
  assumes tick_ok: "ok m \<Longrightarrow> \<exists>m' r. fst (run_state (tickf m) e) = (m', Inr r) \<and> ok m' \<and>
    keys m' = keys m \<and> obj_keys (mr_snapshots r) = keys m"
begin

lemma warm_ok: "ok m \<Longrightarrow> \<exists>m' r. fst (run_state (warm tickf (Suc n) m res) e) = (m', Inr (Some r)) \<and> ok m' \<and>
    keys m' = keys m \<and> obj_keys (mr_snapshots r) = keys m"
proof (induction n arbitrary: m res e)
  case 0
  from tick_ok [OF 0, of e] show ?case by (auto simp: case_prod_beta)
next
  case (Suc n)
  from tick_ok [OF Suc.prems, of e] obtain m' r where x: "fst (run_state (tickf m) e) = (m', Inr r)" "ok m'" "keys m' = keys m"
    by blast
  from Suc.IH [OF x(2), of "Some r" "snd (run_state (tickf m) e)"] x show ?case
    by (simp only: warm.simps(2) [of tickf "Suc n"] run_state_bind case_prod_beta fst_conv snd_conv sum.case)
qed

lemma loop_ok: "app_ok ok keys a \<Longrightarrow> app_ok ok keys (fst (run_state (sim_loop tickf a) e))"
  using tick_ok [of "ap_module a" e]
  by (auto simp: app_ok_def sim_loop_def case_prod_beta set_result_def Let_def)

lemma handle_ok: "app_ok ok keys a \<Longrightarrow> ev_ok a ev \<Longrightarrow> app_ok ok keys (fst (run_state (app_handle_mt tickf ev a) e))"
proof (induction a ev rule: ev_ok.induct)
  case (1 a k)
  then show ?case using visible_keys [of a] by (auto simp: app_ok_def app_handle_mt_def setSelected_mt_def)
qed (auto simp: app_handle_mt_def loop_ok,
   auto simp: app_ok_def setSelected_mt_def setViewMode_mt_def in_list_mt_def resize_mt_def handleTweakChange_def
     sync_ref_def onMsg_def closeTweaks_def Let_def split: view_mt.split)

lemma mount_ok: "ok m \<Longrightarrow> app_ok ok keys (fst (run_state (app_mount tickf (app_init_mt m)) e))"
proof -
  assume "ok m"
  from warm_ok [OF this, of 79 None e] obtain m' r where
    w: "fst (run_state (warm tickf 80 m None) e) = (m', Inr (Some r))" "ok m'" "keys m' = keys m" "obj_keys (mr_snapshots r) = keys m"
    by auto
  then show ?thesis
    by (simp add: app_mount_def app_init_mt_def case_prod_beta app_ok_def set_result_def TWEAK_DEFAULTS_def
        interval_slider_def slider_value_def del: warm.simps)
qed

end

section \<open>MTData is such a source\<close>

text \<open>The invariant of the module: every connection is stored under its own key and its
  destination is a service.\<close>

definition mt_full :: "mt_state \<Rightarrow> bool" where
  "mt_full m \<longleftrightarrow> wf_obj (connState_mt m) \<and>
     obj_all (\<lambda>k c. mc_key c = k \<and> obj_get (serviceState_mt m) (mc_dst c) \<noteq> None) (connState_mt m)"

definition mt_keys :: "mt_state \<Rightarrow> string list" where
  "mt_keys m = obj_keys (connState_mt m)"

lemma add_mt_snapshots: "ma_snapshots (add_mt k o1 acc) = obj_put (mc_key (mo_state o1)) (mo_snap o1) (ma_snapshots acc)"
  by (simp add: add_mt_def Let_def split: option.split)

lemma conns_mt_ok:
  assumes "obj_all (\<lambda>k c. mc_key c = k \<and> obj_get svcs (mc_dst c) \<noteq> None) cs"
    "distinct (map fst (ma_snapshots acc) @ map fst cs)"
  shows "\<exists>acc' cs'. fst (run_state (conns_mt svcs cs acc) e) = (acc', None) \<and>
    map fst (ma_snapshots acc') = map fst (ma_snapshots acc) @ map fst cs \<and>
    ma_conns acc' = ma_conns acc @ cs' \<and> obj_rel ticked_once cs cs'"
  using assms
proof (induction cs arbitrary: acc e)
  case (Cons kc cs)
  obtain k c where kc: "kc = (k, c)" by force
  with Cons.prems obtain d where d: "obj_get svcs (mc_dst c) = Some d" "mc_key c = k" by (auto simp: obj_all_def)
  from conn_tick_mt_ok [OF d(1), of "ma_counter acc" e] obtain o1 where
    o1: "fst (run_state (conn_tick_mt svcs (ma_counter acc) c) e) = Inr o1" "ticked_once c (mo_state o1)" by blast
  have k1: "mc_key (mo_state o1) = k" using o1(2) d(2) by (simp add: ticked_once_def same_conn_def)
  have put: "ma_snapshots (add_mt k o1 acc) = ma_snapshots acc @ [(k, mo_snap o1)]"
    using Cons.prems(2) unfolding add_mt_snapshots k1 by (intro obj_put_fresh) (auto simp: kc)
  have "distinct (map fst (ma_snapshots (add_mt k o1 acc)) @ map fst cs)"
    using Cons.prems(2) by (auto simp: put kc)
  moreover have "obj_all (\<lambda>k c. mc_key c = k \<and> obj_get svcs (mc_dst c) \<noteq> None) cs"
    using Cons.prems(1) by (simp add: obj_all_def)
  ultimately obtain acc' cs' where "fst (run_state (conns_mt svcs cs (add_mt k o1 acc))
      (snd (run_state (conn_tick_mt svcs (ma_counter acc) c) e))) = (acc', None)"
    "map fst (ma_snapshots acc') = map fst (ma_snapshots acc) @ map fst (kc # cs)"
    "ma_conns acc' = ma_conns acc @ (k, mo_state o1) # cs'" "obj_rel ticked_once cs cs'"
    using Cons.IH [of "add_mt k o1 acc" "snd (run_state (conn_tick_mt svcs (ma_counter acc) c) e)"] by (auto simp: put kc)
  with o1 show ?case
    by (intro exI [of _ acc'] exI [of _ "(k, mo_state o1) # cs'"]) (simp add: kc case_prod_beta obj_rel_def)
qed (simp add: obj_rel_def)

lemma ticked_keys: "obj_rel ticked_once cs cs' \<Longrightarrow> map fst cs' = map fst cs"
  using obj_rel_keys [of ticked_once cs cs'] by (simp add: obj_keys_def)

lemma ticked_all:
  "obj_rel ticked_once cs cs' \<Longrightarrow> obj_all (\<lambda>k c. mc_key c = k \<and> obj_get svcs (mc_dst c) \<noteq> None) cs \<Longrightarrow>
   obj_all (\<lambda>k c. mc_key c = k \<and> obj_get svcs (mc_dst c) \<noteq> None) cs'"
  unfolding obj_rel_def obj_all_def
  by (induction rule: list_all2_induct) (auto simp: ticked_once_def same_conn_def)

lemma tick_mt_ok:
  assumes "mt_full m"
  shows "\<exists>m' r. fst (run_state (tick_mt m) e) = (m', Inr r) \<and> mt_full m' \<and> mt_keys m' = mt_keys m \<and>
    obj_keys (mr_snapshots r) = mt_keys m"
proof -
  let ?run = "run_state (tick_services (serviceState_mt m)) e"
  let ?acc = "\<lparr>ma_conns = [], ma_snapshots = [], ma_new = [], ma_all = allSpikeEvents m, ma_counter = eventCounter_mt m\<rparr>"
  have keys: "map fst (fst ?run) = map fst (serviceState_mt m)" by (simp add: tick_services_def traverse_keys)
  then have none: "(obj_get (fst ?run) d = None) = (obj_get (serviceState_mt m) d = None)" for d
    unfolding obj_get_def by (metis map_of_eq_None_iff list.set_map)
  have cs: "obj_all (\<lambda>k c. mc_key c = k \<and> obj_get (fst ?run) (mc_dst c) \<noteq> None) (connState_mt m)"
    using assms by (simp add: mt_full_def none)
  have "distinct (map fst (ma_snapshots ?acc) @ map fst (connState_mt m))" using assms by (simp add: mt_full_def wf_obj_def)
  from conns_mt_ok [OF cs this, of "snd ?run"] obtain acc' cs' where
    run: "fst (run_state (conns_mt (fst ?run) (connState_mt m) ?acc) (snd ?run)) = (acc', None)"
    "map fst (ma_snapshots acc') = map fst (connState_mt m)" "ma_conns acc' = cs'" "obj_rel ticked_once (connState_mt m) cs'"
    by auto
  have full: "mt_full \<lparr>serviceState_mt = fst ?run, connState_mt = cs', allSpikeEvents = ma_all acc', eventCounter_mt = ma_counter acc'\<rparr>"
    using assms ticked_all [OF run(4) cs] ticked_keys [OF run(4)] by (simp add: mt_full_def wf_obj_def)
  show ?thesis using run full ticked_keys [OF run(4)]
    by (auto simp: tick_mt_def Let_def case_prod_beta tick_services_def mt_keys_def obj_keys_def)
qed

interpretation mtdata: tick_source tick_mt mt_full mt_keys
  by unfold_locales (rule tick_mt_ok)

lemma load_full: "mt_full (fst (run_state mt_load e))"
proof -
  have "init_conn_mt d = (fst (init_conn_mt d), snd (init_conn_mt d))" for d by simp
  have conns: "obj_puts (map init_conn_mt CONN_DEFS) [] = map init_conn_mt CONN_DEFS"
    by (subst obj_puts_distinct; simp add: CONN_DEFS_def init_conn_mt_def arrow_def Let_def)
  have known: "mt_inv (fst (run_state mt_load e))"
    using lockstepD [OF load_lockstep, of e] by blast
  have "distinct (map fst (map init_conn_mt CONN_DEFS))"
    by (simp add: CONN_DEFS_def init_conn_mt_def arrow_def Let_def)
  moreover have "obj_all (\<lambda>k c. mc_key c = k) (map init_conn_mt CONN_DEFS)"
    by (simp add: obj_all_def list_all_iff init_conn_mt_def Let_def)
  ultimately show ?thesis using known
    by (auto simp: mt_full_def mt_inv_def mt_load_def case_prod_beta conns wf_obj_def obj_all_def list_all_iff conn_ok_def)
qed

lemma start_ok: "app_ok mt_full mt_keys (fst (run_state app_start_mt e))"
  using mtdata.mount_ok [OF load_full] by (simp add: app_start_mt_def case_prod_beta)

section \<open>Every reachable state of the application\<close>

inductive reach_mt :: "app_mt \<Rightarrow> env \<Rightarrow> bool" where
  start: "run_state app_start_mt e = (a, e') \<Longrightarrow> reach_mt a e'"
| event: "reach_mt a e \<Longrightarrow> ev_ok a ev \<Longrightarrow> run_state (app_handle_mt tick_mt ev a) e = (a', e') \<Longrightarrow> reach_mt a' e'"

lemma reach_ok: "reach_mt a e \<Longrightarrow> app_ok mt_full mt_keys a"
proof (induction rule: reach_mt.induct)
  case (start e a e')
  then show ?case using start_ok [of e] by simp
next
  case (event a e ev a' e')
  then show ?case using mtdata.handle_ok [of a ev e] by simp
qed

text \<open>
  C12: the prototype never stops and never loses its selection. In every state it can reach
  (from loading the page, by any ticks, clicks on what is drawn, view changes, tweaks and
  messages) the next tick is scheduled, after between 200 and 3000 ms; the snapshots are
  those of the module's connections, under their keys; and a selected connection has a
  snapshot, so the detail panel shows it, even while the filter of external services
  hides it from the view.
\<close>

theorem mt_app_runs:
  assumes "reach_mt a e"
  shows "(\<exists>d. ap_timeout a = Some d \<and> 200 \<le> d \<and> d \<le> 3000) \<and>
    obj_keys (ap_snapshots a) = mt_keys (ap_module a) \<and>
    (\<forall>k. ap_selected a = Some k \<and> k \<noteq> [] \<longrightarrow> (\<exists>s v. selectedSnap_mt a = Some s \<and>
      pm_detail (App_mt tonum fsqrt tz now a) = Detail_conn v \<and> dv_src v = ms_src_service s \<and> dv_dst v = ms_dst_service s))"
proof (intro conjI allI impI)
  note ok = reach_ok [OF assms]
  show "\<exists>d. ap_timeout a = Some d \<and> 200 \<le> d \<and> d \<le> 3000"
    using ok by (auto simp: app_ok_def slider_value_def interval_slider_def)
  show "obj_keys (ap_snapshots a) = mt_keys (ap_module a)" using ok by (simp add: app_ok_def)
  fix k assume k: "ap_selected a = Some k \<and> k \<noteq> []"
  then have "k \<in> set (obj_keys (ap_snapshots a))" using ok by (simp add: app_ok_def)
  then obtain s where "obj_get (ap_snapshots a) k = Some s" using js_obj.keys_get by fastforce
  with k have "selectedSnap_mt a = Some s" by (simp add: selectedSnap_mt_def)
  then show "\<exists>s v. selectedSnap_mt a = Some s \<and>
      pm_detail (App_mt tonum fsqrt tz now a) = Detail_conn v \<and> dv_src v = ms_src_service s \<and> dv_dst v = ms_dst_service s"
    by (simp add: App_mt_def Let_def DetailPanel_mt_def)
qed

theorem mt_app_runs_witness:
  "\<exists>d. ap_timeout (fst (run_state app_start_mt env0)) = Some d \<and> 200 \<le> d \<and> d \<le> 3000"
proof -
  have "reach_mt (fst (run_state app_start_mt env0)) (snd (run_state app_start_mt env0))"
    by (rule reach_mt.start [of env0]) simp
  from mt_app_runs [OF this, of "\<lambda>_. None" "\<lambda>x. x" 0 0] show ?thesis by blast
qed

section \<open>The warm-up\<close>

lemma warm_snoc: "warm tickf (Suc n) m res = do {
    x \<leftarrow> warm tickf n m res;
    case snd x of Inl ex \<Rightarrow> State_Monad.return x
    | Inr _ \<Rightarrow> do { y \<leftarrow> tickf (fst x); State_Monad.return (fst y, map_sum (\<lambda>ex. ex) Some (snd y)) } }"
proof (induction n arbitrary: m res)
  case 0
  show ?case by (rule state_ext) (auto simp: case_prod_beta split: sum.split)
next
  case (Suc n)
  let ?K = "\<lambda>x. case snd x of Inl ex \<Rightarrow> State_Monad.return x
    | Inr (_ :: mt_result option) \<Rightarrow> do { y \<leftarrow> tickf (fst x); State_Monad.return (fst y, map_sum (\<lambda>ex. ex) Some (snd y)) }"
  have "(case snd x of Inl ex \<Rightarrow> State_Monad.return (fst x, Inl ex) | Inr r \<Rightarrow> warm tickf (Suc n) (fst x) (Some r)) =
      (case snd x of Inl ex \<Rightarrow> State_Monad.return (fst x, Inl ex) | Inr r \<Rightarrow> warm tickf n (fst x) (Some r)) \<bind> ?K" for x
    by (cases "snd x") (simp_all add: Suc.IH del: warm.simps)
  then show ?case by (simp only: warm.simps(2) [of tickf "Suc n"]) (simp add: warm.simps(2) [of tickf n m] del: warm.simps)
qed

text \<open>The warm-up of \<open>n + 1\<close> ticks is the module's run of \<open>n + 1\<close> ticks.\<close>

lemma warm_ticks: "run_state (do { m \<leftarrow> mt_load; warm tick_mt (Suc n) m None }) e =
    ((fst (fst (run_state (mt_ticks n) e)), map_sum (\<lambda>ex. ex) Some (snd (fst (run_state (mt_ticks n) e)))), snd (run_state (mt_ticks n) e))"
proof (induction n)
  case 0
  show ?case by (simp add: case_prod_beta split: sum.split)
next
  case (Suc n)
  have "\<exists>r. snd (fst (run_state (mt_ticks n) e)) = Inr r" using lockstepD [OF ticks_lockstep, of n e] by blast
  with Suc show ?case unfolding warm_snoc [of tick_mt "Suc n"]
    by (auto simp: case_prod_beta simp del: warm.simps)
qed

text \<open>
  C13: the warm-up ends and the first page has data. Whatever the random draws and the clock,
  loading the prototype runs 80 ticks without an exception, and what it then shows is what
  the application's simulated source publishes after its first tick and 79 intervals on the
  same draws: the same snapshots under the same keys, with the same histories, the same
  services and the same event log; the first timeout is set to the default interval.
\<close>

theorem mt_warm_up:
  "\<exists>h. fst (run_state (mock_ticks 79) e) = Some h \<and>
     (let a = fst (run_state app_start_mt e) in
       obj_rel snap_rel (ap_snapshots a) (snapshots h) \<and>
       obj_rel (\<lambda>s ps. ps = map abs_point (ms_history s)) (ap_snapshots a) (conn_history h) \<and>
       ap_services a = services h \<and> map abs_event (ap_events a) = events h \<and>
       ap_timeout a = Some 1000 \<and> ap_posts a = [Post_available])"
proof -
  obtain r h where r: "snd (fst (run_state (mt_ticks 79) e)) = Inr r" and h: "fst (run_state (mock_ticks 79) e) = Some h"
    and p: "published r h" using lockstepD [OF ticks_lockstep, of 79 e] by blast
  have w: "fst (run_state (warm tick_mt 80 (fst (run_state mt_load e)) None) (snd (run_state mt_load e))) =
      (fst (fst (run_state (mt_ticks 79) e)), Inr (Some r))"
    using warm_ticks [of 79 e] r by (simp add: case_prod_beta del: warm.simps mt_ticks.simps)
  have m: "ap_module (app_init_mt m) = m" for m by (simp add: app_init_mt_def)
  show ?thesis using h p
    by (auto simp: app_start_mt_def app_mount_def case_prod_beta m w Let_def published_def set_result_def app_init_mt_def
        TWEAK_DEFAULTS_def simp del: warm.simps mt_ticks.simps mock_ticks.simps)
qed

end
