(* ===== verification/Spec2Isabelle.thy ===== *)
theory Spec2Isabelle
  imports App ChartView TopologyGraph MtApp
begin

text \<open>
  \<^bold>\<open>MicroTrace: the dashboard.\<close>

  MicroTrace measures the latency of TCP connections between services. Agents read the kernel
  and send records to a collector, which keeps statistics per connection and sends messages to
  the dashboard over a WebSocket. This development models the dashboard, the TypeScript code
  under \<open>src/frontend/src\<close>, and the prototype it was ported from, the JavaScript code under
  \<open>src/design_handoff_microtrace\<close>, which runs on simulated data alone. The collector (Go), the
  agents (C and Go) and the build are not modelled: for the dashboard the collector is
  whatever sequence of messages arrives, and whatever answers its history interface gives.

  \<^bold>\<open>Parts of the program and theories.\<close>

  \<^item> \<open>Prelude\<close>, \<open>JsNumber\<close>, \<open>JsString\<close>, \<open>JsObject\<close>, \<open>Effects\<close>: what the code uses of
    JavaScript. A number is a rational with the rounding of IEEE doubles written out
    (\<open>fl\<close>, \<open>fadd\<close>, \<open>fmul\<close>, \<open>fdiv\<close>; no overflow; a quotient whose divisor can be zero is an
    \<open>xnumber\<close>, with the infinities and NaN), a string is its UTF-8 bytes, an
    object used as a dictionary is an association list in insertion order, a sort is the stable
    sort by a comparison function, \<open>Math.random\<close> and \<open>Date.now\<close> are a state monad over an
    arbitrary stream of draws in \<open>[0, 1)\<close> and a clock. The locales \<open>rounding_mode\<close> and
    \<open>dictionary\<close> state what the components use of rounding and of objects.
  \<^item> \<open>DataTypes\<close> (\<open>types.ts\<close>): records and unions of the messages and the state.
  \<^item> \<open>Format\<close> (\<open>utils/format.ts\<close>, \<open>constants/causes.ts\<close>): printing of latencies and times,
    status bands and their colours.
  \<^item> \<open>WsClient\<close> and \<open>WsLifecycle\<close> (\<open>hooks/useWebSocket.ts\<close>): \<open>onmessage\<close> with one definition
    per branch over the state \<open>ws_state\<close>; the life of the socket as the relation \<open>ws_trans\<close> over
    \<open>ws_hook\<close>, labelled by the event of the browser (open, message, close, reconnect timer,
    cleanup), with \<open>ws_step\<close> and \<open>ws_reach\<close> for any event and \<open>ws_trace\<close> for a run with its events.
    A socket closed by the cleanup is closing until its close event is delivered.
  \<^item> \<open>MockData\<close> and \<open>MockInvariant\<close> (\<open>hooks/useMockData.ts\<close>): the simulated source, one
    definition per step of its \<open>tick\<close>, and its invariant.
  \<^item> \<open>Overview\<close> (\<open>StatCard\<close>, \<open>GlobalMetrics\<close>, \<open>TopBar\<close>, \<open>SectionHeader\<close>, \<open>SpikeLog\<close>,
    \<open>ViewSwitcher\<close>), \<open>ConnectionList\<close> (\<open>ConnectionListView\<close>), \<open>HeatmapMatrix\<close>
    (\<open>HeatmapMatrixView\<close>), \<open>TopoGraph\<close> (\<open>TopoGraph.tsx\<close>, \<open>constants/topology.ts\<close>),
    \<open>DetailPanel\<close> (\<open>DetailPanel.tsx\<close>): a component's handlers are functions on a record of its
    state, its render function is a function from props and state to a record of what it shows.
    Fixed styling is left out; what depends on data is kept.
  \<^item> \<open>ChartShared\<close> (\<open>chartShared.ts\<close>), \<open>Charts\<close> and \<open>ChartView\<close> (\<open>LatencyChart.tsx\<close>,
    \<open>ResourceChart.tsx\<close>): zoom, pan and new data; spike bands and the options of the plots with
    what their hooks draw (as the commands of \<open>Canvas2d\<close>); tooltips, the canvases that own the
    plots and the charts with their modals. The two charts repeat one another; what differs is
    a \<open>canvas_code\<close>, and the locale \<open>plot_canvas\<close>, interpreted for both, has the common proofs.
  \<^item> \<open>TopologyGraph\<close> (\<open>TopologyGraph.tsx\<close>): the drawing with React Flow that the application
    does not mount at present; what the library's changes do to nodes and edges (move, select,
    remove) is an argument of the events.
  \<^item> \<open>App\<close> (\<open>App.tsx\<close>): selection, view mode and the wiring of all the above; \<open>app_reach\<close>
    interleaves the steps of a data source with everything a user can do on the page.
  \<^item> The prototype: \<open>MtData\<close> (\<open>mt-data.js\<close>), \<open>MtViews\<close> (\<open>mt-views.jsx\<close>), \<open>MtPanels\<close>
    (\<open>mt-panels.jsx\<close>), \<open>MtTopology\<close> (\<open>mt-topology.jsx\<close>), \<open>MtChart\<close> (\<open>mt-chart.jsx\<close>, its
    drawings as lists of canvas commands) and \<open>MtApp\<close> (\<open>mt-app.jsx\<close>, the page as a step
    relation \<open>reach_mt\<close>; the contract of its data module is the locale \<open>tick_source\<close>).
    \<open>MtPlot\<close> has the shared arithmetic of scales. A name that the application has too carries
    the suffix \<open>_mt\<close>; \<open>abs_snap\<close>, \<open>abs_event\<close> and their relations say when data of the two agree.

  \<^bold>\<open>What the theorems show.\<close>

  \<^item> Live client: the event log, the histories and the services are the ones of an unbounded
    specification cut to their bounds (\<open>events_refine\<close>, \<open>history_refine\<close>, \<open>services_refine\<close>),
    in every run of the hook for the messages received in it (\<open>ws_data_is_received\<close>); the state is well-formed after any messages; there is always exactly one connection
    attempt, and it recovers; the cleanup is final with a socket and leaks with a timer.
  \<^item> Simulated source: it never throws, keeps its invariant for ever, and its ticks log exactly
    the spikes that start.
  \<^item> Views: the table is sorted and complete, the drawn matrix shows exactly the connections, the
    corners of the graph's nodes and its zoom keep their limits, a drag is not a click, the
    overview numbers agree; the drawing with React Flow shows services and connections of the
    last data only, and all of them unless the user removes some.
  \<^item> Charts: zoom stays inside the data, pan does for a view that is not wider, bands are the runs of flagged points, exactly
    the plots that are shown are alive, whatever happens to the props, the size and the modal
    (but listeners on the window outlive them).
  \<^item> Prototype: on the same random draws its data module and the application's simulated
    source run in lock step for ever (\<open>mt_data_ported\<close>); on data that agree the list, the
    matrix, the cards, the detail panel and the graph of the two programs show the same, with
    the exact exceptions stated; the page's loop and warm-up never stop or throw, an unknown
    destination would make a tick throw half way, and the drawings stay inside their canvases.
  \<^item> Detail panel and page: with answers in order the panel shows the answer of the selection,
    out of order it can show another connection's; in every reachable state the panel is the
    one of the selected connection and nothing else is highlighted. The contract of a data source is the
    locale \<open>data_source\<close>; both hooks are interpretations of it.
  \<^item> Numbers: accuracy of printed latencies and of the bar of close states, printed times read back.

  The properties are theorems; the other facts, among them bounds of histories, percentiles
  and axes and the agreement of the overview numbers, are lemmas of their component.

  \<^bold>\<open>Parameters.\<close> Code outside the sources is an argument: \<open>uPlot\<close> (record \<open>uplot\<close>, documented
  behaviour \<open>uplot_ok\<close>, instance \<open>plain_plot\<close>), \<open>Math.cos\<close>, \<open>Math.sin\<close>, \<open>Math.sqrt\<close>,
  \<open>localeCompare\<close>, the calendar, the collector's HTTP answers (record \<open>browser\<close>). The time zone
  is an offset. \<open>JSON.parse\<close> is the difference between \<open>None\<close> and \<open>Some\<close> message.

  \<^bold>\<open>Termination.\<close> All definitions are total; loops are structural recursion, and the ones that
  are not have a measure. No fuel is used. Endless behaviour (the reconnect loop, the ticks)
  is a step relation or a number of steps over which the theorems quantify.

  \<^bold>\<open>Not modelled.\<close> Static markup and styling, the hover effects of the application, keys that
  collide with \<open>Object.prototype\<close> or look like array indices, overflow of doubles, NaN (except in
  the prototype's sort and in the pan of a chart without width, where it is \<open>None\<close>, and what
  the plotting library then does is its own), and React's scheduling
  beyond the order of effects within a render. \<open>TopologyTest.tsx\<close> is a fixed demonstration,
  \<open>main.tsx\<close> and the HTML pages only mount the page. The state of the charts inside the detail
  panel is a component of its own (\<open>ChartView\<close>) and not part of the reachable page of \<open>App\<close>.
\<close>

section \<open>Stress in the live dashboard\<close>

lemma wf_ws_reach: "ws_reach h \<Longrightarrow> wf_ws h"
proof (induction rule: ws_reach.induct)
  case mount
  show ?case using live_source.start_inv by simp
qed (rule wf_ws_step)

text \<open>
  C34: The live client never reports a stressed service, whatever load the resource messages
  carry: in every reachable state the counts of stressed services are zero, the badge of the
  top bar is absent and no node of the graph has a halo. The matrix draws a service in the
  colour of stress exactly when there is no resource data for it at all.
\<close>

theorem live_never_stressed:
  assumes "ws_reach h"
  shows "stressed_count (services h) = 0 \<and> tb_stressed (TopBar tz now up (snapshots h) (services h)) = None \<and>
    nv_halo (node_view (snapshots h) (services h) key node st n) = None \<and>
    (lb_color (label_view (services h) n) = ''#dc2626'' \<longleftrightarrow> obj_get (services h) n = None)"
proof -
  have wf: "obj_all wf_service (services h)" using wf_ws_reach [OF assms] by (simp add: wf_ws_def)
  then have none: "sv_stress_kind s = None" if "s \<in> set (obj_values (services h))" for s
    using that by (auto simp: obj_all_def list_all_iff obj_values_def wf_service_def)
  have get: "sv_stress_kind s = None" if "obj_get (services h) n = Some s" for s
    using obj_all_get [OF wf that] by (simp add: wf_service_def)
  have "stressed_count (services h) = 0"
    using none by (simp add: stressed_count_def filter_empty_conv)
  then show ?thesis
    using get by (auto simp: TopBar_def Let_def node_view_def label_view_def isStressed_def split: option.split)
qed

text \<open>A hook that has received one resource message with a load of 100 percent.\<close>

definition busy_hook :: ws_hook where
  "busy_hook = onmessage \<lparr>at_id = 0, at_event = 0, at_point = 0\<rparr>
     (Some ((empty_msg Msg_resource)\<lparr>om_resource := Some
        \<lparr>rm_service_name = ''db'', rm_timestamp_ms = 1000, rm_cpu_pct = 100, rm_cpu_throttle_pct = 50,
         rm_mem_current_bytes = 1, rm_mem_limit_bytes = 1, rm_mem_pressure_pct = 100, rm_io_read_bytes_per_s = 0,
         rm_io_write_bytes_per_s = 0, rm_io_wait_pct = 60, rm_oom_kill_count = 0\<rparr>\<rparr>)) (onopen 0 ws_mount)"

lemma busy_reach: "ws_reach busy_hook"
  using trace_received ws_reach_trace unfolding busy_hook_def by blast

theorem live_never_stressed_witness: "stressed_count (services busy_hook) = 0"
  using live_never_stressed [OF busy_reach, of 0 0 True None None topo_init "[]"] by blast

section \<open>The overview of the simulated source\<close>

text \<open>
  C39: On the simulated source the summaries are consistent after any number of ticks and any
  random draws: the global p95 card shows at most what the global p99 card shows, the number
  on the stressed chip of the list is the number of rows the chip selects, and every spiking
  row names its cause.
\<close>

theorem mock_overview:
  assumes "valid_env e" "fst (run_state (mock_ticks n) e) = Some h"
  shows "mean_of p95_us (obj_values (snapshots h)) \<le> mean_of p99_us (obj_values (snapshots h)) \<and>
    stressed_chip (snapshots h) = length (lv_rows (ConnectionListView lc (setFilter F_stressed st) (snapshots h) sel)) \<and>
    (\<forall>s \<in> set (obj_values (snapshots h)). is_spike s \<longrightarrow>
      (\<exists>k. lr_status (list_row sel s) = CausePill k))"
proof -
  have "mock_inv h" using yieldsD [OF yields_mock_ticks [of n] assms(1)] assms(2) by auto
  then have wf: "wf_mock_snapshot s" if "s \<in> set (obj_values (snapshots h))" for s
    using that by (auto simp: mock_inv_def obj_all_def list_all_iff obj_values_def)
  have cpu: "dst_cpu_pct s \<noteq> None" if "s \<in> set (obj_values (snapshots h))" for s
    using wf [OF that] by (auto simp: wf_mock_snapshot_def split: option.splits)
  have "stressed_chip (snapshots h) = length (filter dst_stressed (obj_values (snapshots h)))"
    unfolding stressed_chip_def
    by (intro arg_cong [where f = length] filter_cong) (use cpu in auto)
  moreover have "\<exists>k. lr_status (list_row sel s) = CausePill k"
    if "s \<in> set (obj_values (snapshots h))" "is_spike s" for s
    using wf [OF that(1)] that(2) by (auto simp: wf_mock_snapshot_def list_row_def Let_def)
  moreover have "\<forall>s \<in> set (obj_values (snapshots h)). p95_us s \<le> p99_us s"
    using wf by (simp add: wf_mock_snapshot_def)
  ultimately show ?thesis using global_means_ordered [of "snapshots h"]
    by (simp add: ConnectionListView_def filtered_def setFilter_def Let_def keeps.simps(3) [abs_def])
qed

theorem mock_overview_witness:
  "\<exists>h. fst (run_state (mock_ticks 2) env0) = Some h \<and>
    mean_of p95_us (obj_values (snapshots h)) \<le> mean_of p99_us (obj_values (snapshots h))"
proof -
  obtain h where "fst (run_state (mock_ticks 2) env0) = Some h"
    using yieldsD [OF yields_mock_ticks valid_env0] by blast
  with mock_overview [OF valid_env0 this] show ?thesis by blast
qed

end
